(* ===== verification/Prelude.thy ===== *)
theory Prelude
  imports Main "HOL-Library.Word"
begin

text \<open>
  The vocabulary that every component of the development shares: the machine integers
  of the code (\<open>uint8_t\<close> to \<open>uint64_t\<close> as words), strings and byte vectors and the two
  conversions between them, the standard-library string searches that the code calls
  (\<open>find\<close>, \<open>find_first_not_of\<close>, \<open>find_last_not_of\<close>, \<open>std::getline\<close> on a delimiter,
  \<open>std::to_string\<close>, \<open>std::stoul\<close>), the exceptions of the code as values of a sum type,
  and the in-memory image of little-endian integers. The named theorem collections
  \<open>codec_simps\<close> and \<open>str_simps\<close> carry the proofs about encoders and about text.
\<close>

unbundle bit_operations_syntax

named_theorems codec_simps "round trips and lengths of the byte encoders"
named_theorems str_simps "facts about the string searches of the standard library"

section \<open>Machine integers, bytes and strings\<close>

type_synonym u8 = "8 word"
type_synonym u16 = "16 word"
type_synonym u32 = "32 word"
type_synonym u64 = "64 word"
type_synonym bytes = "u8 list"

lemma xor_cancel_right [simp]: "a XOR c = b XOR c \<longleftrightarrow> a = b" for a b c :: "'a::len word"
  by (metis xor.assoc xor_self_eq xor.right_neutral)

lemma xor_cancel_left [simp]: "c XOR a = c XOR b \<longleftrightarrow> a = b" for a b c :: "'a::len word"
  by (simp add: xor.commute [of c])

text \<open>
  \<open>body.assign(s.begin(), s.end())\<close> and \<open>std::string(body.begin(), body.end())\<close>: one
  byte per \<open>char\<close>.
\<close>

definition byte_of_char :: "char \<Rightarrow> u8" where
  "byte_of_char c = word_of_nat (of_char c)"

definition char_of_byte :: "u8 \<Rightarrow> char" where
  "char_of_byte b = char_of (unat b)"

definition bytes_of_string :: "string \<Rightarrow> bytes" where
  "bytes_of_string s = map byte_of_char s"

definition string_of_bytes :: "bytes \<Rightarrow> string" where
  "string_of_bytes bs = map char_of_byte bs"

lemma char_of_byte_of_char [simp, codec_simps]: "char_of_byte (byte_of_char c) = c"
proof -
  have "of_char c < (256 :: nat)" by (rule nat_of_char_less_256)
  then show ?thesis
    by (simp add: char_of_byte_def byte_of_char_def unsigned_of_nat take_bit_eq_mod)
qed

lemma byte_of_char_of_byte [simp, codec_simps]: "byte_of_char (char_of_byte b) = b"
proof -
  have "unat b < 256" using unsigned_less [of b] by simp
  then have "of_char (char_of (unat b) :: char) = unat b"
    by simp
  then show ?thesis
    by (simp add: char_of_byte_def byte_of_char_def)
qed

lemma string_of_bytes_of_string [simp, codec_simps]: "string_of_bytes (bytes_of_string s) = s"
  by (simp add: string_of_bytes_def bytes_of_string_def comp_def)

lemma bytes_of_string_of_bytes [simp, codec_simps]: "bytes_of_string (string_of_bytes bs) = bs"
  by (simp add: string_of_bytes_def bytes_of_string_def comp_def)

lemma length_bytes_of_string [simp, codec_simps]: "length (bytes_of_string s) = length s"
  by (simp add: bytes_of_string_def)

lemma length_string_of_bytes [simp, codec_simps]: "length (string_of_bytes s) = length s"
  by (simp add: string_of_bytes_def)

section \<open>Exceptions as values\<close>

text \<open>
  The exceptions that the code throws, each with its \<open>what()\<close> text: the standard ones and
  the classes declared in \<open>EnvConfig.hpp\<close> and \<open>KMSException.hpp\<close>. A function that may
  throw returns \<open>exn + 'a\<close>, \<open>Inl\<close> for the exception.
\<close>

datatype exn =
    Invalid_argument string
  | Out_of_range string
  | Runtime_error string
  | ConfigMissingException string
  | KMSException string
  | SecretNotFoundException string

text \<open>The text of an exception, and a name between single quotes as the messages write it.\<close>

fun exn_what :: "exn \<Rightarrow> string" where
  "exn_what (Invalid_argument s) = s"
| "exn_what (Out_of_range s) = s"
| "exn_what (Runtime_error s) = s"
| "exn_what (ConfigMissingException s) = s"
| "exn_what (KMSException s) = s"
| "exn_what (SecretNotFoundException s) = s"

definition quoted :: "string \<Rightarrow> string" where "quoted s = CHR 0x27 # s @ [CHR 0x27]"

fun exn_bind :: "exn + 'a \<Rightarrow> ('a \<Rightarrow> exn + 'b) \<Rightarrow> exn + 'b" where
  "exn_bind (Inl e) f = Inl e"
| "exn_bind (Inr x) f = f x"

lemma exn_bind_eq_Inr:
  "exn_bind r f = Inr y \<longleftrightarrow> (\<exists>x. r = Inr x \<and> f x = Inr y)"
  by (cases r) auto

lemma exn_bind_eq_Inl:
  "exn_bind r f = Inl e \<longleftrightarrow> r = Inl e \<or> (\<exists>x. r = Inr x \<and> f x = Inl e)"
  by (cases r) auto

text \<open>\<open>catch (const std::exception&)\<close>: every exception above is replaced by the handler's.\<close>

definition rethrow_as :: "exn \<Rightarrow> exn + 'a \<Rightarrow> exn + 'a" where
  "rethrow_as e r = (case r of Inl _ \<Rightarrow> Inl e | Inr x \<Rightarrow> Inr x)"

lemma rethrow_as_simps [simp]:
  "rethrow_as e (Inl x) = Inl e" "rethrow_as e (Inr y) = Inr y"
  by (simp_all add: rethrow_as_def)

lemma rethrow_as_eq_Inr [simp]: "rethrow_as e r = Inr x \<longleftrightarrow> r = Inr x"
  by (cases r) auto

text \<open>The result of code that the language may leave undefined.\<close>

datatype 'a behaviour = Returns 'a | Undefined

text \<open>A loop that stops at the first exception, as \<open>for\<close> does around a throwing body.\<close>

fun exn_map :: "('a \<Rightarrow> exn + 'b) \<Rightarrow> 'a list \<Rightarrow> exn + 'b list" where
  "exn_map f [] = Inr []"
| "exn_map f (x # xs) =
     (case f x of
        Inl e \<Rightarrow> Inl e
      | Inr y \<Rightarrow> (case exn_map f xs of Inl e \<Rightarrow> Inl e | Inr ys \<Rightarrow> Inr (y # ys)))"

lemma exn_map_Inr_iff:
  "exn_map f xs = Inr ys \<longleftrightarrow> list_all2 (\<lambda>x y. f x = Inr y) xs ys"
proof (induction xs arbitrary: ys)
  case Nil
  then show ?case by auto
next
  case (Cons x xs)
  then show ?case
    by (cases ys) (auto simp: Cons.IH [symmetric] split: sum.splits)
qed

lemma exn_map_all_Inr: "(\<And>x. x \<in> set xs \<Longrightarrow> f x = Inr (g x)) \<Longrightarrow> exn_map f xs = Inr (map g xs)"
  by (induction xs) auto

lemma exn_map_first_Inl:
  "\<lbrakk>\<And>x. x \<in> set xs \<Longrightarrow> \<exists>y. f x = Inr y; f z = Inl e\<rbrakk> \<Longrightarrow> exn_map f (xs @ z # zs) = Inl e"
proof (induction xs)
  case Nil
  then show ?case by simp
next
  case (Cons x xs)
  from Cons.prems(1) [of x] obtain y where "f x = Inr y" by auto
  moreover have "exn_map f (xs @ z # zs) = Inl e"
    by (rule Cons.IH) (use Cons.prems in auto)
  ultimately show ?case by simp
qed

section \<open>String searches\<close>

definition is_blank :: "char \<Rightarrow> bool" where
  "is_blank c \<longleftrightarrow> c = CHR '' '' \<or> c = CHR 0x09"

definition is_ws :: "char \<Rightarrow> bool" where
  "is_ws c \<longleftrightarrow> c = CHR '' '' \<or> c = CHR 0x09 \<or> c = CHR 0x0D \<or> c = CHR 0x0A"

text \<open>
  \<open>s.erase(0, s.find_first_not_of(cs)); s.erase(s.find_last_not_of(cs) + 1);\<close>: a search that
  finds nothing returns \<open>npos\<close>, so the first call erases the whole string, and \<open>npos + 1 = 0\<close>
  makes the second one do the same.
\<close>

definition trim :: "(char \<Rightarrow> bool) \<Rightarrow> string \<Rightarrow> string" where
  "trim cs s = rev (dropWhile cs (rev (dropWhile cs s)))"

lemma trim_Nil [simp, str_simps]: "trim cs [] = []"
  by (simp add: trim_def)

definition trimmed :: "(char \<Rightarrow> bool) \<Rightarrow> string \<Rightarrow> bool" where
  "trimmed cs s \<longleftrightarrow> s = [] \<or> (\<not> cs (hd s) \<and> \<not> cs (last s))"

lemma trim_trimmed [str_simps]: "trimmed cs s \<Longrightarrow> trim cs s = s"
proof -
  assume t: "trimmed cs s"
  show ?thesis
  proof (cases "s = []")
    case False
    with t have h: "\<not> cs (hd s)" and l: "\<not> cs (last s)"
      by (auto simp: trimmed_def)
    from False h have d: "dropWhile cs s = s"
      by (cases s) auto
    from False l have "dropWhile cs (rev s) = rev s"
      by (cases s rule: rev_cases) auto
    with d show ?thesis by (simp add: trim_def)
  qed simp
qed

lemma dropWhile_hd_not: "dropWhile P xs \<noteq> [] \<Longrightarrow> \<not> P (hd (dropWhile P xs))"
  by (rule hd_dropWhile) (auto simp: dropWhile_eq_Nil_conv)

lemma last_dropWhile: "dropWhile P xs \<noteq> [] \<Longrightarrow> last (dropWhile P xs) = last xs"
  by (induction xs) auto

lemma trimmed_trim [simp, str_simps]: "trimmed cs (trim cs s)"
proof (cases "trim cs s = []")
  case True
  then show ?thesis by (simp add: trimmed_def)
next
  case False
  define m where "m = dropWhile cs s"
  define d where "d = dropWhile cs (rev m)"
  have t: "trim cs s = rev d" by (simp add: trim_def m_def d_def)
  with False have dn: "d \<noteq> []" by simp
  then have "\<not> cs (hd d)" unfolding d_def by (rule dropWhile_hd_not)
  moreover from dn have "last d = last (rev m)" unfolding d_def by (rule last_dropWhile)
  moreover from dn have "m \<noteq> []" by (auto simp: d_def)
  moreover from \<open>m \<noteq> []\<close> have "\<not> cs (hd m)" unfolding m_def by (rule dropWhile_hd_not)
  ultimately show ?thesis
    by (simp add: trimmed_def t hd_rev last_rev dn)
qed

lemma trim_idem [simp, str_simps]: "trim cs (trim cs s) = trim cs s"
  by (rule trim_trimmed) simp

lemma set_trim_subset: "set (trim cs s) \<subseteq> set s"
  unfolding trim_def set_rev by (metis set_dropWhileD set_rev subsetI)

text \<open>\<open>s.find(c)\<close>: the text before and after the first occurrence of a character.\<close>

fun split_first :: "char \<Rightarrow> string \<Rightarrow> (string \<times> string) option" where
  "split_first c [] = None"
| "split_first c (x # xs) =
     (if x = c then Some ([], xs)
      else case split_first c xs of None \<Rightarrow> None | Some (a, b) \<Rightarrow> Some (x # a, b))"

lemma split_first_None_iff [str_simps]: "split_first c s = None \<longleftrightarrow> c \<notin> set s"
  by (induction s) (auto split: option.splits)

lemma split_first_append [str_simps]: "c \<notin> set a \<Longrightarrow> split_first c (a @ c # b) = Some (a, b)"
  by (induction a) auto

lemma split_first_SomeD: "split_first c s = Some (a, b) \<Longrightarrow> s = a @ c # b \<and> c \<notin> set a"
  by (induction s arbitrary: a) (auto split: option.splits if_splits)

lemma split_first_Some_iff:
  "split_first c s = Some (a, b) \<longleftrightarrow> s = a @ c # b \<and> c \<notin> set a"
  by (auto simp: split_first_append dest: split_first_SomeD)

text \<open>
  \<open>while (std::getline(stream, item, delim))\<close>: the items between delimiters. Text that ends
  in the delimiter has no empty last item, and the empty text has no item at all.
\<close>

fun getlines_acc :: "char \<Rightarrow> string \<Rightarrow> string \<Rightarrow> string list" where
  "getlines_acc d [] acc = (if acc = [] then [] else [rev acc])"
| "getlines_acc d (c # cs) acc =
     (if c = d then rev acc # getlines_acc d cs [] else getlines_acc d cs (c # acc))"

definition getlines :: "char \<Rightarrow> string \<Rightarrow> string list" where
  "getlines d s = getlines_acc d s []"

lemma getlines_acc_append:
  "d \<notin> set a \<Longrightarrow> getlines_acc d (a @ s) acc = getlines_acc d s (rev a @ acc)"
  by (induction a arbitrary: acc) auto

lemma getlines_Nil [simp, str_simps]: "getlines d [] = []"
  by (simp add: getlines_def)

lemma getlines_line [str_simps]:
  "d \<notin> set a \<Longrightarrow> getlines d (a @ d # s) = a # getlines d s"
  by (simp add: getlines_def getlines_acc_append)

lemma getlines_last [str_simps]:
  "d \<notin> set a \<Longrightarrow> a \<noteq> [] \<Longrightarrow> getlines d a = [a]"
  using getlines_acc_append [of d a "[]" "[]"] by (simp add: getlines_def)

text \<open>The inverse: lines ended by a delimiter, and items joined by one.\<close>

fun join_lines :: "char \<Rightarrow> string list \<Rightarrow> string" where
  "join_lines d [] = []"
| "join_lines d (l # ls) = l @ d # join_lines d ls"

fun join_with :: "char \<Rightarrow> string list \<Rightarrow> string" where
  "join_with d [] = []"
| "join_with d [l] = l"
| "join_with d (l # ls) = l @ d # join_with d ls"

lemma getlines_join_lines [str_simps]:
  "(\<And>l. l \<in> set ls \<Longrightarrow> d \<notin> set l) \<Longrightarrow> getlines d (join_lines d ls) = ls"
  by (induction ls) (auto simp: getlines_line)

lemma getlines_join_with [str_simps]:
  "(\<And>l. l \<in> set ls \<Longrightarrow> d \<notin> set l \<and> l \<noteq> []) \<Longrightarrow> getlines d (join_with d ls) = ls"
  by (induction d ls rule: join_with.induct) (auto simp: getlines_line getlines_last)

section \<open>Decimal text\<close>

text \<open>\<open>std::to_string\<close> of an unsigned value, and \<open>operator<<\<close> of one.\<close>

definition digit_char :: "nat \<Rightarrow> char" where
  "digit_char d = char_of (48 + d)"

fun to_string :: "nat \<Rightarrow> string" where
  "to_string n =
     (if n < 10 then [digit_char n] else to_string (n div 10) @ [digit_char (n mod 10)])"

declare to_string.simps [simp del]

definition digit_val :: "char \<Rightarrow> nat" where
  "digit_val c = of_char c - 48"

definition is_digit :: "char \<Rightarrow> bool" where
  "is_digit c \<longleftrightarrow> 48 \<le> (of_char c :: nat) \<and> (of_char c :: nat) \<le> 57"

text \<open>\<open>isspace\<close> in the C locale, the characters that \<open>strtoul\<close> skips.\<close>

definition is_space :: "char \<Rightarrow> bool" where
  "is_space c \<longleftrightarrow> c = CHR '' '' \<or> (9 \<le> (of_char c :: nat) \<and> (of_char c :: nat) \<le> 13)"

definition digits_value :: "string \<Rightarrow> nat" where
  "digits_value ds = foldl (\<lambda>a c. 10 * a + digit_val c) 0 ds"

text \<open>
  \<open>std::stoul(s)\<close> in base 10: white space is skipped, one sign may follow, then the longest
  run of digits is read and the rest of the text is ignored. No digit throws
  \<open>std::invalid_argument\<close>, a magnitude above \<open>ULONG_MAX\<close> throws \<open>std::out_of_range\<close>, and a
  minus sign negates modulo \<open>2 ^ 64\<close>.
\<close>

definition split_sign :: "string \<Rightarrow> bool \<times> string" where
  "split_sign s =
     (case s of
        [] \<Rightarrow> (False, [])
      | c # cs \<Rightarrow> if c = CHR ''-'' then (True, cs)
                  else if c = CHR ''+'' then (False, cs) else (False, s))"

definition stoul :: "string \<Rightarrow> exn + u64" where
  "stoul s =
     (let (neg, body) = split_sign (dropWhile is_space s);
          ds = takeWhile is_digit body;
          n = digits_value ds
      in if ds = [] then Inl (Invalid_argument ''stoul'')
         else if n \<ge> 2 ^ 64 then Inl (Out_of_range ''stoul'')
         else Inr (if neg then - word_of_nat n else word_of_nat n))"

lemma digit_char_facts:
  assumes "d < 10"
  shows "is_digit (digit_char d)" "digit_val (digit_char d) = d"
    "\<not> is_space (digit_char d)" "digit_char d \<noteq> CHR ''-''" "digit_char d \<noteq> CHR ''+''"
proof -
  have oc: "(of_char (digit_char d) :: nat) = 48 + d"
    using assms by (simp add: digit_char_def)
  have ne: "digit_char d \<noteq> c" if "(of_char c :: nat) < 48" for c
  proof
    assume "digit_char d = c"
    with oc that show False by simp
  qed
  show "is_digit (digit_char d)" "digit_val (digit_char d) = d"
    using assms oc by (simp_all add: is_digit_def digit_val_def)
  show "digit_char d \<noteq> CHR ''-''" "digit_char d \<noteq> CHR ''+''"
    by (rule ne, simp)+
  have "digit_char d \<noteq> CHR '' ''" by (rule ne) simp
  then show "\<not> is_space (digit_char d)"
    using oc by (simp add: is_space_def)
qed

lemma to_string_nonempty [simp, str_simps]: "to_string n \<noteq> []"
  by (subst to_string.simps) simp

lemma to_string_digits [str_simps]: "c \<in> set (to_string n) \<Longrightarrow> is_digit c"
proof (induction n rule: to_string.induct)
  case (1 n)
  then show ?case
    using digit_char_facts(1) [of n] digit_char_facts(1) [of "n mod 10"]
    by (subst (asm) to_string.simps) (auto split: if_splits)
qed

lemma digits_value_snoc [simp]:
  "digits_value (ds @ [c]) = 10 * digits_value ds + digit_val c"
  by (simp add: digits_value_def)

lemma digits_value_to_string [simp, str_simps]: "digits_value (to_string n) = n"
proof (induction n rule: to_string.induct)
  case (1 n)
  show ?case
  proof (cases "n < 10")
    case True
    then have "to_string n = [digit_char n]" by (subst to_string.simps) simp
    with True show ?thesis
      by (simp add: digits_value_def digit_char_facts)
  next
    case False
    then have "to_string n = to_string (n div 10) @ [digit_char (n mod 10)]"
      by (subst to_string.simps) simp
    with False "1.IH" show ?thesis
      by (simp add: digit_char_facts)
  qed
qed

lemma to_string_inject [simp]: "to_string m = to_string n \<longleftrightarrow> m = n"
  by (metis digits_value_to_string)

lemma is_digit_not_space: "is_digit c \<Longrightarrow> \<not> is_space c \<and> c \<noteq> CHR ''-'' \<and> c \<noteq> CHR ''+''"
  by (auto simp: is_digit_def is_space_def)

lemma stoul_digits:
  assumes "ds \<noteq> []" and "\<And>c. c \<in> set ds \<Longrightarrow> is_digit c" and "digits_value ds < 2 ^ 64"
  shows "stoul ds = Inr (word_of_nat (digits_value ds))"
proof -
  obtain c cs where ds: "ds = c # cs" using assms(1) by (cases ds) auto
  with assms(2) have c: "\<not> is_space c \<and> c \<noteq> CHR ''-'' \<and> c \<noteq> CHR ''+''"
    using is_digit_not_space by auto
  then have "dropWhile is_space ds = ds" and "split_sign ds = (False, ds)"
    by (simp_all add: ds split_sign_def)
  moreover have all: "takeWhile is_digit ds = ds"
    by (rule takeWhile_eq_all_conv [THEN iffD2]) (use assms(2) in blast)
  ultimately show ?thesis using assms(1,3) by (simp add: stoul_def Let_def all)
qed

lemma stoul_to_string [str_simps]: "n < 2 ^ 64 \<Longrightarrow> stoul (to_string n) = Inr (word_of_nat n)"
  using stoul_digits [of "to_string n"] by (simp add: to_string_digits)

end
