(* ===== verification/Http_Framing.thy ===== *)
theory Http_Framing
  imports Prelude
begin

text \<open>
  The HTTP text framing of \<open>src/common/network/framing/http.hpp\<close>: \<open>HttpHeaders\<close> with its
  printer and its parser, \<open>HttpRequest\<close> and \<open>HttpResponse\<close>. The parser's loop advances a
  position in the text; the model recurses on the rest of the text at that position. The
  lemmas show that headers are read back from what is printed, and how the parser treats
  lines it does not know.
\<close>

section \<open>Lines ended by CR LF\<close>

abbreviation CRLF :: string where "CRLF \<equiv> [CHR 0x0D, CHR 0x0A]"

text \<open>\<open>find("\r\n", pos)\<close>: the text before the first CR LF and the text after it.\<close>

fun split_crlf :: "string \<Rightarrow> (string \<times> string) option" where
  "split_crlf (x # y # zs) =
     (if x = CHR 0x0D \<and> y = CHR 0x0A then Some ([], zs)
      else map_option (\<lambda>(a, b). (x # a, b)) (split_crlf (y # zs)))"
| "split_crlf _ = None"

lemma split_crlf_length: "split_crlf s = Some (a, b) \<Longrightarrow> length b < length s"
  by (induction s arbitrary: a rule: split_crlf.induct) (auto split: if_splits)

lemma split_crlf_line [str_simps]:
  "CHR 0x0D \<notin> set a \<Longrightarrow> split_crlf (a @ CHR 0x0D # CHR 0x0A # b) = Some (a, b)"
proof (induction a)
  case Nil
  then show ?case by simp
next
  case (Cons x a)
  then show ?case by (cases a) auto
qed

section \<open>Headers\<close>

record HttpHeaders =
  hh_authorization :: string
  hh_contentType :: string
  hh_userAgent :: string
  hh_requestId :: string

definition HttpHeaders_default :: HttpHeaders where
  "HttpHeaders_default =
     \<lparr>hh_authorization = [], hh_contentType = ''application/json'',
      hh_userAgent = ''MPC-Engine/1.0'', hh_requestId = []\<rparr>"

definition header_line :: "string \<Rightarrow> string \<Rightarrow> string" where
  "header_line name v = name @ '': '' @ v @ CRLF"

definition Headers_ToString :: "HttpHeaders \<Rightarrow> string" where
  "Headers_ToString h =
     (if hh_authorization h \<noteq> [] then header_line ''Authorization'' (hh_authorization h) else [])
     @ header_line ''Content-Type'' (hh_contentType h)
     @ header_line ''User-Agent'' (hh_userAgent h)
     @ (if hh_requestId h \<noteq> [] then header_line ''X-Request-ID'' (hh_requestId h) else [])"

text \<open>
  One line: without a colon it is skipped; the blanks before the value are removed unless the
  value is all blank; an unknown name is skipped.
\<close>

definition strip_value :: "string \<Rightarrow> string" where
  "strip_value v = (if dropWhile is_blank v = [] then v else dropWhile is_blank v)"

definition parse_header_line :: "string \<Rightarrow> HttpHeaders \<Rightarrow> HttpHeaders" where
  "parse_header_line line h =
     (case split_first CHR '':'' line of
        None \<Rightarrow> h
      | Some (key, rest) \<Rightarrow>
          (let v = strip_value rest in
           if key = ''Authorization'' then h\<lparr>hh_authorization := v\<rparr>
           else if key = ''Content-Type'' then h\<lparr>hh_contentType := v\<rparr>
           else if key = ''User-Agent'' then h\<lparr>hh_userAgent := v\<rparr>
           else if key = ''X-Request-ID'' then h\<lparr>hh_requestId := v\<rparr>
           else h))"

function Headers_FromString :: "string \<Rightarrow> HttpHeaders \<Rightarrow> HttpHeaders" where
  "Headers_FromString s h =
     (case split_crlf s of
        None \<Rightarrow> h
      | Some (line, rest) \<Rightarrow> Headers_FromString rest (parse_header_line line h))"
  by pat_completeness auto
termination
  by (relation "measure (\<lambda>(s, h). length s)") (auto dest: split_crlf_length)

declare Headers_FromString.simps [simp del]

lemma Headers_FromString_Nil [simp]: "Headers_FromString [] h = h"
  by (subst Headers_FromString.simps) simp

text \<open>A value that the printer can print and the parser can read back.\<close>

definition header_value :: "string \<Rightarrow> bool" where
  "header_value v \<longleftrightarrow> v \<noteq> [] \<and> CHR 0x0D \<notin> set v \<and> \<not> is_blank (hd v)"

lemma strip_value_printed: "header_value v \<Longrightarrow> strip_value (CHR '' '' # v) = v"
  by (cases v) (auto simp: strip_value_def header_value_def is_blank_def)

lemma parse_header_line_printed:
  assumes "CHR '':'' \<notin> set name" and "header_value v"
  shows "parse_header_line (name @ '': '' @ v) h =
    (if name = ''Authorization'' then h\<lparr>hh_authorization := v\<rparr>
     else if name = ''Content-Type'' then h\<lparr>hh_contentType := v\<rparr>
     else if name = ''User-Agent'' then h\<lparr>hh_userAgent := v\<rparr>
     else if name = ''X-Request-ID'' then h\<lparr>hh_requestId := v\<rparr>
     else h)"
proof -
  have "split_first CHR '':'' (name @ CHR '':'' # CHR '' '' # v) = Some (name, CHR '' '' # v)"
    by (rule split_first_append) (rule assms(1))
  then show ?thesis
    by (simp add: parse_header_line_def strip_value_printed [OF assms(2)])
qed

lemma Headers_FromString_line:
  assumes "CHR 0x0D \<notin> set name" and "CHR '':'' \<notin> set name" and "header_value v"
  shows "Headers_FromString (header_line name v @ s) h =
    Headers_FromString s
     (if name = ''Authorization'' then h\<lparr>hh_authorization := v\<rparr>
      else if name = ''Content-Type'' then h\<lparr>hh_contentType := v\<rparr>
      else if name = ''User-Agent'' then h\<lparr>hh_userAgent := v\<rparr>
      else if name = ''X-Request-ID'' then h\<lparr>hh_requestId := v\<rparr>
      else h)"
proof -
  have "split_crlf ((name @ '': '' @ v) @ CHR 0x0D # CHR 0x0A # s) = Some (name @ '': '' @ v, s)"
    by (rule split_crlf_line) (use assms in \<open>auto simp: header_value_def\<close>)
  then have "Headers_FromString (header_line name v @ s) h =
      Headers_FromString s (parse_header_line (name @ '': '' @ v) h)"
    by (subst Headers_FromString.simps) (simp add: header_line_def)
  then show ?thesis
    by (simp only: parse_header_line_printed [OF assms(2,3)])
qed

lemmas Headers_FromString_last_line = Headers_FromString_line [where s = "[]", simplified]

lemmas header_line_simps = Headers_FromString_line Headers_FromString_last_line

definition printable_headers :: "HttpHeaders \<Rightarrow> bool" where
  "printable_headers h \<longleftrightarrow>
     header_value (hh_contentType h) \<and> header_value (hh_userAgent h)
     \<and> (hh_authorization h = [] \<or> header_value (hh_authorization h))
     \<and> (hh_requestId h = [] \<or> header_value (hh_requestId h))"

text \<open>
  Printed HTTP headers are read back by the parser into an object with default fields,
  where the two mandatory values are not empty and no value starts with a blank or holds a
  carriage return.
\<close>

theorem Headers_roundtrip:
  assumes "printable_headers h"
  shows "Headers_FromString (Headers_ToString h) HttpHeaders_default = h"
proof -
  have v: "header_value (hh_contentType h)" "header_value (hh_userAgent h)"
    using assms by (simp_all add: printable_headers_def)
  show ?thesis
    using assms v
    by (auto simp: Headers_ToString_def header_line_simps printable_headers_def
        HttpHeaders_default_def)
qed

theorem Headers_roundtrip_witness:
  "Headers_FromString
     (Headers_ToString (HttpHeaders_default\<lparr>hh_authorization := ''Bearer t'', hh_requestId := ''42''\<rparr>))
     HttpHeaders_default
   = HttpHeaders_default\<lparr>hh_authorization := ''Bearer t'', hh_requestId := ''42''\<rparr>"
  by (rule Headers_roundtrip)
    (simp add: printable_headers_def header_value_def HttpHeaders_default_def is_blank_def)

text \<open>An empty content type is printed but read back as one blank.\<close>

lemma Headers_empty_content_type:
  "hh_contentType (Headers_FromString
      (Headers_ToString (HttpHeaders_default\<lparr>hh_contentType := []\<rparr>)) HttpHeaders_default) = '' ''"
  by code_simp

section \<open>Requests and responses\<close>

record HttpRequest =
  hq_method :: string
  hq_url :: string
  hq_headers :: HttpHeaders
  hq_body :: string
  hq_timeoutMs :: u32

definition HttpRequest_default :: HttpRequest where
  "HttpRequest_default =
     \<lparr>hq_method = ''POST'', hq_url = [], hq_headers = HttpHeaders_default, hq_body = [],
      hq_timeoutMs = 30000\<rparr>"

definition Request_ToString :: "HttpRequest \<Rightarrow> string" where
  "Request_ToString r =
     hq_method r @ '' '' @ hq_url r @ '' HTTP/1.1'' @ CRLF
     @ Headers_ToString (hq_headers r)
     @ (if hq_body r \<noteq> [] then ''Content-Length: '' @ to_string (length (hq_body r)) @ CRLF else [])
     @ CRLF
     @ (if hq_body r \<noteq> [] then hq_body r else [])"

record HttpResponse =
  hr_statusCode :: u16
  hr_statusMessage :: string
  hr_headers :: HttpHeaders
  hr_body :: string
  hr_responseTimeMs :: u32

definition Response_IsSuccess :: "HttpResponse \<Rightarrow> bool" where
  "Response_IsSuccess r \<longleftrightarrow> hr_statusCode r \<ge> 200 \<and> hr_statusCode r < 300"

definition Response_ToString :: "HttpResponse \<Rightarrow> string" where
  "Response_ToString r =
     ''HTTP Response ['' @ to_string (unat (hr_statusCode r)) @ '' '' @ hr_statusMessage r @ '']''
     @ [CHR 0x0A] @ ''Headers:'' @ [CHR 0x0A] @ Headers_ToString (hr_headers r)
     @ (if hr_body r \<noteq> [] then
          ''Body ('' @ to_string (length (hr_body r)) @ '' bytes):'' @ [CHR 0x0A]
          @ (if length (hr_body r) \<le> 200 then hr_body r else take 200 (hr_body r) @ ''...'')
        else [])"

text \<open>The printed response shows at most 200 bytes of the body, and says so.\<close>

lemma Response_ToString_truncates:
  "200 < length (hr_body r) \<Longrightarrow>
     \<exists>pre. Response_ToString r = pre @ take 200 (hr_body r) @ ''...''"
  by (auto simp: Response_ToString_def)

end
