(* ===== verification/Thread_Safe_Queue.thy ===== *)
theory Thread_Safe_Queue
  imports Prelude
begin

text \<open>
  The bounded blocking queue of \<open>src/common/utils/queue/ThreadSafeQueue.hpp\<close>. Every operation
  holds the queue's mutex from the return of its condition wait to its end, so each is one
  atomic function of the state. A plain \<open>wait\<close> whose predicate does not hold does not return:
  \<open>Push\<close>, \<open>Emplace\<close> and \<open>Pop\<close> are \<open>None\<close> there. A \<open>wait_for\<close> returns the value of its
  predicate, so \<open>TryPush\<close>, \<open>TryEmplace\<close> and \<open>TryPop\<close> are functions of the state in which the
  timed wait ended. The locale states what the thread pool and the two TCP endpoints rely on;
  the theory \<open>Monitor_Queue\<close> adds the threads, the waits and the notifications.
\<close>

section \<open>State and results\<close>

datatype QueueResult = SUCCESS | SHUTDOWN | TIMEOUT | FULL

fun QueueResultToString :: "QueueResult \<Rightarrow> string" where
  "QueueResultToString SUCCESS = ''SUCCESS''"
| "QueueResultToString SHUTDOWN = ''SHUTDOWN''"
| "QueueResultToString TIMEOUT = ''TIMEOUT''"
| "QueueResultToString FULL = ''FULL''"

record 'a tsq =
  q_items :: "'a list"
  q_max_size :: nat
  q_shutdown :: bool

definition ThreadSafeQueue :: "nat \<Rightarrow> exn + 'a tsq" where
  "ThreadSafeQueue max_size =
     (if max_size = 0 then Inl (Invalid_argument ''Queue max_size must be greater than 0'')
      else Inr \<lparr>q_items = [], q_max_size = max_size, q_shutdown = False\<rparr>)"

section \<open>The operations\<close>

text \<open>The predicates of the two condition variables.\<close>

definition not_full_or_shutdown :: "'a tsq \<Rightarrow> bool" where
  "not_full_or_shutdown q \<longleftrightarrow> length (q_items q) < q_max_size q \<or> q_shutdown q"

definition not_empty_or_shutdown :: "'a tsq \<Rightarrow> bool" where
  "not_empty_or_shutdown q \<longleftrightarrow> q_items q \<noteq> [] \<or> q_shutdown q"

text \<open>What follows a wait that returned with its predicate true.\<close>

definition push_locked :: "'a \<Rightarrow> 'a tsq \<Rightarrow> QueueResult \<times> 'a tsq" where
  "push_locked x q =
     (if q_shutdown q then (SHUTDOWN, q)
      else (SUCCESS, q\<lparr>q_items := q_items q @ [x]\<rparr>))"

definition pop_locked :: "'a tsq \<Rightarrow> QueueResult \<times> 'a option \<times> 'a tsq" where
  "pop_locked q =
     (case q_items q of
        [] \<Rightarrow> (SHUTDOWN, None, q)
      | x # xs \<Rightarrow> (SUCCESS, Some x, q\<lparr>q_items := xs\<rparr>))"

definition Push :: "'a \<Rightarrow> 'a tsq \<Rightarrow> (QueueResult \<times> 'a tsq) option" where
  "Push x q = (if not_full_or_shutdown q then Some (push_locked x q) else None)"

definition TryPush :: "'a \<Rightarrow> 'a tsq \<Rightarrow> QueueResult \<times> 'a tsq" where
  "TryPush x q = (if \<not> not_full_or_shutdown q then (TIMEOUT, q) else push_locked x q)"

definition Emplace :: "('b \<Rightarrow> 'a) \<Rightarrow> 'b \<Rightarrow> 'a tsq \<Rightarrow> (QueueResult \<times> 'a tsq) option" where
  "Emplace mk args q =
     (if not_full_or_shutdown q then
        (if q_shutdown q then Some (SHUTDOWN, q)
         else Some (SUCCESS, q\<lparr>q_items := q_items q @ [mk args]\<rparr>))
      else None)"

definition TryEmplace :: "('b \<Rightarrow> 'a) \<Rightarrow> 'b \<Rightarrow> 'a tsq \<Rightarrow> QueueResult \<times> 'a tsq" where
  "TryEmplace mk args q =
     (if \<not> not_full_or_shutdown q then (TIMEOUT, q)
      else if q_shutdown q then (SHUTDOWN, q)
      else (SUCCESS, q\<lparr>q_items := q_items q @ [mk args]\<rparr>))"

definition Pop :: "'a tsq \<Rightarrow> (QueueResult \<times> 'a option \<times> 'a tsq) option" where
  "Pop q = (if not_empty_or_shutdown q then Some (pop_locked q) else None)"

definition TryPop :: "'a tsq \<Rightarrow> QueueResult \<times> 'a option \<times> 'a tsq" where
  "TryPop q = (if \<not> not_empty_or_shutdown q then (TIMEOUT, None, q) else pop_locked q)"

definition Shutdown :: "'a tsq \<Rightarrow> 'a tsq" where
  "Shutdown q = q\<lparr>q_shutdown := True\<rparr>"

definition Size :: "'a tsq \<Rightarrow> nat" where "Size q = length (q_items q)"
definition Empty :: "'a tsq \<Rightarrow> bool" where "Empty q \<longleftrightarrow> q_items q = []"
definition IsFull :: "'a tsq \<Rightarrow> bool" where "IsFull q \<longleftrightarrow> length (q_items q) \<ge> q_max_size q"
definition IsShutdown :: "'a tsq \<Rightarrow> bool" where "IsShutdown q \<longleftrightarrow> q_shutdown q"
definition Clear :: "'a tsq \<Rightarrow> 'a tsq" where "Clear q = q\<lparr>q_items := []\<rparr>"
definition MaxSize :: "'a tsq \<Rightarrow> nat" where "MaxSize q = q_max_size q"

lemmas queue_defs =
  Push_def TryPush_def Emplace_def TryEmplace_def Pop_def TryPop_def Shutdown_def Clear_def
  push_locked_def pop_locked_def not_full_or_shutdown_def not_empty_or_shutdown_def

lemma Emplace_eq_Push: "Emplace mk args q = Push (mk args) q"
  by (simp add: queue_defs)

lemma TryEmplace_eq_TryPush: "TryEmplace mk args q = TryPush (mk args) q"
  by (simp add: queue_defs)

section \<open>The capacity invariant\<close>

definition q_inv :: "'a tsq \<Rightarrow> bool" where
  "q_inv q \<longleftrightarrow> 0 < q_max_size q \<and> length (q_items q) \<le> q_max_size q"

lemma ThreadSafeQueue_inv: "ThreadSafeQueue n = Inr q \<Longrightarrow> q_inv q \<and> Empty q \<and> \<not> IsShutdown q"
  by (auto simp: ThreadSafeQueue_def q_inv_def Empty_def IsShutdown_def split: if_splits)

lemma Push_None_iff: "Push x q = None \<longleftrightarrow> IsFull q \<and> \<not> q_shutdown q"
  by (auto simp: queue_defs IsFull_def)

lemma Pop_None_iff: "Pop q = None \<longleftrightarrow> q_items q = [] \<and> \<not> q_shutdown q"
  by (auto simp: queue_defs)

lemma Push_Some_SUCCESS_iff:
  "Push x q = Some (SUCCESS, q') \<longleftrightarrow>
     \<not> q_shutdown q \<and> length (q_items q) < q_max_size q \<and> q' = q\<lparr>q_items := q_items q @ [x]\<rparr>"
  by (auto simp: queue_defs)

lemma Push_Some_SHUTDOWN_iff: "Push x q = Some (SHUTDOWN, q') \<longleftrightarrow> q_shutdown q \<and> q' = q"
  by (auto simp: queue_defs)

lemma Push_result: "Push x q = Some (r, q') \<Longrightarrow> r = SUCCESS \<or> r = SHUTDOWN"
  by (auto simp: queue_defs split: if_splits)

lemma Pop_Some_SUCCESS_iff:
  "Pop q = Some (SUCCESS, y, q') \<longleftrightarrow>
     (\<exists>x xs. q_items q = x # xs \<and> y = Some x \<and> q' = q\<lparr>q_items := xs\<rparr>)"
  by (auto simp: queue_defs split: list.splits)

lemma Pop_Some_SHUTDOWN_iff:
  "Pop q = Some (SHUTDOWN, y, q') \<longleftrightarrow> q_shutdown q \<and> q_items q = [] \<and> y = None \<and> q' = q"
  by (auto simp: queue_defs split: list.splits)

lemma Pop_result: "Pop q = Some (r, y, q') \<Longrightarrow> r = SUCCESS \<or> r = SHUTDOWN"
  by (auto simp: queue_defs split: if_splits list.splits)

lemmas queue_op_iffs =
  Push_None_iff Pop_None_iff Push_Some_SUCCESS_iff Push_Some_SHUTDOWN_iff
  Pop_Some_SUCCESS_iff Pop_Some_SHUTDOWN_iff

text \<open>
  Every operation keeps the number of items within the queue's capacity, and no
  operation changes that capacity.
\<close>

theorem queue_capacity:
  assumes "q_inv q"
  shows "(Push x q = Some (r, q') \<longrightarrow> q_inv q' \<and> MaxSize q' = MaxSize q)
    \<and> q_inv (snd (TryPush x q)) \<and> MaxSize (snd (TryPush x q)) = MaxSize q
    \<and> (Pop q = Some (r', y, q'') \<longrightarrow> q_inv q'' \<and> MaxSize q'' = MaxSize q)
    \<and> q_inv (snd (snd (TryPop q))) \<and> MaxSize (snd (snd (TryPop q))) = MaxSize q
    \<and> q_inv (Shutdown q) \<and> q_inv (Clear q)"
  using assms by (auto simp: queue_defs q_inv_def MaxSize_def split: list.splits if_splits)

theorem queue_capacity_witness:
  "q_inv (snd (TryPush (3 :: nat) \<lparr>q_items = [1, 2], q_max_size = 2, q_shutdown = False\<rparr>))"
  using queue_capacity [of "\<lparr>q_items = [1, 2 :: nat], q_max_size = 2, q_shutdown = False\<rparr>" 3]
  by (simp add: q_inv_def)

text \<open>
  The result of every queue operation on every branch: a push is refused with
  \<open>SHUTDOWN\<close> exactly after the shutdown (even when there is room), waits or times out exactly
  when the queue is full and open; a pop still delivers what was queued before the shutdown,
  reports \<open>SHUTDOWN\<close> only when nothing is left, and waits or times out exactly when the queue
  is empty and open. \<open>FULL\<close> is never returned.
\<close>

theorem queue_results:
  "(fst (TryPush x q) = SHUTDOWN \<longleftrightarrow> q_shutdown q)
   \<and> (fst (TryPush x q) = TIMEOUT \<longleftrightarrow> IsFull q \<and> \<not> q_shutdown q)
   \<and> fst (TryPush x q) \<noteq> FULL
   \<and> (Push x q = (if fst (TryPush x q) = TIMEOUT then None else Some (TryPush x q)))
   \<and> (fst (TryPop q) = SUCCESS \<longleftrightarrow> q_items q \<noteq> [])
   \<and> (fst (TryPop q) = SHUTDOWN \<longleftrightarrow> q_items q = [] \<and> q_shutdown q)
   \<and> (fst (TryPop q) = TIMEOUT \<longleftrightarrow> q_items q = [] \<and> \<not> q_shutdown q)
   \<and> fst (TryPop q) \<noteq> FULL
   \<and> (Pop q = (if fst (TryPop q) = TIMEOUT then None else Some (TryPop q)))"
  by (auto simp: queue_defs IsFull_def split: list.splits)

section \<open>The interface its clients use\<close>

text \<open>
  The contract of a work queue: a successful push appends and needs an open queue, any other
  result changes nothing, a successful pop removes the front, an end of work is reported only
  by a closed empty queue, and closing keeps what is queued. A closed queue makes nobody wait.
\<close>

datatype 'a queue_op = Op_push 'a | Op_pop | Op_close

locale work_queue =
  fixes push :: "'a \<Rightarrow> 'q \<Rightarrow> (QueueResult \<times> 'q) option"
    and pop :: "'q \<Rightarrow> (QueueResult \<times> 'a option \<times> 'q) option"
    and close :: "'q \<Rightarrow> 'q"
    and items :: "'q \<Rightarrow> 'a list"
    and closed :: "'q \<Rightarrow> bool"
  assumes push_success:
      "push x q = Some (SUCCESS, q') \<Longrightarrow>
         items q' = items q @ [x] \<and> \<not> closed q \<and> \<not> closed q'"
    and push_refused: "push x q = Some (r, q') \<Longrightarrow> r \<noteq> SUCCESS \<Longrightarrow> q' = q"
    and push_closed: "closed q \<Longrightarrow> push x q = Some (SHUTDOWN, q)"
    and pop_success:
      "pop q = Some (SUCCESS, y, q') \<Longrightarrow>
         \<exists>x. y = Some x \<and> items q = x # items q' \<and> closed q' = closed q"
    and pop_none: "pop q = Some (r, y, q') \<Longrightarrow> r \<noteq> SUCCESS \<Longrightarrow> q' = q"
    and pop_end: "pop q = Some (SHUTDOWN, y, q') \<Longrightarrow> items q = [] \<and> closed q"
    and pop_closed: "closed q \<Longrightarrow> pop q \<noteq> None"
    and close_items: "items (close q) = items q"
    and close_closed: "closed (close q)"

text \<open>
  A sequence of operations by any threads: the items accepted, the items delivered and the
  last state; \<open>None\<close> when an operation of the sequence would wait.
\<close>

fun run_queue ::
  "('a \<Rightarrow> 'q \<Rightarrow> (QueueResult \<times> 'q) option) \<Rightarrow> ('q \<Rightarrow> (QueueResult \<times> 'a option \<times> 'q) option)
     \<Rightarrow> ('q \<Rightarrow> 'q) \<Rightarrow> 'a queue_op list \<Rightarrow> 'q \<Rightarrow> ('a list \<times> 'a list \<times> 'q) option" where
  "run_queue push pop close [] q = Some ([], [], q)"
| "run_queue push pop close (Op_push x # ops) q =
     (case push x q of
        None \<Rightarrow> None
      | Some (r, q') \<Rightarrow>
          map_option (\<lambda>(acc, del, e). (if r = SUCCESS then x # acc else acc, del, e))
            (run_queue push pop close ops q'))"
| "run_queue push pop close (Op_pop # ops) q =
     (case pop q of
        None \<Rightarrow> None
      | Some (r, y, q') \<Rightarrow>
          map_option
            (\<lambda>(acc, del, e).
               (acc, (if r = SUCCESS then (case y of Some x \<Rightarrow> [x] | None \<Rightarrow> []) else []) @ del, e))
            (run_queue push pop close ops q'))"
| "run_queue push pop close (Op_close # ops) q = run_queue push pop close ops (close q)"

context work_queue
begin

lemma run_queue_fifo:
  "run_queue push pop close ops q = Some (acc, del, q') \<Longrightarrow> items q @ acc = del @ items q'"
proof (induction ops arbitrary: q acc del)
  case Nil
  then show ?case by simp
next
  case (Cons op ops)
  show ?case
  proof (cases op)
    case (Op_push x)
    from Cons.prems Op_push obtain r q1 acc1 where
      p: "push x q = Some (r, q1)" and run: "run_queue push pop close ops q1 = Some (acc1, del, q')"
      and acc: "acc = (if r = SUCCESS then x # acc1 else acc1)"
      by (auto split: option.splits)
    from Cons.IH [OF run] have ih: "items q1 @ acc1 = del @ items q'" .
    show ?thesis
    proof (cases "r = SUCCESS")
      case True
      with p push_success have "items q1 = items q @ [x]" by blast
      with ih acc True show ?thesis by simp
    next
      case False
      with p push_refused have "q1 = q" by blast
      with ih acc False show ?thesis by simp
    qed
  next
    case Op_pop
    from Cons.prems Op_pop obtain r y q1 del1 where
      p: "pop q = Some (r, y, q1)" and run: "run_queue push pop close ops q1 = Some (acc, del1, q')"
      and del: "del = (if r = SUCCESS then (case y of Some x \<Rightarrow> [x] | None \<Rightarrow> []) else []) @ del1"
      by (auto split: option.splits)
    from Cons.IH [OF run] have ih: "items q1 @ acc = del1 @ items q'" .
    show ?thesis
    proof (cases "r = SUCCESS")
      case True
      with p pop_success obtain x where "y = Some x" "items q = x # items q1" by blast
      with ih del True show ?thesis by simp
    next
      case False
      with p pop_none have "q1 = q" by blast
      with ih del False show ?thesis by simp
    qed
  next
    case Op_close
    with Cons.prems have "run_queue push pop close ops (close q) = Some (acc, del, q')" by simp
    from Cons.IH [OF this] show ?thesis by (simp add: close_items)
  qed
qed

lemma close_end: "push x (close q) = Some (SHUTDOWN, close q) \<and> pop (close q) \<noteq> None"
  by (simp add: close_closed push_closed pop_closed)

end

interpretation bq: work_queue Push Pop Shutdown q_items q_shutdown
  by unfold_locales (auto simp: queue_defs split: if_splits list.splits)

interpretation tq: work_queue "\<lambda>x q. Some (TryPush x q)" "\<lambda>q. Some (TryPop q)" Shutdown
    q_items q_shutdown
  by unfold_locales (auto simp: queue_defs split: if_splits list.splits)

text \<open>
  C22. Over any sequence of pushes, pops and shutdowns, blocking or timed, the items that
  were accepted after those already queued are exactly the items delivered followed by those
  still queued, in this order: nothing is lost, duplicated or reordered.
\<close>

theorem queue_fifo:
  "(run_queue Push Pop Shutdown ops q = Some (acc, del, q') \<longrightarrow>
      q_items q @ acc = del @ q_items q')
   \<and> (run_queue (\<lambda>x q. Some (TryPush x q)) (\<lambda>q. Some (TryPop q)) Shutdown ops q = Some (acc, del, q')
      \<longrightarrow> q_items q @ acc = del @ q_items q')"
  using bq.run_queue_fifo tq.run_queue_fifo by blast

theorem queue_fifo_witness:
  "[1, 2, 3] = [1, 2] @ q_items \<lparr>q_items = [3 :: nat], q_max_size = 3, q_shutdown = True\<rparr>"
  using queue_fifo [of "[Op_push 1, Op_push 2, Op_pop, Op_push 3, Op_close, Op_push 4, Op_pop]"
      "\<lparr>q_items = [], q_max_size = 3, q_shutdown = False\<rparr>" "[1, 2, 3]" "[1, 2]"
      "\<lparr>q_items = [3 :: nat], q_max_size = 3, q_shutdown = True\<rparr>"]
  by (simp add: queue_defs)

end
