(* ===== verification/Thread_Pool.thy ===== *)
theory Thread_Pool
  imports Thread_Safe_Queue "HOL-Library.Multiset"
begin

text \<open>
  The thread pool of \<open>src/common/utils/threading/ThreadPool.hpp\<close> over the bounded queue, and
  the join helpers of \<open>ThreadUtils.hpp\<close>. A \<open>Task\<close> carries a function pointer, a context
  pointer and an ownership flag; its move operations and its destructor are functions that
  return the contexts they delete. Each worker is a program counter, each submission is
  pending between its test of \<open>stop\<close> and its \<open>Emplace\<close>, and the pool moves by the steps of
  the workers, the submitters and the caller of \<open>Shutdown\<close>, in any interleaving. The state
  records, besides the members of the class, the contexts handed over to the pool, those
  deleted and the calls made, so that the ownership discipline can be stated.
\<close>

section \<open>Tasks\<close>

record 'f task =
  tk_func :: "'f option"
  tk_context :: "nat option"
  tk_owned :: bool

definition Task_default :: "'f task" where
  "Task_default = \<lparr>tk_func = None, tk_context = None, tk_owned = False\<rparr>"

definition Task_new :: "'f \<Rightarrow> nat option \<Rightarrow> bool \<Rightarrow> 'f task" where
  "Task_new f c o' = \<lparr>tk_func = Some f, tk_context = c, tk_owned = o'\<rparr>"

text \<open>The contexts that \<open>~Task\<close> deletes.\<close>

definition Task_destroy :: "'f task \<Rightarrow> nat list" where
  "Task_destroy t = (if tk_owned t then (case tk_context t of None \<Rightarrow> [] | Some c \<Rightarrow> [c]) else [])"

text \<open>Move construction and move assignment: the new value, the rest of the old one, deletions.\<close>

definition Task_moved_from :: "'f task \<Rightarrow> 'f task" where
  "Task_moved_from t = t\<lparr>tk_context := None, tk_owned := False\<rparr>"

definition Task_move :: "'f task \<Rightarrow> 'f task \<times> 'f task" where
  "Task_move other =
     (\<lparr>tk_func = tk_func other, tk_context = tk_context other, tk_owned = tk_owned other\<rparr>,
      Task_moved_from other)"

definition Task_assign :: "'f task \<Rightarrow> 'f task \<Rightarrow> 'f task \<times> 'f task \<times> nat list" where
  "Task_assign self other =
     (\<lparr>tk_func = tk_func other, tk_context = tk_context other, tk_owned = tk_owned other\<rparr>,
      Task_moved_from other, Task_destroy self)"

lemma Task_destroy_simps [simp]:
  "Task_destroy Task_default = []" "Task_destroy (Task_moved_from t) = []"
  by (simp_all add: Task_destroy_def Task_default_def Task_moved_from_def)

lemma Task_assign_default [simp]: "Task_assign Task_default t = (t, Task_moved_from t, [])"
  by (simp add: Task_assign_def)

section \<open>The pool\<close>

datatype 'f worker_pc = W_check | W_pop | W_popped "'f task" | W_running "'f task" | W_exited

record 'f pool =
  tp_queue :: "'f task tsq"
  tp_stop :: bool
  tp_active :: nat
  tp_workers :: "'f worker_pc list"
  tp_num_threads :: nat
  tp_submitting :: "'f task multiset"
  tp_handed :: "nat multiset"
  tp_freed :: "nat list"
  tp_calls :: "('f option \<times> nat option) list"

text \<open>
  The constructor: the queue is built first, so no thread at all is refused by the queue's
  own check; the workers start at the top of their loop.
\<close>

definition ThreadPool_new :: "nat \<Rightarrow> exn + 'f pool" where
  "ThreadPool_new n =
     (case ThreadSafeQueue (n * 100) of
        Inl e \<Rightarrow> Inl e
      | Inr q \<Rightarrow>
          (if n = 0 then Inl (Invalid_argument ''ThreadPool must have at least 1 thread'')
           else Inr \<lparr>tp_queue = q, tp_stop = False, tp_active = 0, tp_workers = replicate n W_check,
                  tp_num_threads = n, tp_submitting = {#}, tp_handed = {#}, tp_freed = [], tp_calls = []\<rparr>))"

definition GetPendingTaskCount :: "'f pool \<Rightarrow> nat" where
  "GetPendingTaskCount s = Size (tp_queue s)"

definition GetActiveTaskCount :: "'f pool \<Rightarrow> nat" where "GetActiveTaskCount s = tp_active s"

definition owned_of :: "'f task \<Rightarrow> nat multiset" where
  "owned_of t = mset (Task_destroy t)"

text \<open>
  \<open>SubmitOwned\<close> and \<open>SubmitBorrowed\<close>, first half: the ownership is taken, then \<open>stop\<close> is
  read. A stopped pool deletes an owned context and throws.
\<close>

definition Submit_begin :: "'f \<Rightarrow> nat option \<Rightarrow> bool \<Rightarrow> 'f pool \<Rightarrow> (exn + unit) \<times> 'f pool" where
  "Submit_begin f c o' s =
     (let t = Task_new f c o'; s1 = s\<lparr>tp_handed := tp_handed s + owned_of t\<rparr> in
      if tp_stop s then
        (Inl (Runtime_error ''ThreadPool is stopped''), s1\<lparr>tp_freed := tp_freed s @ Task_destroy t\<rparr>)
      else (Inr (), s1\<lparr>tp_submitting := add_mset t (tp_submitting s)\<rparr>))"

text \<open>Second half: \<open>Emplace\<close>, which waits while the queue is full, and the check of its result.\<close>

definition Submit_emplace :: "'f task \<Rightarrow> 'f pool \<Rightarrow> ((exn + unit) \<times> 'f pool) option" where
  "Submit_emplace t s =
     (case Emplace (\<lambda>x. x) t (tp_queue s) of
        None \<Rightarrow> None
      | Some (result, q) \<Rightarrow>
          (let s1 = s\<lparr>tp_submitting := tp_submitting s - {#t#}, tp_queue := q\<rparr> in
           if result \<noteq> SUCCESS then
             Some (Inl (Runtime_error ''Failed to push task''),
               s1\<lparr>tp_freed := tp_freed s @ Task_destroy t\<rparr>)
           else Some (Inr (), s1)))"

text \<open>
  One step of worker \<open>i\<close>: the loop test, the \<open>Pop\<close> into a default task, the call, and the
  end of the iteration with the task's destructor, the same whether the call threw or not.
\<close>

definition set_pc :: "nat \<Rightarrow> 'f worker_pc \<Rightarrow> 'f pool \<Rightarrow> 'f pool" where
  "set_pc i pc s = s\<lparr>tp_workers := (tp_workers s)[i := pc]\<rparr>"

definition WorkerLoop_step :: "nat \<Rightarrow> 'f pool \<Rightarrow> 'f pool option" where
  "WorkerLoop_step i s =
     (if i \<ge> length (tp_workers s) then None
      else case tp_workers s ! i of
        W_check \<Rightarrow> Some (set_pc i (if tp_stop s then W_exited else W_pop) s)
      | W_pop \<Rightarrow>
          (case Pop (tp_queue s) of
             None \<Rightarrow> None
           | Some (result, item, q) \<Rightarrow>
               (case (result, item) of
                  (SUCCESS, Some front) \<Rightarrow>
                    (case Task_assign Task_default front of
                       (task, rest, deleted) \<Rightarrow>
                         Some (set_pc i (W_popped task)
                           (s\<lparr>tp_queue := q, tp_freed := tp_freed s @ deleted @ Task_destroy rest\<rparr>)))
                | _ \<Rightarrow> Some (set_pc i W_exited (s\<lparr>tp_queue := q\<rparr>))))
      | W_popped task \<Rightarrow>
          Some (set_pc i (W_running task)
            (s\<lparr>tp_active := tp_active s + 1, tp_calls := tp_calls s @ [(tk_func task, tk_context task)]\<rparr>))
      | W_running task \<Rightarrow>
          Some (set_pc i W_check
            (s\<lparr>tp_active := tp_active s - 1, tp_freed := tp_freed s @ Task_destroy task\<rparr>))
      | W_exited \<Rightarrow> None)"

text \<open>
  \<open>Shutdown\<close>: the exchange of \<open>stop\<close>, the queue's shutdown, and the joins, which return when
  every worker has left its loop. Only the first caller goes past the exchange.
\<close>

definition Shutdown_exchange :: "'f pool \<Rightarrow> bool \<times> 'f pool" where
  "Shutdown_exchange s = (tp_stop s, s\<lparr>tp_stop := True\<rparr>)"

definition Shutdown_queue :: "'f pool \<Rightarrow> 'f pool" where
  "Shutdown_queue s = s\<lparr>tp_queue := Shutdown (tp_queue s)\<rparr>"

definition all_joined :: "'f pool \<Rightarrow> bool" where
  "all_joined s \<longleftrightarrow> list_all (\<lambda>pc. pc = W_exited) (tp_workers s)"

text \<open>The destructor's last part: the queue's destructor runs \<open>~Task\<close> on what is left in it.\<close>

definition Pool_destroy :: "'f pool \<Rightarrow> 'f pool" where
  "Pool_destroy s =
     s\<lparr>tp_freed := tp_freed s @ concat (map Task_destroy (q_items (tp_queue s))),
       tp_queue := Clear (tp_queue s)\<rparr>"

inductive pool_step :: "'f pool \<Rightarrow> 'f pool \<Rightarrow> bool" where
  ps_begin: "Submit_begin f c o' s = (r, s') \<Longrightarrow> pool_step s s'"
| ps_emplace: "t \<in># tp_submitting s \<Longrightarrow> Submit_emplace t s = Some (r, s') \<Longrightarrow> pool_step s s'"
| ps_worker: "WorkerLoop_step i s = Some s' \<Longrightarrow> pool_step s s'"
| ps_exchange: "Shutdown_exchange s = (stopped, s') \<Longrightarrow> pool_step s s'"
| ps_close: "tp_stop s \<Longrightarrow> pool_step s (Shutdown_queue s)"
| ps_destroy: "tp_stop s \<Longrightarrow> all_joined s \<Longrightarrow> tp_submitting s = {#} \<Longrightarrow> pool_step s (Pool_destroy s)"

inductive_cases pool_stepE: "pool_step s s'"

section \<open>Ownership and accounting\<close>

text \<open>The owned contexts that a worker holds, and those held anywhere in the pool.\<close>

fun pc_owned :: "'f worker_pc \<Rightarrow> nat multiset" where
  "pc_owned (W_popped t) = owned_of t"
| "pc_owned (W_running t) = owned_of t"
| "pc_owned _ = {#}"

fun pc_running :: "'f worker_pc \<Rightarrow> nat" where
  "pc_running (W_running t) = 1"
| "pc_running _ = 0"

definition held :: "'f pool \<Rightarrow> nat multiset" where
  "held s = \<Sum>\<^sub># (image_mset owned_of (tp_submitting s))
     + sum_list (map owned_of (q_items (tp_queue s)))
     + sum_list (map pc_owned (tp_workers s))"

definition pool_inv :: "'f pool \<Rightarrow> bool" where
  "pool_inv s \<longleftrightarrow>
     tp_handed s = mset (tp_freed s) + held s
     \<and> tp_active s = sum_list (map pc_running (tp_workers s))
     \<and> length (tp_workers s) = tp_num_threads s
     \<and> q_inv (tp_queue s)
     \<and> (q_shutdown (tp_queue s) \<longrightarrow> tp_stop s)
     \<and> (W_exited \<in> set (tp_workers s) \<longrightarrow> tp_stop s)"

text \<open>Replacing one element of a list changes a sum over it by that element's part.\<close>

lemma sum_list_update_split:
  fixes f :: "'a \<Rightarrow> 'b::comm_monoid_add"
  assumes "i < length xs"
  obtains R where "sum_list (map f xs) = f (xs ! i) + R"
    and "sum_list (map f (xs[i := x])) = f x + R"
proof
  let ?R = "sum_list (map f (take i xs)) + sum_list (map f (drop (Suc i) xs))"
  show "sum_list (map f xs) = f (xs ! i) + ?R"
    by (subst id_take_nth_drop [OF assms]) (simp add: ac_simps)
  show "sum_list (map f (xs[i := x])) = f x + ?R"
    using assms by (simp add: upd_conv_take_nth_drop ac_simps)
qed

lemma pool_workers_update:
  assumes "i < length (tp_workers s)"
  obtains R r where
    "sum_list (map pc_owned (tp_workers s)) = pc_owned (tp_workers s ! i) + R"
    "sum_list (map pc_owned ((tp_workers s)[i := pc])) = pc_owned pc + R"
    "sum_list (map pc_running (tp_workers s)) = pc_running (tp_workers s ! i) + r"
    "sum_list (map pc_running ((tp_workers s)[i := pc])) = pc_running pc + r"
  using sum_list_update_split [OF assms, of pc_owned pc]
    sum_list_update_split [OF assms, of pc_running pc] by metis

lemma mset_concat_destroy: "mset (concat (map Task_destroy ts)) = sum_list (map owned_of ts)"
  by (induction ts) (auto simp: owned_of_def)

lemma exited_update: "W_exited \<in> set (ws[i := pc]) \<Longrightarrow> W_exited \<in> set ws \<or> pc = W_exited"
  using set_update_subset_insert [of ws i pc] by auto

lemma Submit_begin_inv: "Submit_begin f c o' s = (r, s') \<Longrightarrow> pool_inv s \<Longrightarrow> pool_inv s'"
  by (auto simp: Submit_begin_def pool_inv_def held_def owned_of_def Let_def split: if_splits)

lemma Submit_emplace_inv:
  "Submit_emplace t s = Some (r, s') \<Longrightarrow> t \<in># tp_submitting s \<Longrightarrow> pool_inv s \<Longrightarrow> pool_inv s'"
proof -
  assume run: "Submit_emplace t s = Some (r, s')" and t: "t \<in># tp_submitting s" and inv: "pool_inv s"
  from t obtain M where M: "tp_submitting s = add_mset t M" by (blast dest: multi_member_split)
  from run M inv show ?thesis
    by (auto simp: Submit_emplace_def queue_defs pool_inv_def held_def owned_of_def q_inv_def Let_def
        ac_simps split: option.splits if_splits)
qed

lemma WorkerLoop_step_inv: "WorkerLoop_step i s = Some s' \<Longrightarrow> pool_inv s \<Longrightarrow> pool_inv s'"
proof -
  assume run: "WorkerLoop_step i s = Some s'" and inv: "pool_inv s"
  then have i: "i < length (tp_workers s)" by (auto simp: WorkerLoop_step_def split: if_splits)
  have upd: "pool_inv s'" if "s' = set_pc i pc (s\<lparr>tp_queue := q, tp_active := a, tp_freed := tp_freed s @ d,
        tp_calls := cs\<rparr>)"
      and "sum_list (map owned_of (q_items (tp_queue s))) + pc_owned (tp_workers s ! i)
        = mset d + sum_list (map owned_of (q_items q)) + pc_owned pc"
      and "a + pc_running (tp_workers s ! i) = tp_active s + pc_running pc"
      and "q_inv q" and "q_shutdown q = q_shutdown (tp_queue s)"
      and "pc = W_exited \<Longrightarrow> tp_stop s" for pc q a d cs
  proof -
    obtain R r where "sum_list (map pc_owned (tp_workers s)) = pc_owned (tp_workers s ! i) + R"
      "sum_list (map pc_owned ((tp_workers s)[i := pc])) = pc_owned pc + R"
      "sum_list (map pc_running (tp_workers s)) = pc_running (tp_workers s ! i) + r"
      "sum_list (map pc_running ((tp_workers s)[i := pc])) = pc_running pc + r"
      using pool_workers_update [OF i] by blast
    moreover have "mset (tp_freed s @ d) + (sum_list (map owned_of (q_items q)) + (pc_owned pc + R))
        = mset (tp_freed s) + (sum_list (map owned_of (q_items (tp_queue s))) + (pc_owned (tp_workers s ! i) + R))"
      using that(2) by (simp add: ac_simps)
    ultimately show ?thesis using that inv
      by (auto simp: pool_inv_def held_def set_pc_def ac_simps dest: exited_update)
  qed
  show ?thesis
  proof (cases "tp_workers s ! i")
    case W_check
    with run i have "s' = set_pc i (if tp_stop s then W_exited else W_pop) s"
      by (simp add: WorkerLoop_step_def)
    then show ?thesis using upd [where pc = "if tp_stop s then W_exited else W_pop" and q = "tp_queue s" and a = "tp_active s" and d = "[]" and cs = "tp_calls s"]
        inv W_check by (simp add: pool_inv_def split: if_splits)
  next
    case W_pop
    show ?thesis
    proof (cases "q_items (tp_queue s)")
      case Nil
      with run i W_pop have "s' = set_pc i W_exited s" and "q_shutdown (tp_queue s)"
        by (auto simp: WorkerLoop_step_def queue_defs split: if_splits)
      then show ?thesis using upd [where pc = W_exited and q = "tp_queue s" and a = "tp_active s" and d = "[]" and cs = "tp_calls s"] inv W_pop
        by (simp add: pool_inv_def)
    next
      case (Cons t ts)
      with run i W_pop have "s' = set_pc i (W_popped t) (s\<lparr>tp_queue := tp_queue s\<lparr>q_items := ts\<rparr>\<rparr>)"
        by (auto simp: WorkerLoop_step_def queue_defs)
      then show ?thesis
        using upd [where pc = "W_popped t" and q = "tp_queue s\<lparr>q_items := ts\<rparr>" and a = "tp_active s" and d = "[]" and cs = "tp_calls s"] inv W_pop Cons
        by (simp add: pool_inv_def q_inv_def ac_simps)
    qed
  next
    case (W_popped t)
    with run i have "s' = set_pc i (W_running t)
        (s\<lparr>tp_active := tp_active s + 1, tp_calls := tp_calls s @ [(tk_func t, tk_context t)]\<rparr>)"
      by (simp add: WorkerLoop_step_def)
    then show ?thesis using upd [where pc = "W_running t" and q = "tp_queue s" and a = "tp_active s + 1" and d = "[]"] inv W_popped
      by (simp add: pool_inv_def)
  next
    case (W_running t)
    with run i have "s' = set_pc i W_check
        (s\<lparr>tp_active := tp_active s - 1, tp_freed := tp_freed s @ Task_destroy t\<rparr>)"
      by (simp add: WorkerLoop_step_def)
    moreover have "0 < tp_active s"
      using inv pool_workers_update [OF i, of W_check] W_running
      by (metis One_nat_def add_gr_0 less_numeral_extra(1) pc_running.simps(1) pool_inv_def)
    ultimately show ?thesis
      using upd [where pc = W_check and q = "tp_queue s" and a = "tp_active s - 1" and d = "Task_destroy t" and cs = "tp_calls s"] inv W_running
      by (simp add: pool_inv_def owned_of_def ac_simps)
  next
    case W_exited
    with run show ?thesis by (simp add: WorkerLoop_step_def split: if_splits)
  qed
qed

lemma pool_step_inv: "pool_step s s' \<Longrightarrow> pool_inv s \<Longrightarrow> pool_inv s'"
proof (erule pool_stepE)
  assume "s' = Pool_destroy s" "pool_inv s"
  then show "pool_inv s'"
    by (simp add: Pool_destroy_def pool_inv_def held_def Clear_def q_inv_def mset_concat_destroy ac_simps)
qed (auto dest: Submit_begin_inv Submit_emplace_inv WorkerLoop_step_inv
    simp: Shutdown_exchange_def Shutdown_queue_def Shutdown_def pool_inv_def held_def q_inv_def)

lemma sum_list_replicate_empty [simp]: "sum_list (replicate n {#}) = {#}"
  by (induction n) auto

lemma ThreadPool_new_inv: "ThreadPool_new n = Inr s \<Longrightarrow> pool_inv s"
  by (auto simp: ThreadPool_new_def ThreadSafeQueue_def pool_inv_def held_def q_inv_def sum_list_replicate
      split: sum.splits if_splits)

lemma pool_reachable_inv: "ThreadPool_new n = Inr s0 \<Longrightarrow> pool_step\<^sup>*\<^sup>* s0 s \<Longrightarrow> pool_inv s"
  by (rotate_tac, induction rule: rtranclp_induct) (auto intro: pool_step_inv ThreadPool_new_inv)

text \<open>
  C12. The ownership discipline of the pool, in every interleaving of submitters, workers and
  shutdown: what was handed over is exactly what was deleted together with what the pool
  still holds. So a context handed over once is never deleted twice and never while it is
  queued or in use, and when the pool is destroyed after its shutdown every owned context has
  been deleted, those of tasks that never ran included.
\<close>

theorem pool_ownership:
  assumes "ThreadPool_new n = Inr s0" and "pool_step\<^sup>*\<^sup>* s0 s"
  shows "tp_handed s = mset (tp_freed s) + held s
    \<and> (\<forall>c. count (tp_handed s) c = 1 \<longrightarrow>
         count (mset (tp_freed s)) c \<le> 1 \<and> (c \<in># held s \<longrightarrow> c \<notin> set (tp_freed s)))
    \<and> (all_joined s \<and> tp_submitting s = {#} \<longrightarrow> mset (tp_freed (Pool_destroy s)) = tp_handed s)
    \<and> tp_active s \<le> tp_num_threads s"
proof -
  have inv: "pool_inv s" using pool_reachable_inv assms by blast
  then have h: "tp_handed s = mset (tp_freed s) + held s"
    and act: "tp_active s = sum_list (map pc_running (tp_workers s))"
    and len: "length (tp_workers s) = tp_num_threads s" by (simp_all add: pool_inv_def)
  have once: "count (mset (tp_freed s)) c \<le> 1 \<and> (c \<in># held s \<longrightarrow> c \<notin> set (tp_freed s))"
    if "count (tp_handed s) c = 1" for c
  proof -
    from that h have "count (mset (tp_freed s)) c + count (held s) c = 1" by simp
    then have "count (mset (tp_freed s)) c \<le> 1"
      and "count (held s) c > 0 \<longrightarrow> count (mset (tp_freed s)) c = 0" by linarith+
    then show ?thesis by (simp add: count_eq_zero_iff)
  qed
  have joined: "sum_list (map pc_owned ws) = {#}" if "list_all (\<lambda>pc. pc = W_exited) ws"
    for ws :: "'a worker_pc list"
    using that by (induction ws) auto
  have running: "sum_list (map pc_running ws) \<le> length ws" for ws :: "'a worker_pc list"
  proof (induction ws)
    case (Cons w ws)
    then show ?case by (cases w) auto
  qed simp
  show ?thesis
    using h once running [of "tp_workers s"] act len
    by (auto simp: Pool_destroy_def mset_concat_destroy held_def all_joined_def joined ac_simps)
qed

theorem pool_ownership_witness:
  "mset (tp_freed (\<lparr>tp_queue = \<lparr>q_items = [], q_max_size = 100, q_shutdown = False\<rparr>, tp_stop = False,
       tp_active = 0, tp_workers = [W_check], tp_num_threads = 1,
       tp_submitting = {#Task_new (0 :: nat) (Some 7) True#}, tp_handed = {#7#}, tp_freed = [], tp_calls = []\<rparr>))
     = {#}"
proof -
  let ?init = "\<lparr>tp_queue = \<lparr>q_items = [], q_max_size = 100, q_shutdown = False\<rparr>, tp_stop = False,
       tp_active = 0, tp_workers = [W_check], tp_num_threads = 1,
       tp_submitting = {#}, tp_handed = {#}, tp_freed = [], tp_calls = []\<rparr> :: nat pool"
  let ?cur = "?init\<lparr>tp_submitting := {#Task_new (0 :: nat) (Some 7) True#}, tp_handed := {#7#}\<rparr>"
  have "ThreadPool_new 1 = Inr ?init"
    by (simp add: ThreadPool_new_def ThreadSafeQueue_def)
  moreover have "pool_step ?init ?cur"
    by (rule ps_begin [of 0 "Some 7" True _ "Inr ()"])
      (simp add: Submit_begin_def Let_def owned_of_def Task_destroy_def Task_new_def)
  then have "pool_step\<^sup>*\<^sup>* ?init ?cur" by blast
  ultimately have "count (mset (tp_freed ?cur)) 7 \<le> 1 \<and> (7 \<in># held ?cur \<longrightarrow> 7 \<notin> set (tp_freed ?cur))"
    using pool_ownership [of 1 ?init ?cur] by simp
  then show ?thesis by simp
qed

section \<open>Shutdown\<close>

fun pc_work :: "'f worker_pc \<Rightarrow> nat" where
  "pc_work W_exited = 0"
| "pc_work W_check = 1"
| "pc_work (W_running t) = 2"
| "pc_work (W_popped t) = 3"
| "pc_work W_pop = 4"

definition shutdown_work :: "'f pool \<Rightarrow> nat" where
  "shutdown_work s = sum_list (map pc_work (tp_workers s))"

lemma WorkerLoop_step_pc:
  assumes "WorkerLoop_step i s = Some s'"
  obtains pc where "i < length (tp_workers s)" "tp_workers s' = (tp_workers s)[i := pc]"
    "tp_workers s ! i \<noteq> W_exited" "tp_stop s' = tp_stop s"
    "q_shutdown (tp_queue s') = q_shutdown (tp_queue s)"
    "tp_stop s \<Longrightarrow> pc_work pc < pc_work (tp_workers s ! i)"
  using assms
  by (auto simp: WorkerLoop_step_def set_pc_def queue_defs
      split: if_splits worker_pc.splits list.splits option.splits)

lemma WorkerLoop_step_enabled:
  "i < length (tp_workers s) \<Longrightarrow> tp_workers s ! i \<noteq> W_exited \<Longrightarrow> q_shutdown (tp_queue s) \<Longrightarrow>
     WorkerLoop_step i s \<noteq> None"
  by (auto simp: WorkerLoop_step_def queue_defs split: worker_pc.splits list.splits)

lemma shutdown_work_decreases:
  assumes "WorkerLoop_step i s = Some s'" and "tp_stop s"
  shows "shutdown_work s' < shutdown_work s"
proof -
  obtain pc where i: "i < length (tp_workers s)" and w: "tp_workers s' = (tp_workers s)[i := pc]"
    and less: "pc_work pc < pc_work (tp_workers s ! i)"
    using assms by (elim WorkerLoop_step_pc) blast
  obtain R where "sum_list (map pc_work (tp_workers s)) = pc_work (tp_workers s ! i) + R"
    and "sum_list (map pc_work ((tp_workers s)[i := pc])) = pc_work pc + R"
    using sum_list_update_split [OF i] by blast
  with w less show ?thesis by (simp add: shutdown_work_def)
qed

lemma all_joined_step: "pool_step s s' \<Longrightarrow> all_joined s \<Longrightarrow> all_joined s' \<and> tp_calls s' = tp_calls s"
  by (erule pool_stepE)
    (auto simp: Submit_begin_def Submit_emplace_def Shutdown_exchange_def Shutdown_queue_def
      Pool_destroy_def all_joined_def list_all_length Let_def
      elim!: WorkerLoop_step_pc split: if_splits option.splits)

lemma all_joined_final: "pool_step\<^sup>*\<^sup>* s s' \<Longrightarrow> all_joined s \<Longrightarrow> all_joined s' \<and> tp_calls s' = tp_calls s"
  by (induction rule: rtranclp_induct) (use all_joined_step in fastforce)+

text \<open>
  C23. The shutdown of the pool: once \<open>stop\<close> is set and the queue is closed no worker waits,
  every worker that has not left its loop has a next step, and every step makes the measure
  \<open>shutdown_work\<close> smaller, so the joins return after a bounded number of steps beyond the
  tasks' own code. From then on nothing more is called: tasks still queued at that moment are
  dropped, never run.
\<close>

theorem pool_shutdown:
  assumes "tp_stop s" and "q_shutdown (tp_queue s)"
  shows "(\<forall>i < length (tp_workers s). tp_workers s ! i \<noteq> W_exited \<longrightarrow> WorkerLoop_step i s \<noteq> None)
    \<and> (WorkerLoop_step i s = Some s' \<longrightarrow>
         shutdown_work s' < shutdown_work s \<and> tp_stop s' \<and> q_shutdown (tp_queue s'))
    \<and> (all_joined s \<and> pool_step\<^sup>*\<^sup>* s s'' \<longrightarrow> tp_calls s'' = tp_calls s)"
  using assms WorkerLoop_step_enabled [of _ s] shutdown_work_decreases [of i s s'] all_joined_final [of s s'']
  by (auto elim: WorkerLoop_step_pc)

theorem pool_shutdown_witness:
  "WorkerLoop_step 0 \<lparr>tp_queue = \<lparr>q_items = [Task_new (0 :: nat) (Some 7) True], q_max_size = 100, q_shutdown = True\<rparr>,
       tp_stop = True, tp_active = 0, tp_workers = [W_check], tp_num_threads = 1,
       tp_submitting = {#}, tp_handed = {#7#}, tp_freed = [], tp_calls = []\<rparr> \<noteq> None"
  using pool_shutdown [of "\<lparr>tp_queue = \<lparr>q_items = [Task_new (0 :: nat) (Some 7) True], q_max_size = 100, q_shutdown = True\<rparr>,
       tp_stop = True, tp_active = 0, tp_workers = [W_check], tp_num_threads = 1,
       tp_submitting = {#}, tp_handed = {#7#}, tp_freed = [], tp_calls = []\<rparr>"]
  by (simp del: not_None_eq)

section \<open>Joining threads\<close>

text \<open>
  \<open>ThreadUtils.hpp\<close>. What the timed wait sees of a thread: it has no thread to join, it ends
  within the timeout, or it does not. After a timeout the thread is detached and, since the
  destructor of the future waits for the helper that joins, the call returns only once the
  thread has ended: the second component is whether the call returns at all when the thread
  never does.
\<close>

datatype JoinResult = J_SUCCESS | J_TIMEOUT | J_NOT_JOINABLE

fun JoinResultToString :: "JoinResult \<Rightarrow> string" where
  "JoinResultToString J_SUCCESS = ''SUCCESS''"
| "JoinResultToString J_TIMEOUT = ''TIMEOUT''"
| "JoinResultToString J_NOT_JOINABLE = ''NOT_JOINABLE''"

datatype thread_end = Not_joinable | Ends_after nat | Never_ends

fun JoinWithTimeout :: "thread_end \<Rightarrow> nat \<Rightarrow> JoinResult option" where
  "JoinWithTimeout Not_joinable timeout_ms = Some J_NOT_JOINABLE"
| "JoinWithTimeout (Ends_after ms) timeout_ms =
     Some (if ms \<le> timeout_ms then J_SUCCESS else J_TIMEOUT)"
| "JoinWithTimeout Never_ends timeout_ms = None"

fun JoinAllWithTimeout :: "thread_end option list \<Rightarrow> nat \<Rightarrow> nat option" where
  "JoinAllWithTimeout [] timeout_ms = Some 0"
| "JoinAllWithTimeout (None # ts) timeout_ms = JoinAllWithTimeout ts timeout_ms"
| "JoinAllWithTimeout (Some t # ts) timeout_ms =
     (case JoinWithTimeout t timeout_ms of
        None \<Rightarrow> None
      | Some r \<Rightarrow>
          map_option (\<lambda>n. (if r = J_SUCCESS then 1 else 0) + n) (JoinAllWithTimeout ts timeout_ms))"

text \<open>
  \<open>SafeStopThread\<close>: the stop flag is set, the waiters of the condition are woken when one is
  given, then the timed join.
\<close>

definition SafeStopThread ::
  "thread_end \<Rightarrow> bool \<Rightarrow> bool \<Rightarrow> nat \<Rightarrow> bool \<times> bool \<times> JoinResult option" where
  "SafeStopThread thread stop_flag has_condition timeout_ms =
     (True, has_condition, JoinWithTimeout thread timeout_ms)"

end
