(* ===== verification/Basic_Types.thy ===== *)
theory Basic_Types
  imports Prelude
begin

text \<open>
  The enumerations and constants that both servers share: \<open>src/types/BasicTypes.hpp\<close>,
  \<open>MessageTypes.hpp\<close> and \<open>WalletMessageType.hpp\<close>. Every enumeration keeps the constructors
  of the source; where the code converts one to a number, the conversion is a function.
\<close>

section \<open>BasicTypes.hpp\<close>

definition MAX_MESSAGE_SIZE :: u32 where "MAX_MESSAGE_SIZE = 1024 * 1024"
definition DEFAULT_TCP_TIMEOUT_MS :: u32 where "DEFAULT_TCP_TIMEOUT_MS = 5000"

datatype ConnectionStatus = DISCONNECTED | CONNECTING | CONNECTED | ERROR

datatype NetworkError =
    NONE | CONNECTION_FAILED | SEND_FAILED | RECEIVE_FAILED | TIMEOUT | INVALID_DATA
  | CONNECTION_ERROR | SEND_ERROR | SOCKET_CREATE_ERROR | INVALID_ADDRESS

datatype PlatformType = LOCAL | AWS | AZURE | IBM | GOOGLE | UNKNOWN

fun PlatformTypeToString :: "PlatformType \<Rightarrow> string" where
  "PlatformTypeToString LOCAL = ''LOCAL''"
| "PlatformTypeToString AWS = ''AWS''"
| "PlatformTypeToString IBM = ''IBM''"
| "PlatformTypeToString AZURE = ''AZURE''"
| "PlatformTypeToString _ = ''UNKNOWN''"

definition PlatformTypeFromString :: "string \<Rightarrow> PlatformType" where
  "PlatformTypeFromString str =
     (if str = ''LOCAL'' \<or> str = ''local'' then LOCAL
      else if str = ''AWS'' \<or> str = ''aws'' then AWS
      else if str = ''IBM'' \<or> str = ''ibm'' then IBM
      else if str = ''AZURE'' \<or> str = ''azure'' then AZURE
      else UNKNOWN)"

text \<open>
  Every name that the code prints for a configurable platform is read back as that platform.
  Google is the exception: no text is read as it.
\<close>

lemma PlatformTypeFromString_not_GOOGLE: "PlatformTypeFromString s \<noteq> GOOGLE"
  by (simp add: PlatformTypeFromString_def)

text \<open>
  A platform name printed by \<open>PlatformTypeToString\<close> is read back by
  \<open>PlatformTypeFromString\<close> as the same platform, exactly for the platforms other than Google;
  no text at all is read as Google, although the configuration files offer it.
\<close>

theorem PlatformType_roundtrip:
  "(PlatformTypeFromString (PlatformTypeToString p) = p \<longleftrightarrow> p \<noteq> GOOGLE)
   \<and> (\<forall>s. PlatformTypeFromString s \<noteq> GOOGLE)"
  by (cases p) (auto simp: PlatformTypeFromString_def)

section \<open>Message types\<close>

datatype MessageType = SIGNING_REQUEST | MAX_MESSAGE_TYPE

fun MessageType_value :: "MessageType \<Rightarrow> nat" where
  "MessageType_value SIGNING_REQUEST = 0"
| "MessageType_value MAX_MESSAGE_TYPE = 1"

datatype WalletMessageType = W_SIGNING_REQUEST | W_MAX_MESSAGE_TYPE

fun WalletMessageType_value :: "WalletMessageType \<Rightarrow> nat" where
  "WalletMessageType_value W_SIGNING_REQUEST = 1001"
| "WalletMessageType_value W_MAX_MESSAGE_TYPE = 1002"

text \<open>
  The argument is a 32-bit number cast to the enumeration, so any number may arrive; only the
  signing request has a name.
\<close>

definition WalletMessageTypeToString :: "u32 \<Rightarrow> string" where
  "WalletMessageTypeToString t =
     (if unat t = WalletMessageType_value W_SIGNING_REQUEST then ''SIGNING_REQUEST''
      else ''UNKNOWN'')"

end
