(* ===== verification/Byte_Codec.thy ===== *)
theory Byte_Codec
  imports Prelude
begin

text \<open>
  The in-memory image of integers on the little-endian hosts the code targets (what
  \<open>memcpy\<close> and \<open>reinterpret_cast<const uint8_t*>\<close> see), and the interface of a byte encoder
  with its decoder. A decoder returns the value and the bytes that follow it; it returns
  \<open>None\<close> where the code would read past the end of its buffer. The locales state what the
  message framing and the key-generation wire formats need from each field's encoder, and
  prove once what follows for sequences and for pairs of fields.
\<close>

section \<open>Little-endian integers\<close>

primrec le_bytes :: "nat \<Rightarrow> nat \<Rightarrow> bytes" where
  "le_bytes 0 n = []"
| "le_bytes (Suc k) n = word_of_nat n # le_bytes k (n div 256)"

primrec le_nat :: "bytes \<Rightarrow> nat" where
  "le_nat [] = 0"
| "le_nat (b # bs) = unat b + 256 * le_nat bs"

lemma length_le_bytes [simp, codec_simps]: "length (le_bytes k n) = k"
  by (induction k arbitrary: n) auto

lemma unat_u8_of_nat [simp]: "unat (word_of_nat n :: u8) = n mod 256"
  by (simp add: unsigned_of_nat take_bit_eq_mod)

lemma le_nat_le_bytes [codec_simps]: "le_nat (le_bytes k n) = n mod 256 ^ k"
proof (induction k arbitrary: n)
  case (Suc k)
  have "n mod 256 ^ Suc k = 256 * (n div 256 mod 256 ^ k) + n mod 256"
    using mod_mult2_eq [of n 256 "256 ^ k"] by simp
  with Suc show ?case by simp
qed simp

lemma le_bytes_le_nat [codec_simps]: "le_bytes (length bs) (le_nat bs) = bs"
proof (induction bs)
  case (Cons b bs)
  have "unat b < 256" using unsigned_less [of b] by simp
  then have "(unat b + 256 * le_nat bs) div 256 = le_nat bs" by simp
  moreover have "(word_of_nat (unat b + 256 * le_nat bs) :: u8) = b"
    using \<open>unat b < 256\<close> by (simp add: word_unat_eq_iff del: of_nat_add)
  ultimately show ?case using Cons by simp
qed simp

lemma le_nat_less: "le_nat bs < 256 ^ length bs"
  using le_nat_le_bytes [of "length bs" "le_nat bs"]
  by (metis le_bytes_le_nat mod_less_divisor zero_less_numeral zero_less_power)

lemma le_nat_inject: "length a = length b \<Longrightarrow> le_nat a = le_nat b \<longleftrightarrow> a = b"
  by (metis le_bytes_le_nat)

section \<open>Field encoders and their decoders\<close>

definition enc_u16 :: "u16 \<Rightarrow> bytes" where "enc_u16 x = le_bytes 2 (unat x)"
definition enc_u32 :: "u32 \<Rightarrow> bytes" where "enc_u32 x = le_bytes 4 (unat x)"
definition enc_u64 :: "u64 \<Rightarrow> bytes" where "enc_u64 x = le_bytes 8 (unat x)"

text \<open>\<open>std::copy(begin + offset, begin + offset + n, dst)\<close> of \<open>n\<close> bytes.\<close>

definition take_bytes :: "nat \<Rightarrow> bytes \<Rightarrow> (bytes \<times> bytes) option" where
  "take_bytes n bs = (if length bs < n then None else Some (take n bs, drop n bs))"

definition dec_word :: "nat \<Rightarrow> bytes \<Rightarrow> ('a::len word \<times> bytes) option" where
  "dec_word k bs = map_option (\<lambda>(a, r). (word_of_nat (le_nat a), r)) (take_bytes k bs)"

definition dec_u16 :: "bytes \<Rightarrow> (u16 \<times> bytes) option" where "dec_u16 = dec_word 2"
definition dec_u32 :: "bytes \<Rightarrow> (u32 \<times> bytes) option" where "dec_u32 = dec_word 4"
definition dec_u64 :: "bytes \<Rightarrow> (u64 \<times> bytes) option" where "dec_u64 = dec_word 8"

lemma take_bytes_append [simp, codec_simps]: "length a = n \<Longrightarrow> take_bytes n (a @ r) = Some (a, r)"
  by (simp add: take_bytes_def)

lemma take_bytes_None_iff [simp]: "take_bytes n bs = None \<longleftrightarrow> length bs < n"
  by (simp add: take_bytes_def)

lemma take_bytes_SomeD: "take_bytes n bs = Some (a, r) \<Longrightarrow> bs = a @ r \<and> length a = n"
  by (auto simp: take_bytes_def split: if_splits)

text \<open>A length-prefixed block: \<open>uint32_t size\<close>, then that many bytes.\<close>

definition enc_blob :: "bytes \<Rightarrow> bytes" where
  "enc_blob b = enc_u32 (word_of_nat (length b)) @ b"

definition dec_blob :: "bytes \<Rightarrow> (bytes \<times> bytes) option" where
  "dec_blob bs = (case dec_u32 bs of None \<Rightarrow> None | Some (n, r) \<Rightarrow> take_bytes (unat n) r)"

text \<open>Two fields one after the other.\<close>

definition enc_pair :: "('a \<Rightarrow> bytes) \<Rightarrow> ('b \<Rightarrow> bytes) \<Rightarrow> 'a \<times> 'b \<Rightarrow> bytes" where
  "enc_pair f g p = f (fst p) @ g (snd p)"

definition dec_pair ::
  "(bytes \<Rightarrow> ('a \<times> bytes) option) \<Rightarrow> (bytes \<Rightarrow> ('b \<times> bytes) option) \<Rightarrow>
     bytes \<Rightarrow> (('a \<times> 'b) \<times> bytes) option" where
  "dec_pair f g bs =
     (case f bs of
        None \<Rightarrow> None
      | Some (a, r) \<Rightarrow> (case g r of None \<Rightarrow> None | Some (b, r') \<Rightarrow> Some ((a, b), r')))"

text \<open>\<open>n\<close> fields of one kind, decoded by a counting loop.\<close>

fun dec_seq :: "(bytes \<Rightarrow> ('a \<times> bytes) option) \<Rightarrow> nat \<Rightarrow> bytes \<Rightarrow> ('a list \<times> bytes) option" where
  "dec_seq d 0 bs = Some ([], bs)"
| "dec_seq d (Suc n) bs =
     (case d bs of
        None \<Rightarrow> None
      | Some (x, r) \<Rightarrow>
          (case dec_seq d n r of None \<Rightarrow> None | Some (xs, r') \<Rightarrow> Some (x # xs, r')))"

section \<open>The interface of a codec\<close>

locale byte_codec =
  fixes enc :: "'a \<Rightarrow> bytes"
    and dec :: "bytes \<Rightarrow> ('a \<times> bytes) option"
    and wf :: "'a \<Rightarrow> bool"
  assumes dec_enc: "wf x \<Longrightarrow> dec (enc x @ r) = Some (x, r)"
begin

lemma dec_enc_all: "wf x \<Longrightarrow> dec (enc x) = Some (x, [])"
  using dec_enc [of x "[]"] by simp

lemma enc_prefix_free: "wf x \<Longrightarrow> wf y \<Longrightarrow> enc x @ r = enc y @ s \<longleftrightarrow> x = y \<and> r = s"
proof
  assume wf: "wf x" "wf y" and eq: "enc x @ r = enc y @ s"
  have "Some (x, r) = Some (y, s)"
    unfolding dec_enc [OF wf(1), of r, symmetric] dec_enc [OF wf(2), of s, symmetric]
    by (rule arg_cong [OF eq])
  then show "x = y \<and> r = s" by simp
qed auto

lemma dec_seq_enc:
  "(\<And>x. x \<in> set xs \<Longrightarrow> wf x) \<Longrightarrow>
     dec_seq dec (length xs) (concat (map enc xs) @ r) = Some (xs, r)"
  by (induction xs) (auto simp: dec_enc)

end

text \<open>A codec that reads back nothing but what it writes: a message cut short is refused.\<close>

locale exact_codec = byte_codec +
  assumes dec_wf: "dec bs = Some (x, r) \<Longrightarrow> wf x \<and> bs = enc x @ r"
begin

lemma dec_truncated:
  assumes "wf x" and cut: "enc x = bs @ cs" and "cs \<noteq> []"
  shows "dec bs = None"
proof (rule ccontr)
  assume "dec bs \<noteq> None"
  then obtain y r where y: "dec bs = Some (y, r)" by auto
  with dec_wf have wf: "wf y" and bs: "bs = enc y @ r" by blast+
  have "enc x @ [] = enc y @ (r @ cs)" using cut bs by simp
  with enc_prefix_free [OF assms(1) wf] have "r @ cs = []" by metis
  with assms(3) show False by simp
qed

lemma dec_seq_wf:
  "dec_seq dec n bs = Some (xs, r) \<Longrightarrow> (\<forall>x\<in>set xs. wf x) \<and> length xs = n \<and> bs = concat (map enc xs) @ r"
  by (induction n arbitrary: bs xs) (force split: option.splits dest: dec_wf)+

end

text \<open>A codec of one fixed width: it fails exactly on input that is too short.\<close>

locale fixed_codec = exact_codec +
  fixes width :: nat
  assumes enc_width: "length (enc x) = width"
    and dec_short: "dec bs = None \<longleftrightarrow> length bs < width"
begin

lemma dec_exact:
  assumes "length bs = width"
  shows "\<exists>x. dec bs = Some (x, []) \<and> enc x = bs"
proof -
  from assms have "dec bs \<noteq> None" by (simp add: dec_short)
  then obtain x r where x: "dec bs = Some (x, r)" by auto
  then have b: "bs = enc x @ r" using dec_wf by blast
  then have "r = []" using assms enc_width [of x] by simp
  with x b show ?thesis by simp
qed

end

lemma dec_word_enc:
  assumes "LENGTH('a) = 8 * k"
  shows "dec_word k (le_bytes k (unat x) @ r) = Some (x :: 'a::len word, r)"
proof -
  have "unat x < 256 ^ k"
    using unsigned_less [of x] assms by (simp add: power_mult)
  then show ?thesis by (simp add: dec_word_def le_nat_le_bytes)
qed

lemma dec_word_SomeD:
  assumes "LENGTH('a) = 8 * k" and "dec_word k bs = Some (x :: 'a::len word, r)"
  shows "bs = le_bytes k (unat x) @ r"
proof -
  from assms(2) obtain a where a: "take_bytes k bs = Some (a, r)" "x = word_of_nat (le_nat a)"
    by (auto simp: dec_word_def)
  then have ba: "bs = a @ r" "length a = k" by (auto dest: take_bytes_SomeD)
  have "le_nat a < 2 ^ LENGTH('a)"
    using le_nat_less [of a] ba assms(1) by (simp add: power_mult)
  then have "unat x = le_nat a"
    by (simp add: a unsigned_of_nat take_bit_nat_eq_self)
  with ba show ?thesis using le_bytes_le_nat [of a] by simp
qed

lemma fixed_codec_word:
  assumes "LENGTH('a) = 8 * k"
  shows "fixed_codec (\<lambda>x :: 'a::len word. le_bytes k (unat x)) (dec_word k) (\<lambda>_. True) k"
proof unfold_locales
  fix bs r :: bytes and x :: "'a word"
  show "dec_word k (le_bytes k (unat x) @ r) = Some (x, r)"
    by (rule dec_word_enc [OF assms])
  show "length (le_bytes k (unat x)) = k" by simp
  show "(dec_word k bs :: ('a word \<times> bytes) option) = None \<longleftrightarrow> length bs < k"
    by (simp add: dec_word_def)
  show "True \<and> bs = le_bytes k (unat x) @ r" if "dec_word k bs = Some (x, r)"
    using dec_word_SomeD [OF assms that] by simp
qed

interpretation u16: fixed_codec enc_u16 dec_u16 "\<lambda>_. True" 2
  unfolding enc_u16_def [abs_def] dec_u16_def by (rule fixed_codec_word) simp

interpretation u32: fixed_codec enc_u32 dec_u32 "\<lambda>_. True" 4
  unfolding enc_u32_def [abs_def] dec_u32_def by (rule fixed_codec_word) simp

interpretation u64: fixed_codec enc_u64 dec_u64 "\<lambda>_. True" 8
  unfolding enc_u64_def [abs_def] dec_u64_def by (rule fixed_codec_word) simp

lemmas word_codec_simps [codec_simps] =
  u16.dec_enc [OF TrueI] u32.dec_enc [OF TrueI] u64.dec_enc [OF TrueI]
  u16.enc_width u32.enc_width u64.enc_width u16.dec_short u32.dec_short u64.dec_short

text \<open>A block's length must fit its 32-bit prefix.\<close>

interpretation blob: exact_codec enc_blob dec_blob "\<lambda>b. length b < 2 ^ 32"
proof
  fix b r :: bytes
  assume "length b < 2 ^ 32"
  then have "unat (word_of_nat (length b) :: u32) = length b"
    by (simp add: unsigned_of_nat take_bit_nat_eq_self)
  then show "dec_blob (enc_blob b @ r) = Some (b, r)"
    by (simp add: dec_blob_def enc_blob_def word_codec_simps)
next
  fix bs b r :: bytes
  assume "dec_blob bs = Some (b, r)"
  then obtain n q where n: "dec_u32 bs = Some (n, q)" "take_bytes (unat n) q = Some (b, r)"
    by (auto simp: dec_blob_def split: option.splits)
  then have b: "bs = enc_u32 n @ b @ r" "length b = unat n"
    using u32.dec_wf take_bytes_SomeD by blast+
  then show "length b < 2 ^ 32 \<and> bs = enc_blob b @ r"
    using unsigned_less [of n] by (simp add: enc_blob_def)
qed

text \<open>A field of raw bytes of a fixed length.\<close>

interpretation raw: exact_codec "\<lambda>b. b" "take_bytes n" "\<lambda>b. length b = n" for n
  by unfold_locales (auto dest: take_bytes_SomeD)

text \<open>Codecs compose.\<close>

lemma byte_codec_pair:
  assumes "byte_codec e1 d1 w1" and "byte_codec e2 d2 w2"
  shows "byte_codec (enc_pair e1 e2) (dec_pair d1 d2) (\<lambda>p. w1 (fst p) \<and> w2 (snd p))"
  using assms by (auto simp: byte_codec_def enc_pair_def dec_pair_def)

lemma exact_codec_pair:
  assumes "exact_codec e1 d1 w1" and "exact_codec e2 d2 w2"
  shows "exact_codec (enc_pair e1 e2) (dec_pair d1 d2) (\<lambda>p. w1 (fst p) \<and> w2 (snd p))"
proof (intro exact_codec.intro exact_codec_axioms.intro byte_codec_pair)
  show "byte_codec e1 d1 w1" "byte_codec e2 d2 w2" using assms by (simp_all add: exact_codec_def)
  fix bs p r
  assume "dec_pair d1 d2 bs = Some (p, r)"
  then obtain q where "d1 bs = Some (fst p, q)" "d2 q = Some (snd p, r)"
    by (auto simp: dec_pair_def split: option.splits)
  then show "(w1 (fst p) \<and> w2 (snd p)) \<and> bs = enc_pair e1 e2 p @ r"
    using exact_codec.dec_wf [OF assms(1)] exact_codec.dec_wf [OF assms(2)] by (auto simp: enc_pair_def)
qed

end
