(* ===== verification/Framing.thy ===== *)
theory Framing
  imports Basic_Types Byte_Codec
begin

text \<open>
  The TCP framing of \<open>src/common/network/framing/tcp.hpp\<close>: the packed 32-byte
  \<open>MessageHeader\<close> with its in-memory image (the code sends and receives \<open>&header\<close> with
  \<open>sizeof(MessageHeader)\<close>), the XOR checksum, \<open>NetworkMessage\<close> with its constructors and the
  two validations. The lemmas show that a header image is read back, what the checksum
  detects and what it misses, and exactly which messages \<open>Validate\<close> accepts.
\<close>

section \<open>Constants and results\<close>

definition MAGIC_NUMBER :: u32 where "MAGIC_NUMBER = 0x4D504345"
definition PROTOCOL_VERSION :: u16 where "PROTOCOL_VERSION = 0x0001"
definition MAX_BODY_SIZE :: u32 where "MAX_BODY_SIZE = 1024 * 1024"

datatype ValidationResult =
    OK | INVALID_MAGIC | INVALID_VERSION | BODY_TOO_LARGE | BODY_SIZE_MISMATCH
  | INVALID_MESSAGE_TYPE | CHECKSUM_MISMATCH | CORRUPTED_DATA

fun ValidationResultToString :: "ValidationResult \<Rightarrow> string" where
  "ValidationResultToString OK = ''OK''"
| "ValidationResultToString INVALID_MAGIC = ''Invalid magic number''"
| "ValidationResultToString INVALID_VERSION = ''Invalid version''"
| "ValidationResultToString BODY_TOO_LARGE = ''Body too large''"
| "ValidationResultToString BODY_SIZE_MISMATCH = ''Body size mismatch''"
| "ValidationResultToString INVALID_MESSAGE_TYPE = ''Invalid message type''"
| "ValidationResultToString CHECKSUM_MISMATCH = ''Checksum mismatch''"
| "ValidationResultToString CORRUPTED_DATA = ''Corrupted data''"

section \<open>The header\<close>

record MessageHeader =
  mh_magic :: u32
  mh_version :: u16
  mh_message_type :: u16
  mh_body_length :: u32
  mh_checksum :: u32
  mh_timestamp :: u64
  mh_request_id :: u64

definition MessageHeader_new :: "u16 \<Rightarrow> u32 \<Rightarrow> MessageHeader" where
  "MessageHeader_new type len =
     \<lparr>mh_magic = MAGIC_NUMBER, mh_version = PROTOCOL_VERSION, mh_message_type = type,
      mh_body_length = len, mh_checksum = 0, mh_timestamp = 0, mh_request_id = 0\<rparr>"

definition MessageHeader_default :: MessageHeader where
  "MessageHeader_default = MessageHeader_new 0 0"

definition ValidateBasic :: "MessageHeader \<Rightarrow> ValidationResult" where
  "ValidateBasic h =
     (if mh_magic h \<noteq> MAGIC_NUMBER then INVALID_MAGIC
      else if mh_version h \<noteq> PROTOCOL_VERSION then INVALID_VERSION
      else if mh_body_length h > MAX_BODY_SIZE then BODY_TOO_LARGE
      else OK)"

definition Header_IsValid :: "MessageHeader \<Rightarrow> bool" where
  "Header_IsValid h \<longleftrightarrow> ValidateBasic h = OK"

text \<open>The packed image: seven fields, 4 + 2 + 2 + 4 + 4 + 8 + 8 = 32 bytes.\<close>

definition sizeof_MessageHeader :: nat where "sizeof_MessageHeader = 32"

definition header_image :: "MessageHeader \<Rightarrow> bytes" where
  "header_image h =
     enc_u32 (mh_magic h) @ enc_u16 (mh_version h) @ enc_u16 (mh_message_type h) @
     enc_u32 (mh_body_length h) @ enc_u32 (mh_checksum h) @
     enc_u64 (mh_timestamp h) @ enc_u64 (mh_request_id h)"

definition header_of_image :: "bytes \<Rightarrow> (MessageHeader \<times> bytes) option" where
  "header_of_image bs =
     map_option
       (\<lambda>((m, v, t, l, c, ts, rid), r).
          (\<lparr>mh_magic = m, mh_version = v, mh_message_type = t, mh_body_length = l,
            mh_checksum = c, mh_timestamp = ts, mh_request_id = rid\<rparr>, r))
       (dec_pair dec_u32 (dec_pair dec_u16 (dec_pair dec_u16 (dec_pair dec_u32
         (dec_pair dec_u32 (dec_pair dec_u64 dec_u64))))) bs)"

lemma header_of_image_image: "header_of_image (header_image h @ r) = Some (h, r)"
  by (simp add: header_of_image_def header_image_def dec_pair_def word_codec_simps)

lemma length_header_image [simp]: "length (header_image h) = sizeof_MessageHeader"
  by (simp add: header_image_def sizeof_MessageHeader_def word_codec_simps)

lemma header_of_image_SomeD:
  "header_of_image bs = Some (h, r) \<Longrightarrow> bs = header_image h @ r"
  by (auto simp: header_of_image_def header_image_def dec_pair_def split: option.splits
      dest!: u16.dec_wf u32.dec_wf u64.dec_wf)

lemma header_of_image_None_iff:
  "header_of_image bs = None \<longleftrightarrow> length bs < sizeof_MessageHeader"
proof
  assume "header_of_image bs = None"
  then show "length bs < sizeof_MessageHeader"
    by (auto simp: header_of_image_def dec_pair_def sizeof_MessageHeader_def word_codec_simps
        split: option.splits dest!: u16.dec_wf u32.dec_wf u64.dec_wf)
next
  assume l: "length bs < sizeof_MessageHeader"
  show "header_of_image bs = None"
  proof (rule ccontr)
    assume "header_of_image bs \<noteq> None"
    then obtain h r where "header_of_image bs = Some (h, r)" by auto
    then have "bs = header_image h @ r" by (rule header_of_image_SomeD)
    with l show False by simp
  qed
qed

interpretation hdr: fixed_codec header_image header_of_image "\<lambda>_. True" sizeof_MessageHeader
  by unfold_locales
    (simp_all add: header_of_image_image header_of_image_None_iff header_of_image_SomeD)

section \<open>The checksum\<close>

text \<open>
  One step of the loop copies the next \<open>min(4, data.size() - i)\<close> bytes over a zeroed 32-bit
  chunk and XORs it into the sum.
\<close>

definition chunk_word :: "bytes \<Rightarrow> u32" where
  "chunk_word bs = word_of_nat (le_nat bs)"

function ComputeChecksum_loop :: "bytes \<Rightarrow> nat \<Rightarrow> u32 \<Rightarrow> u32" where
  "ComputeChecksum_loop data i checksum =
     (if i < length data then
        (let remaining = min 4 (length data - i);
             chunk = chunk_word (take remaining (drop i data))
         in ComputeChecksum_loop data (i + 4) (checksum XOR chunk))
      else checksum)"
  by pat_completeness auto
termination
  by (relation "measure (\<lambda>(data, i, c). length data - i)") auto

declare ComputeChecksum_loop.simps [simp del]

definition ComputeChecksum :: "bytes \<Rightarrow> u32" where
  "ComputeChecksum data = ComputeChecksum_loop data 0 0"

text \<open>The reference: the XOR of the little-endian words of the data, the last one padded.\<close>

fun xor_words :: "bytes \<Rightarrow> u32" where
  "xor_words [] = 0"
| "xor_words (b # bs) = chunk_word (take 4 (b # bs)) XOR xor_words (drop 4 (b # bs))"

lemma xor_words_step: "xor_words bs = chunk_word (take 4 bs) XOR xor_words (drop 4 bs)"
  by (cases bs) (simp_all add: chunk_word_def)

lemma ComputeChecksum_loop_eq:
  "ComputeChecksum_loop data i c = c XOR xor_words (drop i data)"
proof (induction data i c rule: ComputeChecksum_loop.induct)
  case (1 data i c)
  show ?case
  proof (cases "i < length data")
    case True
    let ?w = "chunk_word (take (min 4 (length data - i)) (drop i data))"
    have w: "?w = chunk_word (take 4 (drop i data))"
      by (simp add: min_def)
    from True "1.IH" [OF True refl refl]
    have "ComputeChecksum_loop data i c = (c XOR ?w) XOR xor_words (drop (i + 4) data)"
      by (subst ComputeChecksum_loop.simps) (simp add: Let_def)
    also have "\<dots> = c XOR (chunk_word (take 4 (drop i data)) XOR xor_words (drop 4 (drop i data)))"
      unfolding w by (simp add: xor.assoc add.commute)
    also have "\<dots> = c XOR xor_words (drop i data)"
      by (simp only: xor_words_step [of "drop i data"])
    finally show ?thesis .
  next
    case False
    then show ?thesis by (subst ComputeChecksum_loop.simps) simp
  qed
qed

lemma ComputeChecksum_eq: "ComputeChecksum data = xor_words data"
  by (simp add: ComputeChecksum_def ComputeChecksum_loop_eq)

lemma chunk_word_inject:
  assumes "length a = length b" and "length a \<le> 4"
  shows "chunk_word a = chunk_word b \<longleftrightarrow> a = b"
proof -
  have bound: "le_nat x < 2 ^ 32" if "length x \<le> 4" for x
  proof -
    have "le_nat x < 256 ^ length x" by (rule le_nat_less)
    also have "\<dots> \<le> (256 :: nat) ^ 4" using that by (intro power_increasing) auto
    finally show ?thesis by simp
  qed
  have "chunk_word a = chunk_word b \<longleftrightarrow> le_nat a = le_nat b"
    using bound [of a] bound [of b] assms
    by (simp add: chunk_word_def word_unat_eq_iff unsigned_of_nat take_bit_nat_eq_self)
  with assms show ?thesis by (simp add: le_nat_inject)
qed

lemma xor_words_append:
  "4 dvd length a \<Longrightarrow> xor_words (a @ b) = xor_words a XOR xor_words b"
proof (induction a rule: xor_words.induct)
  case 1
  then show ?case by simp
next
  case (2 x xs)
  from "2.prems" have l: "4 \<le> length (x # xs)" by (auto dest: dvd_imp_le)
  have "4 dvd length (x # xs) - 4" using "2.prems" by (intro dvd_diff_nat) auto
  then have d: "4 dvd length (drop 4 (x # xs))" by (simp only: length_drop)
  have "xor_words ((x # xs) @ b) =
      chunk_word (take 4 ((x # xs) @ b)) XOR xor_words (drop 4 ((x # xs) @ b))"
    by (rule xor_words_step)
  also have "\<dots> = chunk_word (take 4 (x # xs)) XOR xor_words (drop 4 (x # xs) @ b)"
    using l by simp
  also have "\<dots> = chunk_word (take 4 (x # xs)) XOR (xor_words (drop 4 (x # xs)) XOR xor_words b)"
    using "2.IH" [OF d] by simp
  also have "\<dots> = xor_words (x # xs) XOR xor_words b"
    by (simp add: xor.assoc)
  finally show ?case .
qed

text \<open>Two bodies that differ at exactly one position have different checksums.\<close>

lemma xor_words_single_byte:
  assumes "i < length data" and "data ! i \<noteq> b"
  shows "xor_words (data[i := b]) \<noteq> xor_words data"
  using assms
proof (induction data arbitrary: i rule: xor_words.induct)
  case 1
  then show ?case by simp
next
  case (2 x xs)
  let ?d = "x # xs"
  show ?case
  proof (cases "i < 4")
    case True
    have ne: "take 4 (?d[i := b]) \<noteq> take 4 ?d"
    proof
      assume "take 4 (?d[i := b]) = take 4 ?d"
      then have "take 4 (?d[i := b]) ! i = take 4 ?d ! i" by (rule arg_cong)
      then have "?d[i := b] ! i = ?d ! i" using True by (simp only: nth_take)
      with "2.prems" show False by (simp only: nth_list_update_eq)
    qed
    have "length (take 4 (?d[i := b])) = length (take 4 ?d)"
      by (simp only: length_take length_list_update)
    moreover have "length (take 4 (?d[i := b])) \<le> 4"
      by (simp only: length_take min.cobounded2)
    ultimately have "chunk_word (take 4 (?d[i := b])) \<noteq> chunk_word (take 4 ?d)"
      using ne chunk_word_inject by blast
    moreover have "drop 4 (?d[i := b]) = drop 4 ?d"
      using True by (rule drop_update_cancel)
    ultimately show ?thesis
      unfolding xor_words_step [of "?d[i := b]"] xor_words_step [of ?d]
      by (simp only: xor_cancel_right not_False_eq_True)
  next
    case False
    then have tk: "take 4 (?d[i := b]) = take 4 ?d" by (intro take_update_cancel) simp
    have dr: "drop 4 (?d[i := b]) = (drop 4 ?d)[i - 4 := b]"
      using False by (intro drop_update_swap) simp
    have "xor_words ((drop 4 ?d)[i - 4 := b]) \<noteq> xor_words (drop 4 ?d)"
    proof (rule "2.IH")
      show "i - 4 < length (drop 4 ?d)"
        using False "2.prems"(1) by (simp only: length_drop)
      have "drop 4 ?d ! (i - 4) = ?d ! (4 + (i - 4))"
        using False "2.prems"(1) by (intro nth_drop) arith
      then show "drop 4 ?d ! (i - 4) \<noteq> b"
        using False "2.prems"(2) by (simp only: not_less le_add_diff_inverse not_False_eq_True)
    qed
    then show ?thesis
      unfolding xor_words_step [of "?d[i := b]"] xor_words_step [of ?d] tk dr
      by (simp only: xor_cancel_left not_False_eq_True)
  qed
qed

text \<open>
  C30. The checksum is the XOR of the little-endian 32-bit words of the data, it changes
  whenever exactly one byte of the data is changed, and it cannot see a swap of two aligned
  words.
\<close>

theorem ComputeChecksum_detection:
  "ComputeChecksum data = xor_words data
   \<and> (i < length data \<longrightarrow> data ! i \<noteq> b \<longrightarrow> ComputeChecksum (data[i := b]) \<noteq> ComputeChecksum data)
   \<and> (4 dvd length p \<longrightarrow> length u = 4 \<longrightarrow> length v = 4 \<longrightarrow>
        ComputeChecksum (p @ u @ v @ q) = ComputeChecksum (p @ v @ u @ q))"
proof (intro conjI impI)
  show "ComputeChecksum data = xor_words data" by (rule ComputeChecksum_eq)
  show "ComputeChecksum (data[i := b]) \<noteq> ComputeChecksum data"
    if "i < length data" "data ! i \<noteq> b"
    using that by (simp add: ComputeChecksum_eq xor_words_single_byte)
  show "ComputeChecksum (p @ u @ v @ q) = ComputeChecksum (p @ v @ u @ q)"
    if "4 dvd length p" "length u = 4" "length v = 4"
    using that by (simp add: ComputeChecksum_eq xor_words_append xor.left_commute)
qed

theorem ComputeChecksum_detection_witness:
  "ComputeChecksum ([1, 2, 3, 4, 5][4 := 9]) \<noteq> ComputeChecksum [1, 2, 3, 4, 5]
   \<and> ComputeChecksum ([] @ [1, 2, 3, 4] @ [5, 6, 7, 8] @ [9])
      = ComputeChecksum ([] @ [5, 6, 7, 8] @ [1, 2, 3, 4] @ [9])"
  using conjunct2 [OF ComputeChecksum_detection
      [of "[1, 2, 3, 4, 5]" 4 9 "[]" "[1, 2, 3, 4]" "[5, 6, 7, 8]" "[9]"]]
  by simp

section \<open>The message\<close>

record NetworkMessage =
  nm_header :: MessageHeader
  nm_body :: bytes

definition NetworkMessage_default :: NetworkMessage where
  "NetworkMessage_default = \<lparr>nm_header = MessageHeader_default, nm_body = []\<rparr>"

definition NetworkMessage_bytes :: "u16 \<Rightarrow> bytes \<Rightarrow> NetworkMessage" where
  "NetworkMessage_bytes type data =
     (let header = MessageHeader_new type (word_of_nat (length data))
      in \<lparr>nm_header = header\<lparr>mh_checksum := ComputeChecksum data\<rparr>, nm_body = data\<rparr>)"

definition NetworkMessage_string :: "u16 \<Rightarrow> string \<Rightarrow> NetworkMessage" where
  "NetworkMessage_string type data =
     (let header = MessageHeader_new type (word_of_nat (length data));
          body = bytes_of_string data
      in \<lparr>nm_header = header\<lparr>mh_checksum := ComputeChecksum body\<rparr>, nm_body = body\<rparr>)"

definition GetBodyAsString :: "NetworkMessage \<Rightarrow> string" where
  "GetBodyAsString m = string_of_bytes (nm_body m)"

definition Validate :: "NetworkMessage \<Rightarrow> ValidationResult" where
  "Validate m =
     (let result = ValidateBasic (nm_header m) in
      if result \<noteq> OK then result
      else if length (nm_body m) \<noteq> unat (mh_body_length (nm_header m)) then BODY_SIZE_MISMATCH
      else if ComputeChecksum (nm_body m) \<noteq> mh_checksum (nm_header m) then CHECKSUM_MISMATCH
      else OK)"

definition Message_IsValid :: "NetworkMessage \<Rightarrow> bool" where
  "Message_IsValid m \<longleftrightarrow> Validate m = OK"

definition GetTotalSize :: "NetworkMessage \<Rightarrow> nat" where
  "GetTotalSize m = sizeof_MessageHeader + length (nm_body m)"

text \<open>What a sender puts on the wire: the header image, then the body.\<close>

definition message_image :: "NetworkMessage \<Rightarrow> bytes" where
  "message_image m = header_image (nm_header m) @ nm_body m"

lemma length_message_image: "length (message_image m) = GetTotalSize m"
  by (simp add: message_image_def GetTotalSize_def)

lemma Validate_OK_iff:
  "Validate m = OK \<longleftrightarrow>
     mh_magic (nm_header m) = MAGIC_NUMBER \<and> mh_version (nm_header m) = PROTOCOL_VERSION
     \<and> mh_body_length (nm_header m) \<le> MAX_BODY_SIZE
     \<and> length (nm_body m) = unat (mh_body_length (nm_header m))
     \<and> mh_checksum (nm_header m) = ComputeChecksum (nm_body m)"
  by (auto simp: Validate_def ValidateBasic_def Let_def not_less)

lemma Validate_OK_body_bound: "Validate m = OK \<Longrightarrow> length (nm_body m) \<le> 1024 * 1024"
  by (auto simp: Validate_OK_iff MAX_BODY_SIZE_def word_le_nat_alt)

lemma Validate_OK_basic: "Validate m = OK \<Longrightarrow> ValidateBasic (nm_header m) = OK"
  by (auto simp: Validate_def Let_def split: if_splits)

lemma unat_u32_of_nat: "unat (word_of_nat n :: u32) = n mod 2 ^ 32"
  by (simp add: unsigned_of_nat take_bit_eq_mod)

lemma Validate_NetworkMessage_bytes:
  "Validate (NetworkMessage_bytes t data) = OK \<longleftrightarrow> length data \<le> 1024 * 1024"
proof -
  have "length data mod 2 ^ 32 \<le> 1024 * 1024 \<and> length data = length data mod 2 ^ 32
      \<longleftrightarrow> length data \<le> 1024 * (1024 :: nat)"
  proof (cases "length data < 2 ^ 32")
    case False
    then have "length data mod 2 ^ 32 \<noteq> length data"
      by (metis mod_less_divisor zero_less_numeral zero_less_power)
    with False show ?thesis by auto
  qed simp
  then show ?thesis
    by (auto simp: Validate_OK_iff NetworkMessage_bytes_def MessageHeader_new_def Let_def
        MAX_BODY_SIZE_def word_le_nat_alt unat_u32_of_nat)
qed

lemma NetworkMessage_string_bytes:
  "NetworkMessage_string t s = NetworkMessage_bytes t (bytes_of_string s)"
  by (simp add: NetworkMessage_string_def NetworkMessage_bytes_def Let_def)


text \<open>
  A message built by a \<open>NetworkMessage\<close> constructor is valid exactly when its payload
  has at most one megabyte, also where the 32-bit length field wraps around, and its body
  reads back as the text it was built from.
\<close>

theorem NetworkMessage_constructed_valid:
  "(Validate (NetworkMessage_string t s) = OK \<longleftrightarrow> length s \<le> 1024 * 1024)
   \<and> (Validate (NetworkMessage_bytes t data) = OK \<longleftrightarrow> length data \<le> 1024 * 1024)
   \<and> GetBodyAsString (NetworkMessage_string t s) = s"
  by (simp add: NetworkMessage_string_bytes Validate_NetworkMessage_bytes)
    (simp add: GetBodyAsString_def NetworkMessage_bytes_def Let_def)

text \<open>
  A valid message whose body has one corrupted byte is rejected for its checksum.
\<close>

lemma Validate_corrupted_byte:
  assumes "Validate m = OK" and "i < length (nm_body m)" and "nm_body m ! i \<noteq> b"
  shows "Validate (m\<lparr>nm_body := (nm_body m)[i := b]\<rparr>) = CHECKSUM_MISMATCH"
  using assms xor_words_single_byte [of i "nm_body m" b]
  by (auto simp: Validate_def Let_def ComputeChecksum_eq split: if_splits)

end
