(* ===== verification/Tls_Connection.thy ===== *)
theory Tls_Connection
  imports Prelude Basic_Types
begin

text \<open>
  The TLS connection of \<open>src/common/network/tls/src/TlsConnection.cpp\<close>: a state machine
  around one OpenSSL object, with the retry loops \<open>ReadExact\<close>, \<open>WriteExact\<close> and
  \<open>DoHandshake\<close>. OpenSSL and the kernel are parameters: the result of each \<open>SSL_read\<close>,
  \<open>SSL_write\<close>, \<open>SSL_do_handshake\<close>, \<open>SSL_shutdown\<close>, \<open>select\<close> and clock reading is taken from
  a list of results in the environment record, one list per call, and a call whose list is
  used up has not returned, which makes the caller \<open>None\<close>. Two documented facts about those
  calls are built in: \<open>SSL_read\<close> hands out the next bytes of the peer's stream, at least one
  and at most as many as asked for, and \<open>SSL_write\<close> takes a non-empty prefix of its argument.
\<close>

section \<open>States, errors and configuration\<close>

datatype TlsConnectionState =
  S_DISCONNECTED | S_CONNECTING | S_HANDSHAKING | S_CONNECTED | S_DISCONNECTING | S_ERROR

datatype TlsError =
    NONE | HANDSHAKE_FAILED | CERTIFICATE_VERIFY_FAILED | READ_FAILED | WRITE_FAILED
  | E_TIMEOUT | CONNECTION_CLOSED | WANT_READ | WANT_WRITE | SYSCALL_ERROR | SSL_ERROR

fun TlsConnectionStateToString :: "TlsConnectionState \<Rightarrow> string" where
  "TlsConnectionStateToString S_DISCONNECTED = ''DISCONNECTED''"
| "TlsConnectionStateToString S_CONNECTING = ''CONNECTING''"
| "TlsConnectionStateToString S_HANDSHAKING = ''HANDSHAKING''"
| "TlsConnectionStateToString S_CONNECTED = ''CONNECTED''"
| "TlsConnectionStateToString S_DISCONNECTING = ''DISCONNECTING''"
| "TlsConnectionStateToString S_ERROR = ''ERROR''"

fun TlsErrorToString :: "TlsError \<Rightarrow> string" where
  "TlsErrorToString NONE = ''NONE''"
| "TlsErrorToString HANDSHAKE_FAILED = ''HANDSHAKE_FAILED''"
| "TlsErrorToString CERTIFICATE_VERIFY_FAILED = ''CERTIFICATE_VERIFY_FAILED''"
| "TlsErrorToString READ_FAILED = ''READ_FAILED''"
| "TlsErrorToString WRITE_FAILED = ''WRITE_FAILED''"
| "TlsErrorToString E_TIMEOUT = ''TIMEOUT''"
| "TlsErrorToString CONNECTION_CLOSED = ''CONNECTION_CLOSED''"
| "TlsErrorToString WANT_READ = ''WANT_READ''"
| "TlsErrorToString WANT_WRITE = ''WANT_WRITE''"
| "TlsErrorToString SYSCALL_ERROR = ''SYSCALL_ERROR''"
| "TlsErrorToString SSL_ERROR = ''SSL_ERROR''"

record TlsConnectionConfig =
  cc_handshake_timeout_ms :: u32
  cc_read_timeout_ms :: u32
  cc_write_timeout_ms :: u32
  cc_enable_sni :: bool
  cc_sni_hostname :: string

definition TlsConnectionConfig_default :: TlsConnectionConfig where
  "TlsConnectionConfig_default =
     \<lparr>cc_handshake_timeout_ms = 10000, cc_read_timeout_ms = 30000,
      cc_write_timeout_ms = 30000, cc_enable_sni = True, cc_sni_hostname = ''''\<rparr>"

text \<open>The members of the class; the SSL pointer is a handle, \<open>None\<close> for \<open>nullptr\<close>.\<close>

record tls_conn =
  tc_ssl :: "nat option"
  tc_socket_fd :: int
  tc_state :: TlsConnectionState
  tc_config :: TlsConnectionConfig
  tc_last_error :: TlsError
  tc_last_error_msg :: string
  tc_is_client_mode :: bool
  tc_connection_start_time :: u64
  tc_handshake_complete_time :: u64

definition INVALID_SOCKET_VALUE :: int where "INVALID_SOCKET_VALUE = - 1"

definition TlsConnection_default :: tls_conn where
  "TlsConnection_default =
     \<lparr>tc_ssl = None, tc_socket_fd = INVALID_SOCKET_VALUE, tc_state = S_DISCONNECTED,
      tc_config = TlsConnectionConfig_default, tc_last_error = NONE, tc_last_error_msg = '''',
      tc_is_client_mode = True, tc_connection_start_time = 0, tc_handshake_complete_time = 0\<rparr>"

section \<open>The environment\<close>

text \<open>
  What \<open>SSL_get_error\<close> classifies, with the text of the library for the cases that report
  one; \<open>Progress k\<close> is a call that handled \<open>k + 1\<close> bytes, or all it was given if fewer.
\<close>

datatype ssl_error =
    SSL_ERROR_NONE | SSL_ERROR_WANT_READ | SSL_ERROR_WANT_WRITE | SSL_ERROR_ZERO_RETURN
  | SSL_ERROR_SYSCALL string | SSL_ERROR_SSL string | SSL_ERROR_OTHER nat string

datatype ssl_outcome = Progress nat | Failed ssl_error

record tls_env =
  te_in :: bytes
  te_out :: bytes
  te_reads :: "ssl_outcome list"
  te_writes :: "ssl_outcome list"
  te_handshakes :: "ssl_outcome list"
  te_selects :: "int list"
  te_clock :: "u64 list"
  te_freed :: "nat list"
  te_waits :: "(bool \<times> u32 \<times> u32) list"
  te_flags :: "u32 option"
  te_setfl_ok :: bool
  te_shutdown_result :: int
  te_shutdown_calls :: nat

definition SSL_read :: "nat \<Rightarrow> tls_env \<Rightarrow> ((ssl_error + bytes) \<times> tls_env) option" where
  "SSL_read n e =
     (case te_reads e of
        [] \<Rightarrow> None
      | Failed err # rs \<Rightarrow> Some (Inl err, e\<lparr>te_reads := rs\<rparr>)
      | Progress k # rs \<Rightarrow>
          (if te_in e = [] then None
           else let m = min (Suc k) n in
                Some (Inr (take m (te_in e)), e\<lparr>te_reads := rs, te_in := drop m (te_in e)\<rparr>)))"

definition SSL_write :: "bytes \<Rightarrow> tls_env \<Rightarrow> ((ssl_error + nat) \<times> tls_env) option" where
  "SSL_write bs e =
     (case te_writes e of
        [] \<Rightarrow> None
      | Failed err # rs \<Rightarrow> Some (Inl err, e\<lparr>te_writes := rs\<rparr>)
      | Progress k # rs \<Rightarrow>
          (let m = min (Suc k) (length bs) in
           Some (Inr m, e\<lparr>te_writes := rs, te_out := te_out e @ take m bs\<rparr>)))"

definition GetCurrentTimeMs :: "tls_env \<Rightarrow> (u64 \<times> tls_env) option" where
  "GetCurrentTimeMs e =
     (case te_clock e of [] \<Rightarrow> None | t # ts \<Rightarrow> Some (t, e\<lparr>te_clock := ts\<rparr>))"

section \<open>The private helpers\<close>

definition SetError :: "TlsError \<Rightarrow> string \<Rightarrow> tls_conn \<Rightarrow> tls_conn" where
  "SetError err msg c = c\<lparr>tc_last_error := err, tc_last_error_msg := msg\<rparr>"

definition ClearError :: "tls_conn \<Rightarrow> tls_conn" where
  "ClearError c = c\<lparr>tc_last_error := NONE, tc_last_error_msg := ''''\<rparr>"

text \<open>\<open>select\<close> on the one socket, with the timeout split into seconds and microseconds.\<close>

definition WaitForIO :: "bool \<Rightarrow> u32 \<Rightarrow> tls_env \<Rightarrow> (bool \<times> tls_env) option" where
  "WaitForIO wait_read timeout_ms e =
     (case te_selects e of
        [] \<Rightarrow> None
      | r # rs \<Rightarrow>
          Some (r > 0, e\<lparr>te_selects := rs,
            te_waits := te_waits e @ [(wait_read, timeout_ms div 1000, (timeout_ms mod 1000) * 1000)]\<rparr>))"

text \<open>
  \<open>fcntl\<close> with \<open>F_GETFL\<close> (which may fail), then \<open>F_SETFL\<close>.
\<close>

definition O_NONBLOCK :: u32 where "O_NONBLOCK = 0x800"

definition SetSocketNonBlocking :: "bool \<Rightarrow> tls_env \<Rightarrow> bool \<times> tls_env" where
  "SetSocketNonBlocking non_blocking e =
     (case te_flags e of
        None \<Rightarrow> (False, e)
      | Some flags \<Rightarrow>
          (if te_setfl_ok e then
             (True, e\<lparr>te_flags := Some (if non_blocking then flags OR O_NONBLOCK
                                      else flags AND NOT O_NONBLOCK)\<rparr>)
           else (False, e)))"

fun HandleSSLError :: "ssl_error \<Rightarrow> tls_conn \<Rightarrow> TlsError \<times> tls_conn" where
  "HandleSSLError SSL_ERROR_NONE c = (NONE, c)"
| "HandleSSLError SSL_ERROR_WANT_READ c = (WANT_READ, c)"
| "HandleSSLError SSL_ERROR_WANT_WRITE c = (WANT_WRITE, c)"
| "HandleSSLError SSL_ERROR_ZERO_RETURN c =
     (CONNECTION_CLOSED,
      (SetError CONNECTION_CLOSED ''Connection closed by peer'' c)\<lparr>tc_state := S_DISCONNECTED\<rparr>)"
| "HandleSSLError (SSL_ERROR_SYSCALL text) c =
     (SYSCALL_ERROR,
      (SetError SYSCALL_ERROR (''System call error: '' @ text) c)\<lparr>tc_state := S_ERROR\<rparr>)"
| "HandleSSLError (SSL_ERROR_SSL text) c =
     (SSL_ERROR,
      (SetError SSL_ERROR (''SSL protocol error: '' @ text) c)\<lparr>tc_state := S_ERROR\<rparr>)"
| "HandleSSLError (SSL_ERROR_OTHER n text) c =
     (SSL_ERROR,
      (SetError SSL_ERROR (''Unknown SSL error: '' @ to_string n) c)\<lparr>tc_state := S_ERROR\<rparr>)"

section \<open>Reading and writing\<close>

text \<open>
  The result of a read carries the bytes stored in the caller's buffer; a null buffer is not
  modelled, no caller passes one.
\<close>

definition Read ::
  "nat \<Rightarrow> tls_conn \<Rightarrow> tls_env \<Rightarrow> (TlsError \<times> bytes \<times> tls_conn \<times> tls_env) option" where
  "Read n c e =
     (if tc_state c \<noteq> S_CONNECTED then Some (SSL_ERROR, [], SetError SSL_ERROR ''Not connected'' c, e)
      else if n = 0 then Some (SSL_ERROR, [], SetError SSL_ERROR ''Invalid parameters'' c, e)
      else case SSL_read n e of
             None \<Rightarrow> None
           | Some (Inr bs, e') \<Rightarrow> Some (NONE, bs, ClearError c, e')
           | Some (Inl err, e') \<Rightarrow>
               (case HandleSSLError err (ClearError c) of (r, c') \<Rightarrow> Some (r, [], c', e')))"

definition Write ::
  "bytes \<Rightarrow> tls_conn \<Rightarrow> tls_env \<Rightarrow> (TlsError \<times> nat \<times> tls_conn \<times> tls_env) option" where
  "Write bs c e =
     (if tc_state c \<noteq> S_CONNECTED then Some (SSL_ERROR, 0, SetError SSL_ERROR ''Not connected'' c, e)
      else if bs = [] then Some (SSL_ERROR, 0, SetError SSL_ERROR ''Invalid parameters'' c, e)
      else case SSL_write bs e of
             None \<Rightarrow> None
           | Some (Inr n, e') \<Rightarrow> Some (NONE, n, ClearError c, e')
           | Some (Inl err, e') \<Rightarrow>
               (case HandleSSLError err (ClearError c) of (r, c') \<Rightarrow> Some (r, 0, c', e')))"

named_theorems tls_defs "definitions of the single TLS calls"

lemmas [tls_defs] = SSL_read_def SSL_write_def Read_def Write_def WaitForIO_def
  GetCurrentTimeMs_def SetError_def ClearError_def

lemma Read_cases:
  assumes "Read n c e = Some (r, bs, c', e')"
  obtains (refused) "r = SSL_ERROR" "bs = []" "tc_state c \<noteq> S_CONNECTED \<or> n = 0" "e' = e"
      "tc_state c' = tc_state c" "tc_ssl c' = tc_ssl c" "tc_config c' = tc_config c"
      "tc_socket_fd c' = tc_socket_fd c"
  | (progress) k rs m where "r = NONE" "te_reads e = Progress k # rs" "tc_state c = S_CONNECTED"
      "m = min (Suc k) n" "te_in e \<noteq> []" "bs = take m (te_in e)" "0 < n"
      "e' = e\<lparr>te_reads := rs, te_in := drop m (te_in e)\<rparr>" "c' = ClearError c"
  | (failed) err rs where "te_reads e = Failed err # rs" "tc_state c = S_CONNECTED" "0 < n"
      "(r, c') = HandleSSLError err (ClearError c)" "bs = []" "e' = e\<lparr>te_reads := rs\<rparr>"
  using assms
  by (auto simp: Read_def SSL_read_def SetError_def Let_def
      split: if_splits list.splits ssl_outcome.splits option.splits prod.splits)

lemma Write_cases:
  assumes "Write bs c e = Some (r, n, c', e')"
  obtains (refused) "r = SSL_ERROR" "n = 0" "tc_state c \<noteq> S_CONNECTED \<or> bs = []" "e' = e"
      "tc_state c' = tc_state c" "tc_ssl c' = tc_ssl c" "tc_config c' = tc_config c"
      "tc_socket_fd c' = tc_socket_fd c"
  | (progress) k rs where "r = NONE" "te_writes e = Progress k # rs" "tc_state c = S_CONNECTED"
      "n = min (Suc k) (length bs)" "bs \<noteq> []"
      "e' = e\<lparr>te_writes := rs, te_out := te_out e @ take n bs\<rparr>" "c' = ClearError c"
  | (failed) err rs where "te_writes e = Failed err # rs" "tc_state c = S_CONNECTED" "bs \<noteq> []"
      "(r, c') = HandleSSLError err (ClearError c)" "n = 0" "e' = e\<lparr>te_writes := rs\<rparr>"
  using assms
  by (auto simp: Write_def SSL_write_def SetError_def Let_def
      split: if_splits list.splits ssl_outcome.splits option.splits prod.splits)

lemma HandleSSLError_keeps:
  "HandleSSLError err c = (r, c') \<Longrightarrow>
     tc_ssl c' = tc_ssl c \<and> tc_config c' = tc_config c \<and> tc_socket_fd c' = tc_socket_fd c"
  by (cases err) (auto simp: SetError_def)

lemma HandleSSLError_retry:
  "HandleSSLError err c = (r, c') \<Longrightarrow> r = NONE \<or> r = WANT_READ \<or> r = WANT_WRITE \<longleftrightarrow> c' = c \<and>
     err \<in> {SSL_ERROR_NONE, SSL_ERROR_WANT_READ, SSL_ERROR_WANT_WRITE}"
  by (cases err) (auto simp: SetError_def)

lemma WaitForIO_Some_iff:
  "WaitForIO d t e = Some (b, e') \<longleftrightarrow>
     (\<exists>r rs. te_selects e = r # rs \<and> (b \<longleftrightarrow> r > 0) \<and>
        e' = e\<lparr>te_selects := rs, te_waits := te_waits e @ [(d, t div 1000, (t mod 1000) * 1000)]\<rparr>)"
  by (auto simp: WaitForIO_def split: list.splits)

text \<open>
  The loops. Every turn that goes round again has used one result of \<open>SSL_read\<close> or
  \<open>SSL_write\<close>, the measure of the recursion. The accumulator holds the bytes read so far, the
  counter \<open>total_written\<close> is what has been dropped from the front of the data.
\<close>

function ReadExact_loop ::
  "nat \<Rightarrow> bytes \<Rightarrow> tls_conn \<Rightarrow> tls_env \<Rightarrow> (TlsError \<times> bytes \<times> tls_conn \<times> tls_env) option" where
  "ReadExact_loop n acc c e =
     (if length acc < n then
        (case Read (n - length acc) c e of
           None \<Rightarrow> None
         | Some (error, bs, c', e') \<Rightarrow>
             (if error \<noteq> NONE \<and> error \<noteq> WANT_READ then Some (error, acc, c', e')
              else if error = WANT_READ then
                (case WaitForIO True (cc_read_timeout_ms (tc_config c')) e' of
                   None \<Rightarrow> None
                 | Some (ready, e'') \<Rightarrow>
                     (if \<not> ready then Some (E_TIMEOUT, acc, SetError E_TIMEOUT ''Read timeout'' c', e'')
                      else ReadExact_loop n acc c' e''))
              else ReadExact_loop n (acc @ bs) c' e'))
      else Some (NONE, acc, c, e))"
  by pat_completeness auto
termination
  by (relation "measure (\<lambda>(n, acc, c, e). length (te_reads e))")
    (auto elim!: Read_cases simp: WaitForIO_Some_iff)

definition ReadExact ::
  "nat \<Rightarrow> tls_conn \<Rightarrow> tls_env \<Rightarrow> (TlsError \<times> bytes \<times> tls_conn \<times> tls_env) option" where
  "ReadExact n c e = ReadExact_loop n [] c e"

function WriteExact :: "bytes \<Rightarrow> tls_conn \<Rightarrow> tls_env \<Rightarrow> (TlsError \<times> tls_conn \<times> tls_env) option" where
  "WriteExact bs c e =
     (if bs \<noteq> [] then
        (case Write bs c e of
           None \<Rightarrow> None
         | Some (error, n, c', e') \<Rightarrow>
             (if error \<noteq> NONE \<and> error \<noteq> WANT_WRITE then Some (error, c', e')
              else if error = WANT_WRITE then
                (case WaitForIO False (cc_write_timeout_ms (tc_config c')) e' of
                   None \<Rightarrow> None
                 | Some (ready, e'') \<Rightarrow>
                     (if \<not> ready then Some (E_TIMEOUT, SetError E_TIMEOUT ''Write timeout'' c', e'')
                      else WriteExact bs c' e''))
              else WriteExact (drop n bs) c' e'))
      else Some (NONE, c, e))"
  by pat_completeness auto
termination
  by (relation "measure (\<lambda>(bs, c, e). length (te_writes e))")
    (auto elim!: Write_cases simp: WaitForIO_Some_iff)

declare ReadExact_loop.simps [simp del] WriteExact.simps [simp del]

section \<open>The life of a connection\<close>

text \<open>
  \<open>created\<close> is what \<open>TlsContext::CreateSSL\<close> returned, \<open>fd_ok\<close> and \<open>sni_ok\<close> whether
  \<open>SSL_set_fd\<close> and \<open>SSL_set_tlsext_host_name\<close> returned 1; a failing SNI call only prints a
  warning. \<open>SSL_free\<close> of a handle is recorded in the environment.
\<close>

definition SSL_free :: "nat \<Rightarrow> tls_env \<Rightarrow> tls_env" where
  "SSL_free h e = e\<lparr>te_freed := te_freed e @ [h]\<rparr>"

definition Tls_Initialize ::
  "nat option \<Rightarrow> bool \<Rightarrow> bool \<Rightarrow> int \<Rightarrow> TlsConnectionConfig \<Rightarrow> bool \<Rightarrow> tls_conn \<Rightarrow> tls_env
     \<Rightarrow> (bool \<times> tls_conn \<times> tls_env) option" where
  "Tls_Initialize created fd_ok sni_ok sock_fd cfg is_client c e =
     (if tc_state c \<noteq> S_DISCONNECTED then Some (False, SetError SSL_ERROR ''Already connected'' c, e)
      else if sock_fd = INVALID_SOCKET_VALUE then
        Some (False, SetError SYSCALL_ERROR ''Invalid socket'' c, e)
      else case GetCurrentTimeMs e of
        None \<Rightarrow> None
      | Some (t, e1) \<Rightarrow>
          (let c1 = c\<lparr>tc_config := cfg, tc_socket_fd := sock_fd, tc_is_client_mode := is_client,
                     tc_connection_start_time := t, tc_ssl := created\<rparr>
           in case created of
                None \<Rightarrow> Some (False, SetError SSL_ERROR ''Failed to create SSL object'' c1, e1)
              | Some h \<Rightarrow>
                  (if \<not> fd_ok then
                     Some (False, (SetError SSL_ERROR ''Failed to set socket FD'' c1)\<lparr>tc_ssl := None\<rparr>,
                       SSL_free h e1)
                   else Some (True, ClearError (c1\<lparr>tc_state := S_CONNECTING\<rparr>), e1))))"

definition ConnectClient ::
  "nat option \<Rightarrow> bool \<Rightarrow> bool \<Rightarrow> int \<Rightarrow> TlsConnectionConfig \<Rightarrow> tls_conn \<Rightarrow> tls_env
     \<Rightarrow> (bool \<times> tls_conn \<times> tls_env) option" where
  "ConnectClient created fd_ok sni_ok sock_fd cfg c e =
     Tls_Initialize created fd_ok sni_ok sock_fd cfg True c e"

definition AcceptServer ::
  "nat option \<Rightarrow> bool \<Rightarrow> bool \<Rightarrow> int \<Rightarrow> TlsConnectionConfig \<Rightarrow> tls_conn \<Rightarrow> tls_env
     \<Rightarrow> (bool \<times> tls_conn \<times> tls_env) option" where
  "AcceptServer created fd_ok sni_ok sock_fd cfg c e =
     Tls_Initialize created fd_ok sni_ok sock_fd cfg False c e"

text \<open>
  The remaining handshake time: two readings of the clock, the comparison uses the first and
  the subtraction the second, and the 64-bit difference is stored in 32 bits.
\<close>

definition remaining_ms :: "u64 \<Rightarrow> tls_env \<Rightarrow> (u32 \<times> tls_env) option" where
  "remaining_ms deadline e =
     (case GetCurrentTimeMs e of
        None \<Rightarrow> None
      | Some (t1, e1) \<Rightarrow>
          (if deadline > t1 then
             (case GetCurrentTimeMs e1 of
                None \<Rightarrow> None
              | Some (t2, e2) \<Rightarrow> Some (ucast (deadline - t2), e2))
           else Some (0, e1)))"

text \<open>One wait of the handshake: \<open>remaining == 0 || !WaitForIO(...)\<close> is the timeout.\<close>

definition handshake_wait :: "bool \<Rightarrow> u64 \<Rightarrow> tls_env \<Rightarrow> (bool \<times> tls_env) option" where
  "handshake_wait wait_read deadline e =
     (case remaining_ms deadline e of
        None \<Rightarrow> None
      | Some (remaining, e1) \<Rightarrow>
          (if remaining = 0 then Some (False, e1) else WaitForIO wait_read remaining e1))"

definition handshake_fail :: "TlsError \<Rightarrow> string \<Rightarrow> tls_conn \<Rightarrow> tls_conn" where
  "handshake_fail err msg c = (SetError err msg c)\<lparr>tc_state := S_ERROR\<rparr>"

lemma remaining_ms_keeps: "remaining_ms d e = Some (r, e') \<Longrightarrow> \<exists>ts. e' = e\<lparr>te_clock := ts\<rparr>"
  by (auto simp: remaining_ms_def GetCurrentTimeMs_def split: list.splits option.splits if_splits)

lemma handshake_wait_handshakes:
  "handshake_wait w d e = Some (b, e') \<Longrightarrow>
     te_handshakes e' = te_handshakes e \<and> te_in e' = te_in e \<and> te_out e' = te_out e
     \<and> te_freed e' = te_freed e"
  by (auto simp: handshake_wait_def WaitForIO_Some_iff dest!: remaining_ms_keeps
      split: option.splits if_splits)

function DoHandshake_loop :: "(ssl_error \<Rightarrow> string) \<Rightarrow> u64 \<Rightarrow> tls_conn \<Rightarrow> tls_env \<Rightarrow> (bool \<times> tls_conn \<times> tls_env) option" where
  "DoHandshake_loop err_text deadline c e =
     (case te_handshakes e of
        [] \<Rightarrow> None
      | Progress _ # rs \<Rightarrow>
          (case GetCurrentTimeMs (e\<lparr>te_handshakes := rs\<rparr>) of
             None \<Rightarrow> None
           | Some (t, e') \<Rightarrow>
               Some (True, ClearError (c\<lparr>tc_state := S_CONNECTED, tc_handshake_complete_time := t\<rparr>), e'))
      | Failed err # rs \<Rightarrow>
          (if err = SSL_ERROR_WANT_READ \<or> err = SSL_ERROR_WANT_WRITE then
             (case handshake_wait (err = SSL_ERROR_WANT_READ) deadline (e\<lparr>te_handshakes := rs\<rparr>) of
                None \<Rightarrow> None
              | Some (ready, e') \<Rightarrow>
                  (if \<not> ready then Some (False, handshake_fail E_TIMEOUT ''Handshake timeout'' c, e')
                   else DoHandshake_loop err_text deadline c e'))
           else Some (False,
             handshake_fail HANDSHAKE_FAILED (''Handshake failed: '' @ err_text err) c,
             e\<lparr>te_handshakes := rs\<rparr>)))"
  by pat_completeness auto
termination
  by (relation "measure (\<lambda>(x, d, c, e). length (te_handshakes e))")
    (auto dest: handshake_wait_handshakes)

declare DoHandshake_loop.simps [simp del]

definition DoHandshake :: "(ssl_error \<Rightarrow> string) \<Rightarrow> tls_conn \<Rightarrow> tls_env \<Rightarrow> (bool \<times> tls_conn \<times> tls_env) option" where
  "DoHandshake err_text c e =
     (if tc_state c \<noteq> S_CONNECTING \<and> tc_state c \<noteq> S_HANDSHAKING then
        Some (False, SetError SSL_ERROR ''Invalid state for handshake'' c, e)
      else case GetCurrentTimeMs (snd (SetSocketNonBlocking True e)) of
        None \<Rightarrow> None
      | Some (start_time, e') \<Rightarrow>
          DoHandshake_loop err_text (start_time + ucast (cc_handshake_timeout_ms (tc_config c)))
            (c\<lparr>tc_state := S_HANDSHAKING\<rparr>) e')"

definition Tls_Close :: "tls_conn \<Rightarrow> tls_env \<Rightarrow> tls_conn \<times> tls_env" where
  "Tls_Close c e =
     (c\<lparr>tc_ssl := None, tc_socket_fd := INVALID_SOCKET_VALUE, tc_state := S_DISCONNECTED\<rparr>,
      case tc_ssl c of None \<Rightarrow> e | Some h \<Rightarrow> SSL_free h e)"

text \<open>\<open>SSL_shutdown\<close> is called once, and a second time when it returned 0.\<close>

definition Tls_Shutdown :: "tls_conn \<Rightarrow> tls_env \<Rightarrow> tls_conn \<times> tls_env" where
  "Tls_Shutdown c e =
     (if tc_state c \<noteq> S_CONNECTED then (c, e)
      else Tls_Close (c\<lparr>tc_state := S_DISCONNECTING\<rparr>)
        (if tc_ssl c = None then e
         else e\<lparr>te_shutdown_calls :=
                  te_shutdown_calls e + (if te_shutdown_result e = 0 then 2 else 1)\<rparr>))"

text \<open>The move constructor: the new object and what is left of the old one.\<close>

definition Tls_move :: "tls_conn \<Rightarrow> tls_conn \<times> tls_conn" where
  "Tls_move other =
     (other, other\<lparr>tc_ssl := None, tc_socket_fd := INVALID_SOCKET_VALUE, tc_state := S_DISCONNECTED,
        tc_config := (tc_config other)\<lparr>cc_sni_hostname := ''''\<rparr>, tc_last_error_msg := ''''\<rparr>)"

definition Tls_move_assign :: "tls_conn \<Rightarrow> tls_conn \<Rightarrow> tls_env \<Rightarrow> tls_conn \<times> tls_conn \<times> tls_env" where
  "Tls_move_assign self other e =
     (case Tls_Close self e of (_, e') \<Rightarrow> (case Tls_move other of (new, old) \<Rightarrow> (new, old, e')))"

definition GetState :: "tls_conn \<Rightarrow> TlsConnectionState" where "GetState c = tc_state c"
definition Tls_IsConnected :: "tls_conn \<Rightarrow> bool" where "Tls_IsConnected c \<longleftrightarrow> tc_state c = S_CONNECTED"

definition GetHandshakeDuration :: "tls_conn \<Rightarrow> u64" where
  "GetHandshakeDuration c =
     (if tc_handshake_complete_time c = 0 \<or> tc_connection_start_time c = 0 then 0
      else tc_handshake_complete_time c - tc_connection_start_time c)"

definition GetCipherInfo :: "string option \<Rightarrow> tls_conn \<Rightarrow> string" where
  "GetCipherInfo cipher c =
     (if tc_ssl c = None \<or> tc_state c \<noteq> S_CONNECTED then ''N/A''
      else case cipher of None \<Rightarrow> ''Unknown'' | Some s \<Rightarrow> s)"

definition GetProtocolVersion :: "string option \<Rightarrow> tls_conn \<Rightarrow> string" where
  "GetProtocolVersion version c =
     (if tc_ssl c = None \<or> tc_state c \<noteq> S_CONNECTED then ''N/A''
      else case version of None \<Rightarrow> ''Unknown'' | Some s \<Rightarrow> s)"

text \<open>The certificate is given by its subject and issuer lines.\<close>

definition GetPeerCertificateInfo :: "(string \<times> string) option \<Rightarrow> tls_conn \<Rightarrow> string" where
  "GetPeerCertificateInfo cert c =
     (if tc_ssl c = None \<or> tc_state c \<noteq> S_CONNECTED then ''Not connected''
      else case cert of
             None \<Rightarrow> ''No peer certificate''
           | Some (subject, issuer) \<Rightarrow> ''Subject: '' @ subject @ '', Issuer: '' @ issuer)"

definition VerifyHostname :: "bool \<Rightarrow> bool \<Rightarrow> string \<Rightarrow> bool" where
  "VerifyHostname has_ssl has_cert hostname = (has_ssl \<and> hostname \<noteq> [] \<and> has_cert)"

section \<open>Exact reads and writes\<close>

lemma ReadExact_loop_sound:
  "ReadExact_loop n acc c e = Some (r, bs, c', e') \<Longrightarrow> length acc \<le> n \<Longrightarrow>
     \<exists>ys. bs = acc @ ys \<and> ys @ te_in e' = te_in e \<and> length bs \<le> n \<and> (r = NONE \<longleftrightarrow> length bs = n)
       \<and> r \<noteq> WANT_READ \<and> (r = NONE \<longrightarrow> tc_state c' = tc_state c) \<and> te_out e' = te_out e"
proof (induction n acc c e rule: ReadExact_loop.induct)
  case (1 n acc c e)
  show ?case
  proof (cases "length acc < n")
    case False
    with "1.prems" show ?thesis by (simp add: ReadExact_loop.simps)
  next
    case True
    with "1.prems" obtain err ys c1 e1 where rd: "Read (n - length acc) c e = Some (err, ys, c1, e1)"
      by (auto simp: ReadExact_loop.simps [of n acc c e] split: option.splits)
    from True "1.prems" rd have run:
      "(if err \<noteq> NONE \<and> err \<noteq> WANT_READ then Some (err, acc, c1, e1)
        else if err = WANT_READ then
          (case WaitForIO True (cc_read_timeout_ms (tc_config c1)) e1 of
             None \<Rightarrow> None
           | Some (ready, e'') \<Rightarrow>
               (if \<not> ready then Some (E_TIMEOUT, acc, SetError E_TIMEOUT ''Read timeout'' c1, e'')
                else ReadExact_loop n acc c1 e''))
        else ReadExact_loop n (acc @ ys) c1 e1) = Some (r, bs, c', e')"
      by (simp add: ReadExact_loop.simps [of n acc c e])
    have io: "te_in e = ys @ te_in e1 \<and> te_out e1 = te_out e \<and> length ys \<le> n - length acc
        \<and> (err = NONE \<or> err = WANT_READ \<longrightarrow> tc_state c1 = tc_state c \<and> (err = WANT_READ \<longrightarrow> ys = []))"
      using rd
    proof (cases rule: Read_cases)
      case (failed er rs)
      then show ?thesis using HandleSSLError_retry [of er "ClearError c" err c1]
        by (auto simp: ClearError_def)
    qed (auto simp: ClearError_def)
    consider (hard) "err \<noteq> NONE" "err \<noteq> WANT_READ" | (want) "err = WANT_READ" | (more) "err = NONE"
      by blast
    then show ?thesis
    proof cases
      case hard
      with run have "r = err" "bs = acc" "c' = c1" "e' = e1" by auto
      moreover have "ys = []"
        using rd hard by (cases rule: Read_cases) auto
      ultimately show ?thesis using io hard True by auto
    next
      case want
      with run obtain ready e2 where w: "WaitForIO True (cc_read_timeout_ms (tc_config c1)) e1 = Some (ready, e2)"
        by (auto split: option.splits)
      then have e2: "te_in e2 = te_in e1" "te_out e2 = te_out e1" by (auto simp: WaitForIO_Some_iff)
      show ?thesis
      proof (cases ready)
        case False
        with run want w e2 io True show ?thesis by auto
      next
        case ready: True
        with run want w have rec: "ReadExact_loop n acc c1 e2 = Some (r, bs, c', e')" by simp
        from "1.IH"(1) [OF True rd refl refl refl _ want w refl _ rec "1.prems"(2)]
        have "\<exists>zs. bs = acc @ zs \<and> zs @ te_in e' = te_in e2 \<and> length bs \<le> n
            \<and> (r = NONE \<longleftrightarrow> length bs = n) \<and> r \<noteq> WANT_READ
            \<and> (r = NONE \<longrightarrow> tc_state c' = tc_state c1) \<and> te_out e' = te_out e2"
          using ready want by simp
        then show ?thesis using io e2 want by auto
      qed
    next
      case more
      with run have rec: "ReadExact_loop n (acc @ ys) c1 e1 = Some (r, bs, c', e')" by simp
      from io True have fits: "length (acc @ ys) \<le> n" by auto
      from "1.IH"(2) [OF True rd refl refl refl _ _ rec fits]
      have "\<exists>zs. bs = (acc @ ys) @ zs \<and> zs @ te_in e' = te_in e1 \<and> length bs \<le> n
          \<and> (r = NONE \<longleftrightarrow> length bs = n) \<and> r \<noteq> WANT_READ
          \<and> (r = NONE \<longrightarrow> tc_state c' = tc_state c1) \<and> te_out e' = te_out e1"
        using more by simp
      then show ?thesis using more io by auto
    qed
  qed
qed

lemma WriteExact_sound:
  "WriteExact bs c e = Some (r, c', e') \<Longrightarrow>
     \<exists>k. te_out e' = te_out e @ take k bs \<and> k \<le> length bs \<and> (r = NONE \<longleftrightarrow> k = length bs)
       \<and> r \<noteq> WANT_WRITE \<and> (r = NONE \<longrightarrow> tc_state c' = tc_state c) \<and> te_in e' = te_in e"
proof (induction bs c e rule: WriteExact.induct)
  case (1 bs c e)
  show ?case
  proof (cases "bs = []")
    case True
    with "1.prems" show ?thesis by (auto simp: WriteExact.simps)
  next
    case False
    with "1.prems" obtain err n c1 e1 where wr: "Write bs c e = Some (err, n, c1, e1)"
      by (auto simp: WriteExact.simps [of bs c e] split: option.splits)
    from False "1.prems" wr have run:
      "(if err \<noteq> NONE \<and> err \<noteq> WANT_WRITE then Some (err, c1, e1)
        else if err = WANT_WRITE then
          (case WaitForIO False (cc_write_timeout_ms (tc_config c1)) e1 of
             None \<Rightarrow> None
           | Some (ready, e'') \<Rightarrow>
               (if \<not> ready then Some (E_TIMEOUT, SetError E_TIMEOUT ''Write timeout'' c1, e'')
                else WriteExact bs c1 e''))
        else WriteExact (drop n bs) c1 e1) = Some (r, c', e')"
      by (simp add: WriteExact.simps [of bs c e])
    have io: "te_in e1 = te_in e \<and> te_out e1 = te_out e @ take n bs \<and> n \<le> length bs
        \<and> (err = NONE \<or> err = WANT_WRITE \<longrightarrow> tc_state c1 = tc_state c) \<and> (err \<noteq> NONE \<longrightarrow> n = 0)"
      using wr
    proof (cases rule: Write_cases)
      case (failed er rs)
      then show ?thesis using HandleSSLError_retry [of er "ClearError c" err c1]
        by (auto simp: ClearError_def)
    qed (auto simp: ClearError_def)
    consider (hard) "err \<noteq> NONE" "err \<noteq> WANT_WRITE" | (want) "err = WANT_WRITE" | (more) "err = NONE"
      by blast
    then show ?thesis
    proof cases
      case hard
      with run io False show ?thesis by auto
    next
      case want
      with run obtain ready e2
        where w: "WaitForIO False (cc_write_timeout_ms (tc_config c1)) e1 = Some (ready, e2)"
        by (auto split: option.splits)
      then have e2: "te_in e2 = te_in e1" "te_out e2 = te_out e1" by (auto simp: WaitForIO_Some_iff)
      show ?thesis
      proof (cases ready)
        case False
        with run want w e2 io \<open>bs \<noteq> []\<close> show ?thesis by auto
      next
        case ready: True
        with run want w have rec: "WriteExact bs c1 e2 = Some (r, c', e')" by simp
        from "1.IH"(1) [OF False wr refl refl refl _ want w refl _ rec]
        have "\<exists>k. te_out e' = te_out e2 @ take k bs \<and> k \<le> length bs \<and> (r = NONE \<longleftrightarrow> k = length bs)
            \<and> r \<noteq> WANT_WRITE \<and> (r = NONE \<longrightarrow> tc_state c' = tc_state c1) \<and> te_in e' = te_in e2"
          using ready want by simp
        then show ?thesis using io e2 want by auto
      qed
    next
      case more
      with run have rec: "WriteExact (drop n bs) c1 e1 = Some (r, c', e')" by simp
      from "1.IH"(2) [OF False wr refl refl refl _ _ rec]
      obtain k where k: "te_out e' = te_out e1 @ take k (drop n bs)" "k \<le> length bs - n"
          "r = NONE \<longleftrightarrow> k = length bs - n" "r \<noteq> WANT_WRITE"
          "r = NONE \<longrightarrow> tc_state c' = tc_state c1" "te_in e' = te_in e1"
        using more by auto
      then have "te_out e' = te_out e @ take (n + k) bs \<and> n + k \<le> length bs
          \<and> (r = NONE \<longleftrightarrow> n + k = length bs)"
        using io by (auto simp: take_add)
      with k io more show ?thesis by (intro exI [of _ "n + k"]) simp
    qed
  qed
qed

text \<open>
  Scripts of a healthy connection: every call makes progress or asks for a retry in its own
  direction, every wait it asks for ends with the socket ready.
\<close>

fun progress_count :: "ssl_outcome list \<Rightarrow> nat" where
  "progress_count [] = 0"
| "progress_count (Progress k # rs) = Suc (progress_count rs)"
| "progress_count (Failed err # rs) = progress_count rs"

definition healthy :: "ssl_error \<Rightarrow> ssl_outcome list \<Rightarrow> int list \<Rightarrow> bool" where
  "healthy retry rs ss \<longleftrightarrow>
     list_all (\<lambda>r. case r of Progress _ \<Rightarrow> True | Failed err \<Rightarrow> err = retry) rs
     \<and> length rs - progress_count rs \<le> length ss \<and> list_all (\<lambda>s. s > 0) ss"

lemma progress_count_le: "progress_count rs \<le> length rs"
  by (induction rs rule: progress_count.induct) auto

lemma healthy_Progress [simp]: "healthy retry (Progress k # rs) ss \<longleftrightarrow> healthy retry rs ss"
  by (simp add: healthy_def)

lemma healthy_Failed:
  "healthy retry (Failed err # rs) ss \<longleftrightarrow>
     err = retry \<and> (\<exists>s ss'. ss = s # ss' \<and> s > 0 \<and> healthy retry rs ss')"
  using progress_count_le [of rs]
  by (cases ss) (auto simp: healthy_def Suc_diff_le)

lemma ReadExact_loop_complete:
  "\<lbrakk>tc_state c = S_CONNECTED; healthy SSL_ERROR_WANT_READ (te_reads e) (te_selects e);
    length acc \<le> n; n - length acc \<le> progress_count (te_reads e);
    n - length acc \<le> length (te_in e)\<rbrakk> \<Longrightarrow>
     \<exists>c' e'. ReadExact_loop n acc c e = Some (NONE, acc @ take (n - length acc) (te_in e), c', e')
       \<and> te_in e' = drop (n - length acc) (te_in e) \<and> tc_state c' = S_CONNECTED
       \<and> healthy SSL_ERROR_WANT_READ (te_reads e') (te_selects e')
       \<and> progress_count (te_reads e) \<le> progress_count (te_reads e') + (n - length acc)"
proof (induction "te_reads e" arbitrary: acc c e)
  case Nil
  then show ?case by (simp add: ReadExact_loop.simps)
next
  case (Cons x rs)
  show ?case
  proof (cases "length acc < n")
    case False
    with Cons.prems show ?thesis by (simp add: ReadExact_loop.simps)
  next
    case True
    show ?thesis
    proof (cases x)
      case (Progress k)
      define m where "m = min (Suc k) (n - length acc)"
      define e1 where "e1 = e\<lparr>te_reads := rs, te_in := drop m (te_in e)\<rparr>"
      have ne: "te_in e \<noteq> []" using Cons.prems(5) True by auto
      have step: "ReadExact_loop n acc c e = ReadExact_loop n (acc @ take m (te_in e)) (ClearError c) e1"
        using True Cons.hyps(2) [symmetric] Progress ne Cons.prems(1)
        by (subst ReadExact_loop.simps) (simp add: Read_def SSL_read_def Let_def e1_def m_def)
      have m: "1 \<le> m" "m \<le> n - length acc" "m \<le> length (te_in e)"
        using True Cons.prems(5) by (auto simp: m_def)
      have arith: "length acc + m \<le> n" "n - (length acc + m) \<le> progress_count rs"
          "n - (length acc + m) \<le> length (te_in e) - m"
        using m True Cons.prems(4,5) Cons.hyps(2) [symmetric] Progress by auto
      have "rs = te_reads e1" by (simp add: e1_def)
      from Cons.hyps(1) [OF this, of "ClearError c" "acc @ take m (te_in e)"]
      obtain c' e' where "ReadExact_loop n (acc @ take m (te_in e)) (ClearError c) e1
          = Some (NONE, acc @ take m (te_in e) @ take (n - (length acc + m)) (drop m (te_in e)), c', e')"
        "te_in e' = drop (n - (length acc + m)) (drop m (te_in e))" "tc_state c' = S_CONNECTED"
        "healthy SSL_ERROR_WANT_READ (te_reads e') (te_selects e')"
        "progress_count rs \<le> progress_count (te_reads e') + (n - (length acc + m))"
        using Cons.prems m arith Cons.hyps(2) [symmetric] Progress
        by (auto simp: e1_def ClearError_def)
      moreover from this(5) have "progress_count (te_reads e) \<le> progress_count (te_reads e') + (n - length acc)"
        using Cons.hyps(2) [symmetric] Progress m by simp
      moreover have "take m (te_in e) @ take (n - (length acc + m)) (drop m (te_in e))
          = take (n - length acc) (te_in e)"
      proof -
        have "n - length acc = m + (n - (length acc + m))" using m(2) by simp
        then show ?thesis by (simp only: take_add)
      qed
      moreover have "drop (n - (length acc + m)) (drop m (te_in e)) = drop (n - length acc) (te_in e)"
      proof -
        have "n - (length acc + m) + m = n - length acc" using m(2) by simp
        then show ?thesis by (simp only: drop_drop)
      qed
      ultimately show ?thesis using step by auto
    next
      case (Failed err)
      with Cons.prems(2) Cons.hyps(2) [symmetric] obtain s ss where
        err: "err = SSL_ERROR_WANT_READ" and ss: "te_selects e = s # ss" "s > 0"
        and h: "healthy SSL_ERROR_WANT_READ rs ss"
        by (auto simp: healthy_Failed)
      define e1 where "e1 = snd (the (WaitForIO True (cc_read_timeout_ms (tc_config c)) (e\<lparr>te_reads := rs\<rparr>)))"
      have e1: "te_reads e1 = rs" "te_selects e1 = ss" "te_in e1 = te_in e"
        by (simp_all add: e1_def WaitForIO_def ss)
      have step: "ReadExact_loop n acc c e = ReadExact_loop n acc (ClearError c) e1"
        using True Cons.hyps(2) [symmetric] Failed err ss Cons.prems(1)
        by (subst ReadExact_loop.simps)
          (simp add: Read_def SSL_read_def WaitForIO_def e1_def ClearError_def)
      show ?thesis
        using Cons.hyps(1) [of e1 "ClearError c" acc] Cons.prems Cons.hyps(2) [symmetric] Failed e1 h step
        by (simp add: ClearError_def)
    qed
  qed
qed

lemma WriteExact_complete:
  "\<lbrakk>tc_state c = S_CONNECTED; healthy SSL_ERROR_WANT_WRITE (te_writes e) (te_selects e);
    length bs \<le> progress_count (te_writes e)\<rbrakk> \<Longrightarrow>
     \<exists>c' e'. WriteExact bs c e = Some (NONE, c', e') \<and> te_out e' = te_out e @ bs
       \<and> tc_state c' = S_CONNECTED \<and> te_in e' = te_in e
       \<and> healthy SSL_ERROR_WANT_WRITE (te_writes e') (te_selects e')
       \<and> progress_count (te_writes e) \<le> progress_count (te_writes e') + length bs"
proof (induction "te_writes e" arbitrary: bs c e)
  case Nil
  then show ?case by (simp add: WriteExact.simps)
next
  case (Cons x rs)
  show ?case
  proof (cases "bs = []")
    case True
    with Cons.prems show ?thesis by (simp add: WriteExact.simps)
  next
    case False
    show ?thesis
    proof (cases x)
      case (Progress k)
      define m where "m = min (Suc k) (length bs)"
      define e1 where "e1 = e\<lparr>te_writes := rs, te_out := te_out e @ take m bs\<rparr>"
      have step: "WriteExact bs c e = WriteExact (drop m bs) (ClearError c) e1"
        using False Cons.hyps(2) [symmetric] Progress Cons.prems(1)
        by (subst WriteExact.simps) (simp add: Write_def SSL_write_def Let_def e1_def m_def)
      have m: "1 \<le> m" "m \<le> length bs" using False by (auto simp: m_def Suc_le_eq)
      have arith: "length (drop m bs) \<le> progress_count rs"
        using m False Cons.prems(3) Cons.hyps(2) [symmetric] Progress by auto
      have "rs = te_writes e1" by (simp add: e1_def)
      from Cons.hyps(1) [OF this, of "ClearError c" "drop m bs"]
      obtain c' e' where "WriteExact (drop m bs) (ClearError c) e1 = Some (NONE, c', e')"
        "te_out e' = te_out e1 @ drop m bs" "tc_state c' = S_CONNECTED" "te_in e' = te_in e1"
        "healthy SSL_ERROR_WANT_WRITE (te_writes e') (te_selects e')"
        "progress_count rs \<le> progress_count (te_writes e') + length (drop m bs)"
        using Cons.prems arith Cons.hyps(2) [symmetric] Progress
        by (auto simp: e1_def ClearError_def)
      moreover from this(6) have "progress_count (te_writes e) \<le> progress_count (te_writes e') + length bs"
        using Cons.hyps(2) [symmetric] Progress m by simp
      ultimately show ?thesis using step by (simp add: e1_def)
    next
      case (Failed err)
      with Cons.prems(2) Cons.hyps(2) [symmetric] obtain s ss where
        err: "err = SSL_ERROR_WANT_WRITE" and ss: "te_selects e = s # ss" "s > 0"
        and h: "healthy SSL_ERROR_WANT_WRITE rs ss"
        by (auto simp: healthy_Failed)
      define e1 where "e1 = snd (the (WaitForIO False (cc_write_timeout_ms (tc_config c)) (e\<lparr>te_writes := rs\<rparr>)))"
      have e1: "te_writes e1 = rs" "te_selects e1 = ss" "te_in e1 = te_in e" "te_out e1 = te_out e"
        by (simp_all add: e1_def WaitForIO_def ss)
      have step: "WriteExact bs c e = WriteExact bs (ClearError c) e1"
        using False Cons.hyps(2) [symmetric] Failed err ss Cons.prems(1)
        by (subst WriteExact.simps)
          (simp add: Write_def SSL_write_def WaitForIO_def e1_def ClearError_def)
      show ?thesis
        using Cons.hyps(1) [of e1 "ClearError c" bs] Cons.prems Cons.hyps(2) [symmetric] Failed e1 h step
        by (simp add: ClearError_def)
    qed
  qed
qed

text \<open>
  C25. \<open>ReadExact\<close> never loses, reorders or overruns data: the bytes it stores are the next
  bytes of the peer's stream, never more than the buffer holds, and exactly as many when and
  only when it reports success; a retry request is never passed on to the caller. And on a
  healthy connection it always returns, with the same bytes however the stream is cut into
  pieces and wherever the retries fall.
\<close>

theorem ReadExact_exact:
  "(ReadExact n c e = Some (r, bs, c', e') \<longrightarrow>
      bs @ te_in e' = te_in e \<and> length bs \<le> n \<and> (r = NONE \<longleftrightarrow> length bs = n) \<and> r \<noteq> WANT_READ)
   \<and> (tc_state c = S_CONNECTED \<and> healthy SSL_ERROR_WANT_READ (te_reads e) (te_selects e)
        \<and> n \<le> progress_count (te_reads e) \<and> n \<le> length (te_in e) \<longrightarrow>
      (\<exists>c' e'. ReadExact n c e = Some (NONE, take n (te_in e), c', e') \<and> te_in e' = drop n (te_in e)))"
  using ReadExact_loop_sound [of n "[]" c e r bs c' e'] ReadExact_loop_complete [of c e "[]" n]
  by (auto simp: ReadExact_def)

text \<open>A connected object on a socket, and an idle environment, for the concrete inputs below.\<close>

definition connected_conn :: tls_conn where
  "connected_conn = TlsConnection_default\<lparr>tc_ssl := Some 1, tc_socket_fd := 5, tc_state := S_CONNECTED\<rparr>"

definition idle_env :: tls_env where
  "idle_env = \<lparr>te_in = [], te_out = [], te_reads = [], te_writes = [], te_handshakes = [],
     te_selects = [], te_clock = [], te_freed = [], te_waits = [], te_flags = Some 0,
     te_setfl_ok = True, te_shutdown_result = 1, te_shutdown_calls = 0\<rparr>"

theorem ReadExact_exact_witness:
  "\<exists>c' e'. ReadExact 3 connected_conn
     (idle_env\<lparr>te_in := [1, 2, 3, 4],
        te_reads := [Failed SSL_ERROR_WANT_READ, Progress 0, Failed SSL_ERROR_WANT_READ, Progress 7, Progress 0],
        te_selects := [1, 1]\<rparr>) = Some (NONE, [1, 2, 3], c', e')"
  using ReadExact_exact [of 3 connected_conn
     "idle_env\<lparr>te_in := [1, 2, 3, 4],
        te_reads := [Failed SSL_ERROR_WANT_READ, Progress 0, Failed SSL_ERROR_WANT_READ, Progress 7, Progress 0],
        te_selects := [1, 1]\<rparr>"]
  by (simp add: connected_conn_def idle_env_def healthy_def) blast

text \<open>
  \<open>WriteExact\<close> puts a prefix of its data on the wire, the whole of it when and only
  when it reports success, and on a healthy connection it always returns with the whole of it
  written, whatever the sizes of the partial writes.
\<close>

theorem WriteExact_exact:
  "(WriteExact bs c e = Some (r, c', e') \<longrightarrow>
      (\<exists>k\<le>length bs. te_out e' = te_out e @ take k bs \<and> (r = NONE \<longleftrightarrow> k = length bs)))
   \<and> (tc_state c = S_CONNECTED \<and> healthy SSL_ERROR_WANT_WRITE (te_writes e) (te_selects e)
        \<and> length bs \<le> progress_count (te_writes e) \<longrightarrow>
      (\<exists>c' e'. WriteExact bs c e = Some (NONE, c', e') \<and> te_out e' = te_out e @ bs))"
  using WriteExact_sound [of bs c e r c' e'] WriteExact_complete [of c e bs] by auto

theorem WriteExact_exact_witness:
  "\<exists>c' e'. WriteExact [7, 8, 9] connected_conn
     (idle_env\<lparr>te_writes := [Progress 0, Failed SSL_ERROR_WANT_WRITE, Progress 0, Progress 5],
        te_selects := [1]\<rparr>) = Some (NONE, c', e') \<and> te_out e' = [7, 8, 9]"
  using WriteExact_exact [of "[7, 8, 9]" connected_conn
     "idle_env\<lparr>te_writes := [Progress 0, Failed SSL_ERROR_WANT_WRITE, Progress 0, Progress 5],
        te_selects := [1]\<rparr>"]
  by (simp add: connected_conn_def idle_env_def healthy_def)

section \<open>The state machine\<close>

lemma DoHandshake_loop_result:
  "DoHandshake_loop err_text d c e = Some (ok, c', e') \<Longrightarrow>
     tc_state c' = (if ok then S_CONNECTED else S_ERROR) \<and> (tc_last_error c' = NONE \<longleftrightarrow> ok)
     \<and> tc_ssl c' = tc_ssl c \<and> tc_socket_fd c' = tc_socket_fd c \<and> te_freed e' = te_freed e"
proof (induction err_text d c e rule: DoHandshake_loop.induct)
  case (1 err_text d c e)
  show ?case
  proof (cases "te_handshakes e")
    case Nil
    with "1.prems" show ?thesis by (simp add: DoHandshake_loop.simps)
  next
    case (Cons x rs)
    show ?thesis
    proof (cases x)
      case (Progress k)
      with "1.prems" Cons show ?thesis
        by (subst (asm) DoHandshake_loop.simps)
          (auto simp: GetCurrentTimeMs_def ClearError_def split: list.splits)
    next
      case (Failed err)
      show ?thesis
      proof (cases "err = SSL_ERROR_WANT_READ \<or> err = SSL_ERROR_WANT_WRITE")
        case False
        with "1.prems" Cons Failed show ?thesis
          by (subst (asm) DoHandshake_loop.simps) (auto simp: handshake_fail_def SetError_def)
      next
        case True
        with "1.prems" Cons Failed obtain ready e1 where
          w: "handshake_wait (err = SSL_ERROR_WANT_READ) d (e\<lparr>te_handshakes := rs\<rparr>) = Some (ready, e1)"
          by (subst (asm) DoHandshake_loop.simps) (auto split: option.splits)
        from handshake_wait_handshakes [OF w] have fr: "te_freed e1 = te_freed e" by simp
        show ?thesis
        proof (cases ready)
          case False
          with "1.prems" Cons Failed True w fr show ?thesis
            by (subst (asm) DoHandshake_loop.simps) (auto simp: handshake_fail_def SetError_def)
        next
          case ready: True
          with "1.prems" Cons Failed True w have rec: "DoHandshake_loop err_text d c e1 = Some (ok, c', e')"
            by (subst (asm) DoHandshake_loop.simps) simp
          from "1.IH" [OF Cons Failed True w refl _ rec] ready fr show ?thesis by simp
        qed
      qed
    qed
  qed
qed

text \<open>One call of the public interface, with any configuration, data and environment.\<close>

inductive tls_step :: "tls_conn \<Rightarrow> tls_conn \<Rightarrow> bool" where
  st_init: "Tls_Initialize created fd_ok sni_ok sock cfg cl c e = Some (ok, c', e') \<Longrightarrow> tls_step c c'"
| st_handshake: "DoHandshake err_text c e = Some (ok, c', e') \<Longrightarrow> tls_step c c'"
| st_read: "Read n c e = Some (r, bs, c', e') \<Longrightarrow> tls_step c c'"
| st_write: "Write bs c e = Some (r, n, c', e') \<Longrightarrow> tls_step c c'"
| st_shutdown: "Tls_Shutdown c e = (c', e') \<Longrightarrow> tls_step c c'"
| st_close: "Tls_Close c e = (c', e') \<Longrightarrow> tls_step c c'"

inductive_cases tls_stepE: "tls_step c c'"

text \<open>The transitions that the state field may make.\<close>

fun tls_edge :: "TlsConnectionState \<Rightarrow> TlsConnectionState \<Rightarrow> bool" where
  "tls_edge s S_DISCONNECTED = True"
| "tls_edge s S_CONNECTING = (s = S_DISCONNECTED \<or> s = S_CONNECTING)"
| "tls_edge s S_HANDSHAKING = (s = S_HANDSHAKING)"
| "tls_edge s S_CONNECTED = (s \<in> {S_CONNECTING, S_HANDSHAKING, S_CONNECTED})"
| "tls_edge s S_DISCONNECTING = (s = S_DISCONNECTING)"
| "tls_edge s S_ERROR = (s \<in> {S_CONNECTING, S_HANDSHAKING, S_CONNECTED, S_ERROR})"

definition tls_inv :: "tls_conn \<Rightarrow> bool" where
  "tls_inv c \<longleftrightarrow> (tc_state c \<noteq> S_DISCONNECTED \<longrightarrow> tc_ssl c \<noteq> None \<and> tc_socket_fd c \<noteq> INVALID_SOCKET_VALUE)
     \<and> tc_state c \<noteq> S_DISCONNECTING"

lemma tls_edge_refl [simp]: "tls_edge s s"
  by (cases s) auto

definition tls_keeps :: "tls_conn \<Rightarrow> tls_conn \<Rightarrow> bool" where
  "tls_keeps c c' \<longleftrightarrow> (tls_inv c \<longrightarrow> tls_inv c') \<and> tls_edge (tc_state c) (tc_state c')"

lemma HandleSSLError_step:
  "HandleSSLError err (ClearError c) = (r, c') \<Longrightarrow> tc_state c = S_CONNECTED \<Longrightarrow> tls_keeps c c'"
  by (cases err) (auto simp: tls_keeps_def tls_inv_def SetError_def ClearError_def)

lemma tls_step_Initialize:
  "Tls_Initialize created fd_ok sni_ok sock cfg cl c e = Some (ok, c', e') \<Longrightarrow> tls_keeps c c'"
  by (auto simp: Tls_Initialize_def tls_keeps_def tls_inv_def SetError_def ClearError_def Let_def
      split: if_splits option.splits)

lemma tls_step_DoHandshake: "DoHandshake err_text c e = Some (ok, c', e') \<Longrightarrow> tls_keeps c c'"
  by (auto simp: DoHandshake_def tls_keeps_def tls_inv_def SetError_def dest!: DoHandshake_loop_result
      split: if_splits option.splits)

lemma tls_step_Read: "Read n c e = Some (r, bs, c', e') \<Longrightarrow> tls_keeps c c'"
proof -
  assume "Read n c e = Some (r, bs, c', e')"
  then show ?thesis
  proof (cases rule: Read_cases)
    case failed
    then show ?thesis by (metis HandleSSLError_step)
  qed (auto simp: tls_keeps_def tls_inv_def ClearError_def)
qed

lemma tls_step_Write: "Write bs c e = Some (r, n, c', e') \<Longrightarrow> tls_keeps c c'"
proof -
  assume "Write bs c e = Some (r, n, c', e')"
  then show ?thesis
  proof (cases rule: Write_cases)
    case failed
    then show ?thesis by (metis HandleSSLError_step)
  qed (auto simp: tls_keeps_def tls_inv_def ClearError_def)
qed

lemma tls_step_keeps: "tls_step c c' \<Longrightarrow> tls_keeps c c'"
  by (erule tls_stepE)
    (auto dest: tls_step_Initialize tls_step_DoHandshake tls_step_Read tls_step_Write
      simp: Tls_Shutdown_def Tls_Close_def tls_keeps_def tls_inv_def split: if_splits)

lemma tls_inv_default [simp]: "tls_inv TlsConnection_default"
  by (simp add: tls_inv_def TlsConnection_default_def)

lemma tls_reachable_inv: "tls_step\<^sup>*\<^sup>* TlsConnection_default c \<Longrightarrow> tls_inv c"
  by (induction rule: rtranclp_induct) (auto dest!: tls_step_keeps simp: tls_keeps_def)

text \<open>
  C14. The state machine of a connection: after any sequence of calls on a new object, a
  state other than \<open>DISCONNECTED\<close> comes with an OpenSSL object and a valid socket,
  \<open>DISCONNECTING\<close> is never seen from outside, every call moves along the edges of the
  machine (\<open>CONNECTED\<close> is reached only by a handshake, \<open>CONNECTING\<close> only from
  \<open>DISCONNECTED\<close>, \<open>ERROR\<close> is left only by closing), and a handshake that returns leaves
  \<open>CONNECTED\<close> or \<open>ERROR\<close> according to its result.
\<close>

theorem tls_state_machine:
  assumes "tls_step\<^sup>*\<^sup>* TlsConnection_default c"
  shows "(tc_state c \<noteq> S_DISCONNECTED \<longrightarrow> tc_ssl c \<noteq> None \<and> tc_socket_fd c \<noteq> INVALID_SOCKET_VALUE)
    \<and> tc_state c \<noteq> S_DISCONNECTING
    \<and> (tls_step c c' \<longrightarrow> tls_edge (tc_state c) (tc_state c'))
    \<and> (DoHandshake err_text c e = Some (ok, d, e') \<and> tc_state c = S_CONNECTING \<longrightarrow>
         tc_state d = (if ok then S_CONNECTED else S_ERROR))"
  using tls_reachable_inv [OF assms] tls_step_keeps [of c c']
  by (auto simp: tls_inv_def tls_keeps_def DoHandshake_def dest!: DoHandshake_loop_result
      split: option.splits if_splits)

theorem tls_state_machine_witness:
  "tc_state (TlsConnection_default\<lparr>tc_ssl := Some 3, tc_socket_fd := 4, tc_state := S_CONNECTING,
      tc_connection_start_time := 10\<rparr>) \<noteq> S_DISCONNECTING
   \<and> tc_ssl (TlsConnection_default\<lparr>tc_ssl := Some 3, tc_socket_fd := 4, tc_state := S_CONNECTING,
      tc_connection_start_time := 10\<rparr>) \<noteq> None"
proof -
  let ?c = "TlsConnection_default\<lparr>tc_ssl := Some 3, tc_socket_fd := 4, tc_state := S_CONNECTING,
      tc_connection_start_time := 10\<rparr>"
  have "Tls_Initialize (Some 3) True True 4 TlsConnectionConfig_default True TlsConnection_default
      (idle_env\<lparr>te_clock := [10]\<rparr>) = Some (True, ?c, idle_env)"
    by (simp add: Tls_Initialize_def TlsConnection_default_def idle_env_def GetCurrentTimeMs_def
        ClearError_def INVALID_SOCKET_VALUE_def)
  then have "tls_step\<^sup>*\<^sup>* TlsConnection_default ?c" by (blast intro: st_init)
  from tls_state_machine [OF this] show ?thesis by simp
qed

end
