(* ===== verification/Message_Io.thy ===== *)
theory Message_Io
  imports Framing Tls_Connection
begin

text \<open>
  Whole messages over a TLS connection: \<open>SendMessage\<close> and \<open>ReceiveMessage\<close> of
  \<open>src/node/network/src/NodeTcpServer.cpp\<close> and of
  \<open>src/coordinator/network/node_client/src/NodeTcpClient.cpp\<close>. The locale \<open>framed_channel\<close>
  states what one end's sender and the other end's receiver promise each other, and its
  lemmas follow a sequence of messages through it; it is interpreted for both directions.
  A failing allocation of the body (at most one megabyte) is not modelled.
\<close>

section \<open>The two senders\<close>

definition Node_WriteMessage :: "NetworkMessage \<Rightarrow> tls_conn \<Rightarrow> tls_env \<Rightarrow> (bool \<times> tls_conn \<times> tls_env) option" where
  "Node_WriteMessage m c e =
     (case WriteExact (header_image (nm_header m)) c e of
        None \<Rightarrow> None
      | Some (error, c1, e1) \<Rightarrow>
          (if error \<noteq> TlsError.NONE then Some (False, c1, e1)
           else if mh_body_length (nm_header m) > 0 then
             (case WriteExact (nm_body m) c1 e1 of
                None \<Rightarrow> None
              | Some (error', c2, e2) \<Rightarrow> Some (error' = TlsError.NONE, c2, e2))
           else Some (True, c1, e1)))"

text \<open>
  The client writes \<open>header.body_length\<close> bytes of the body where the node writes the body's
  own size. A declared length beyond the body would read past the vector; every message the
  client sends comes from \<open>ConvertToNetworkMessage\<close>, which sets it to the size.
\<close>

definition Client_WriteMessage :: "NetworkMessage \<Rightarrow> tls_conn \<Rightarrow> tls_env \<Rightarrow> (bool \<times> tls_conn \<times> tls_env) option" where
  "Client_WriteMessage m c e =
     (case WriteExact (header_image (nm_header m)) c e of
        None \<Rightarrow> None
      | Some (error, c1, e1) \<Rightarrow>
          (if error \<noteq> TlsError.NONE then Some (False, c1, e1)
           else if mh_body_length (nm_header m) > 0 then
             (case WriteExact (take (unat (mh_body_length (nm_header m))) (nm_body m)) c1 e1 of
                None \<Rightarrow> None
              | Some (error', c2, e2) \<Rightarrow> Some (error' = TlsError.NONE, c2, e2))
           else Some (True, c1, e1)))"

definition well_sized :: "NetworkMessage \<Rightarrow> bool" where
  "well_sized m \<longleftrightarrow> length (nm_body m) = unat (mh_body_length (nm_header m))"

lemma Client_WriteMessage_eq: "well_sized m \<Longrightarrow> Client_WriteMessage m = Node_WriteMessage m"
proof -
  assume "well_sized m"
  then have t: "take (unat (mh_body_length (nm_header m))) (nm_body m) = nm_body m"
    by (simp add: well_sized_def)
  show ?thesis by (intro ext) (simp only: Client_WriteMessage_def Node_WriteMessage_def t)
qed

section \<open>The receiver\<close>

text \<open>
  The reading part, the same statements at both ends: the header, its basic validation, the
  body it announces, and the validation of the whole message. The result is \<open>None\<close> on every
  branch that returns \<open>false\<close>; what is then left in the caller's variable is not used.
\<close>

definition ReadMessage :: "tls_conn \<Rightarrow> tls_env \<Rightarrow> (NetworkMessage option \<times> tls_conn \<times> tls_env) option" where
  "ReadMessage c e =
     (case ReadExact sizeof_MessageHeader c e of
        None \<Rightarrow> None
      | Some (error, hbytes, c1, e1) \<Rightarrow>
          (if error \<noteq> TlsError.NONE then Some (None, c1, e1)
           else case header_of_image hbytes of
             None \<Rightarrow> Some (None, c1, e1)
           | Some (header, _) \<Rightarrow>
               (if ValidateBasic header \<noteq> OK then Some (None, c1, e1)
                else if mh_body_length header > 0 then
                  (case ReadExact (unat (mh_body_length header)) c1 e1 of
                     None \<Rightarrow> None
                   | Some (error', body, c2, e2) \<Rightarrow>
                       (if error' \<noteq> TlsError.NONE then Some (None, c2, e2)
                        else let m = \<lparr>nm_header = header, nm_body = body\<rparr>
                             in Some (if Validate m \<noteq> OK then None else Some m, c2, e2)))
                else let m = \<lparr>nm_header = header, nm_body = []\<rparr>
                     in Some (if Validate m \<noteq> OK then None else Some m, c1, e1))))"

section \<open>What a sender and a receiver promise\<close>

lemma WriteExact_NONE:
  "WriteExact bs c e = Some (TlsError.NONE, c', e') \<Longrightarrow> te_out e' = te_out e @ bs"
  by (auto dest: WriteExact_sound)

lemma ReadExact_NONE:
  "ReadExact n c e = Some (TlsError.NONE, bs, c', e') \<Longrightarrow>
     te_in e = bs @ te_in e' \<and> length bs = n \<and> tc_state c' = tc_state c"
  using ReadExact_loop_sound [of n "[]" c e TlsError.NONE bs c' e'] by (auto simp: ReadExact_def)

lemma Node_WriteMessage_image:
  "Node_WriteMessage m c e = Some (True, c', e') \<Longrightarrow> well_sized m \<Longrightarrow>
     te_out e' = te_out e @ message_image m"
  by (auto simp: Node_WriteMessage_def message_image_def well_sized_def word_gt_0
      dest!: WriteExact_NONE split: option.splits if_splits)

lemma ReadMessage_image:
  assumes "ReadMessage c e = Some (Some m, c', e')"
  shows "te_in e = message_image m @ te_in e' \<and> Validate m = OK"
proof -
  from assms obtain hbytes c1 e1 where
    r1: "ReadExact sizeof_MessageHeader c e = Some (TlsError.NONE, hbytes, c1, e1)"
    by (auto simp: ReadMessage_def split: option.splits if_splits)
  with assms obtain h rest where h: "header_of_image hbytes = Some (h, rest)"
    by (auto simp: ReadMessage_def split: option.splits if_splits)
  from ReadExact_NONE [OF r1] have i1: "te_in e = hbytes @ te_in e1" "length hbytes = sizeof_MessageHeader"
    by simp_all
  from header_of_image_SomeD [OF h] i1(2) have hb: "hbytes = header_image h" by simp
  show ?thesis
  proof (cases "mh_body_length h > 0")
    case True
    with assms r1 h obtain body c2 where
      "ReadExact (unat (mh_body_length h)) c1 e1 = Some (TlsError.NONE, body, c2, e')"
      and m: "m = \<lparr>nm_header = h, nm_body = body\<rparr>" "Validate m = OK"
      by (auto simp: ReadMessage_def Let_def split: option.splits if_splits)
    then show ?thesis using i1 hb by (auto simp: message_image_def dest!: ReadExact_NONE)
  next
    case False
    with assms r1 h have "m = \<lparr>nm_header = h, nm_body = []\<rparr>" "Validate m = OK" "e' = e1"
      by (auto simp: ReadMessage_def Let_def split: if_splits)
    then show ?thesis using i1 hb by (simp add: message_image_def)
  qed
qed

text \<open>Messages are prefix-free on the wire: the header announces where the body ends.\<close>

lemma image_prefix_free:
  assumes "well_sized m" and "well_sized m'" and "message_image m @ r = message_image m' @ r'"
  shows "m = m' \<and> r = r'"
proof -
  from assms(3) have "header_image (nm_header m) @ (nm_body m @ r) = header_image (nm_header m') @ (nm_body m' @ r')"
    by (simp add: message_image_def)
  then have h: "nm_header m = nm_header m'" and b: "nm_body m @ r = nm_body m' @ r'"
    using hdr.enc_prefix_free by (metis TrueI)+
  from assms(1,2) h have "length (nm_body m) = length (nm_body m')" by (simp add: well_sized_def)
  with b have "nm_body m = nm_body m'" "r = r'" by simp_all
  with h show ?thesis by (cases m; cases m') simp
qed

lemma valid_well_sized: "Validate m = OK \<Longrightarrow> well_sized m"
  by (simp add: well_sized_def Validate_OK_iff)

lemmas message_image_prefix_free = image_prefix_free [OF valid_well_sized valid_well_sized]

text \<open>A sequence of sends that all succeed, and a sequence of receives.\<close>

fun send_all ::
  "(NetworkMessage \<Rightarrow> tls_conn \<Rightarrow> tls_env \<Rightarrow> (bool \<times> tls_conn \<times> tls_env) option)
     \<Rightarrow> NetworkMessage list \<Rightarrow> tls_conn \<Rightarrow> tls_env \<Rightarrow> (tls_conn \<times> tls_env) option" where
  "send_all send [] c e = Some (c, e)"
| "send_all send (m # ms) c e =
     (case send m c e of
        Some (True, c', e') \<Rightarrow> send_all send ms c' e'
      | _ \<Rightarrow> None)"

fun receive_all ::
  "(tls_conn \<Rightarrow> tls_env \<Rightarrow> (NetworkMessage option \<times> tls_conn \<times> tls_env) option)
     \<Rightarrow> nat \<Rightarrow> tls_conn \<Rightarrow> tls_env \<Rightarrow> (NetworkMessage list \<times> tls_conn \<times> tls_env) option" where
  "receive_all recv 0 c e = Some ([], c, e)"
| "receive_all recv (Suc n) c e =
     (case recv c e of
        Some (Some m, c', e') \<Rightarrow>
          map_option (\<lambda>(ms, c'', e''). (m # ms, c'', e'')) (receive_all recv n c' e')
      | _ \<Rightarrow> None)"

locale framed_channel =
  fixes send :: "NetworkMessage \<Rightarrow> tls_conn \<Rightarrow> tls_env \<Rightarrow> (bool \<times> tls_conn \<times> tls_env) option"
    and recv :: "tls_conn \<Rightarrow> tls_env \<Rightarrow> (NetworkMessage option \<times> tls_conn \<times> tls_env) option"
  assumes send_image:
      "send m c e = Some (True, c', e') \<Longrightarrow> well_sized m \<Longrightarrow> te_out e' = te_out e @ message_image m"
    and recv_image:
      "recv c e = Some (Some m, c', e') \<Longrightarrow> te_in e = message_image m @ te_in e' \<and> Validate m = OK"
begin

lemma send_all_image:
  "send_all send ms c e = Some (c', e') \<Longrightarrow> list_all well_sized ms \<Longrightarrow>
     te_out e' = te_out e @ concat (map message_image ms)"
  by (induction ms arbitrary: c e)
    (auto dest!: send_image split: option.splits bool.splits prod.splits)

lemma receive_all_image:
  "receive_all recv n c e = Some (ms, c', e') \<Longrightarrow>
     te_in e = concat (map message_image ms) @ te_in e' \<and> list_all (\<lambda>m. Validate m = OK) ms \<and> length ms = n"
  by (induction n arbitrary: c e ms)
    (fastforce dest!: recv_image split: option.splits prod.splits)+

lemma images_prefix_free:
  "\<lbrakk>list_all (\<lambda>m. Validate m = OK) xs; list_all (\<lambda>m. Validate m = OK) ys; length xs \<le> length ys;
    concat (map message_image xs) @ r = concat (map message_image ys) @ s\<rbrakk> \<Longrightarrow>
     xs = take (length xs) ys"
proof (induction xs arbitrary: ys)
  case (Cons x xs)
  then obtain y ys' where ys: "ys = y # ys'" by (cases ys) auto
  with Cons.prems have "message_image x @ (concat (map message_image xs) @ r)
      = message_image y @ (concat (map message_image ys') @ s)" by simp
  from message_image_prefix_free [OF _ _ this] Cons.prems ys
  have "x = y" "concat (map message_image xs) @ r = concat (map message_image ys') @ s" by auto
  with Cons.IH [of ys'] Cons.prems ys show ?case by simp
qed simp

lemma channel_integrity:
  assumes "send_all send ms cs es = Some (cs', es')" and "list_all (\<lambda>m. Validate m = OK) ms"
    and "te_out es = []" and "te_in er = te_out es'"
    and "receive_all recv n cr er = Some (ms', cr', er')" and "n \<le> length ms"
  shows "ms' = take n ms"
proof -
  have "list_all well_sized ms"
    using assms(2) by (auto simp: list_all_iff well_sized_def Validate_OK_iff)
  from send_all_image [OF assms(1) this] assms(3,4)
  have out: "te_in er = concat (map message_image ms) @ []" by simp
  from receive_all_image [OF assms(5)] have
    "te_in er = concat (map message_image ms') @ te_in er'" "list_all (\<lambda>m. Validate m = OK) ms'" "length ms' = n"
    by auto
  with images_prefix_free [of ms' ms "te_in er'" "[]"] out assms(2,6) show ?thesis by auto
qed

end

interpretation to_node: framed_channel Client_WriteMessage ReadMessage
  by unfold_locales (auto simp: Client_WriteMessage_eq dest: Node_WriteMessage_image ReadMessage_image)

interpretation to_client: framed_channel Node_WriteMessage ReadMessage
  by unfold_locales (auto dest: Node_WriteMessage_image ReadMessage_image)

section \<open>Healthy connections\<close>

lemma Node_WriteMessage_complete:
  assumes "tc_state c = S_CONNECTED" and "healthy SSL_ERROR_WANT_WRITE (te_writes e) (te_selects e)"
    and "well_sized m" and "GetTotalSize m \<le> progress_count (te_writes e)"
  shows "\<exists>c' e'. Node_WriteMessage m c e = Some (True, c', e') \<and> te_out e' = te_out e @ message_image m
    \<and> tc_state c' = S_CONNECTED \<and> te_in e' = te_in e
    \<and> healthy SSL_ERROR_WANT_WRITE (te_writes e') (te_selects e')
    \<and> progress_count (te_writes e) \<le> progress_count (te_writes e') + GetTotalSize m"
proof -
  obtain c1 e1 where w1: "WriteExact (header_image (nm_header m)) c e = Some (TlsError.NONE, c1, e1)"
    "te_out e1 = te_out e @ header_image (nm_header m)" "tc_state c1 = S_CONNECTED"
    "healthy SSL_ERROR_WANT_WRITE (te_writes e1) (te_selects e1)"
    "progress_count (te_writes e) \<le> progress_count (te_writes e1) + sizeof_MessageHeader"
    "te_in e1 = te_in e"
    using WriteExact_complete [OF assms(1,2), of "header_image (nm_header m)"] assms(4)
    by (auto simp: GetTotalSize_def)
  show ?thesis
  proof (cases "mh_body_length (nm_header m) > 0")
    case True
    have "length (nm_body m) \<le> progress_count (te_writes e1)"
      using w1(5) assms(4) by (simp add: GetTotalSize_def)
    from WriteExact_complete [OF w1(3,4) this] obtain c2 e2 where
      w2: "WriteExact (nm_body m) c1 e1 = Some (TlsError.NONE, c2, e2)" "te_out e2 = te_out e1 @ nm_body m"
      "tc_state c2 = S_CONNECTED" "te_in e2 = te_in e1"
      "healthy SSL_ERROR_WANT_WRITE (te_writes e2) (te_selects e2)"
      "progress_count (te_writes e1) \<le> progress_count (te_writes e2) + length (nm_body m)" by blast
    from w1(1) w2(1) True have "Node_WriteMessage m c e = Some (True, c2, e2)"
      by (simp add: Node_WriteMessage_def)
    moreover have "te_out e2 = te_out e @ message_image m"
      using w1(2) w2(2) by (simp add: message_image_def)
    moreover have "progress_count (te_writes e) \<le> progress_count (te_writes e2) + GetTotalSize m"
      using w1(5) w2(6) by (simp add: GetTotalSize_def)
    ultimately show ?thesis using w1(6) w2(3,4,5) by metis
  next
    case False
    with assms(3) have "nm_body m = []" by (simp add: well_sized_def word_gt_0)
    with w1 False show ?thesis by (simp add: Node_WriteMessage_def message_image_def GetTotalSize_def)
  qed
qed

lemma ReadMessage_header:
  assumes "tc_state c = S_CONNECTED" and "healthy SSL_ERROR_WANT_READ (te_reads e) (te_selects e)"
    and "sizeof_MessageHeader \<le> progress_count (te_reads e)" and "te_in e = header_image h @ rest"
  obtains c1 e1 where "ReadExact sizeof_MessageHeader c e = Some (TlsError.NONE, header_image h, c1, e1)"
    "te_in e1 = rest" "tc_state c1 = S_CONNECTED" "healthy SSL_ERROR_WANT_READ (te_reads e1) (te_selects e1)"
    "progress_count (te_reads e) \<le> progress_count (te_reads e1) + sizeof_MessageHeader"
  using ReadExact_loop_complete [OF assms(1,2), of "[]" sizeof_MessageHeader] assms(3,4)
  by (auto simp: ReadExact_def)

lemma ReadMessage_complete:
  assumes "tc_state c = S_CONNECTED" and "healthy SSL_ERROR_WANT_READ (te_reads e) (te_selects e)"
    and "GetTotalSize m \<le> progress_count (te_reads e)" and "Validate m = OK"
    and "te_in e = message_image m @ rest"
  shows "\<exists>c' e'. ReadMessage c e = Some (Some m, c', e') \<and> te_in e' = rest \<and> tc_state c' = S_CONNECTED
    \<and> healthy SSL_ERROR_WANT_READ (te_reads e') (te_selects e')
    \<and> progress_count (te_reads e) \<le> progress_count (te_reads e') + GetTotalSize m"
proof -
  let ?h = "nm_header m"
  from assms(3) have "sizeof_MessageHeader \<le> progress_count (te_reads e)" by (simp add: GetTotalSize_def)
  moreover from assms(5) have "te_in e = header_image ?h @ (nm_body m @ rest)" by (simp add: message_image_def)
  ultimately obtain c1 e1 where r1: "ReadExact sizeof_MessageHeader c e = Some (TlsError.NONE, header_image ?h, c1, e1)"
    and e1: "te_in e1 = nm_body m @ rest" "tc_state c1 = S_CONNECTED"
      "healthy SSL_ERROR_WANT_READ (te_reads e1) (te_selects e1)"
      "progress_count (te_reads e) \<le> progress_count (te_reads e1) + sizeof_MessageHeader"
    by (rule ReadMessage_header [OF assms(1,2)])
  have h: "header_of_image (header_image ?h) = Some (?h, [])"
    using header_of_image_image [of ?h "[]"] by simp
  have len: "length (nm_body m) = unat (mh_body_length ?h)" and basic: "ValidateBasic ?h = OK"
    using assms(4) by (simp_all add: Validate_OK_iff Validate_OK_basic)
  show ?thesis
  proof (cases "mh_body_length ?h > 0")
    case True
    have "unat (mh_body_length ?h) \<le> progress_count (te_reads e1)"
      using e1(4) assms(3) len by (simp add: GetTotalSize_def)
    then obtain c2 e2 where
      r2: "ReadExact (unat (mh_body_length ?h)) c1 e1 = Some (TlsError.NONE, nm_body m, c2, e2)" "te_in e2 = rest"
      "tc_state c2 = S_CONNECTED" "healthy SSL_ERROR_WANT_READ (te_reads e2) (te_selects e2)"
      "progress_count (te_reads e1) \<le> progress_count (te_reads e2) + length (nm_body m)"
      using ReadExact_loop_complete [OF e1(2,3), of "[]" "unat (mh_body_length ?h)"] e1(1) len
      by (auto simp: ReadExact_def)
    then have "ReadMessage c e = Some (Some m, c2, e2)"
      using r1 h basic True assms(4) by (cases m) (simp add: ReadMessage_def Let_def)
    moreover have "progress_count (te_reads e) \<le> progress_count (te_reads e2) + GetTotalSize m"
      using e1(4) r2(5) by (simp add: GetTotalSize_def)
    ultimately show ?thesis using r2(2,3,4) by metis
  next
    case False
    with len have nb: "nm_body m = []" by (simp add: word_gt_0)
    then have "ReadMessage c e = Some (Some m, c1, e1)"
      using r1 h basic False assms(4) by (cases m) (simp add: ReadMessage_def Let_def)
    then show ?thesis using e1 nb by (auto simp: GetTotalSize_def)
  qed
qed

section \<open>The properties\<close>

text \<open>
  C3. What arrives is what was sent, in both directions: when the coordinator's client (or
  the node) has sent a sequence of valid messages over one connection and the other end
  accepts \<open>n\<close> messages from those bytes, they are exactly the first \<open>n\<close> messages of the
  sequence, whatever the sizes of the reads and writes and wherever retries occurred.
\<close>

theorem channel_delivers:
  assumes "list_all (\<lambda>m. Validate m = OK) ms" and "te_out es = []" and "te_in er = te_out es'"
    and "n \<le> length ms" and "receive_all ReadMessage n cr er = Some (ms', cr', er')"
  shows "(send_all Client_WriteMessage ms cs es = Some (cs', es') \<longrightarrow> ms' = take n ms)
    \<and> (send_all Node_WriteMessage ms cs es = Some (cs', es') \<longrightarrow> ms' = take n ms)"
  using to_node.channel_integrity [OF _ assms(1,2,3,5,4)] to_client.channel_integrity [OF _ assms(1,2,3,5,4)]
  by blast

definition hello :: NetworkMessage where "hello = NetworkMessage_string 0 ''hi''"

lemma hello_facts: "Validate hello = OK" "well_sized hello" "GetTotalSize hello = 34"
proof -
  have v: "Validate hello = OK"
    by (simp add: hello_def NetworkMessage_string_bytes Validate_NetworkMessage_bytes)
  then show "Validate hello = OK" "well_sized hello"
    by (simp_all add: Validate_OK_iff well_sized_def)
  show "GetTotalSize hello = 34"
    by (simp add: GetTotalSize_def hello_def NetworkMessage_string_def sizeof_MessageHeader_def Let_def)
qed

theorem channel_delivers_witness:
  "\<exists>cs' es' cr' er' ms'. send_all Client_WriteMessage [hello] connected_conn
       (idle_env\<lparr>te_writes := replicate 34 (Progress 0)\<rparr>) = Some (cs', es')
     \<and> receive_all ReadMessage 1 connected_conn
       (idle_env\<lparr>te_in := te_out es', te_reads := replicate 34 (Progress 2)\<rparr>) = Some (ms', cr', er')
     \<and> ms' = [hello]"
proof -
  have count: "progress_count (replicate n (Progress k)) = n" for n k by (induction n) auto
  have ok: "healthy x (replicate n (Progress k)) []" for x n k
    by (auto simp: healthy_def count list_all_iff)
  let ?es = "idle_env\<lparr>te_writes := replicate 34 (Progress 0)\<rparr>"
  obtain cs' es' where "Node_WriteMessage hello connected_conn ?es = Some (True, cs', es')"
    and out: "te_out es' = message_image hello"
    using Node_WriteMessage_complete [of connected_conn ?es hello]
    by (auto simp: hello_facts connected_conn_def idle_env_def count ok)
  then have s: "send_all Client_WriteMessage [hello] connected_conn ?es = Some (cs', es')"
    by (simp add: Client_WriteMessage_eq hello_facts)
  let ?er = "idle_env\<lparr>te_in := te_out es', te_reads := replicate 34 (Progress 2)\<rparr>"
  obtain cr' er' where "ReadMessage connected_conn ?er = Some (Some hello, cr', er')"
    using ReadMessage_complete [of connected_conn ?er hello "[]"]
    by (auto simp: hello_facts connected_conn_def idle_env_def count ok out)
  then have r: "receive_all ReadMessage 1 connected_conn ?er = Some ([hello], cr', er')" by simp
  have "[hello] = take 1 [hello]"
    using channel_delivers [of "[hello]" ?es ?er es' 1 connected_conn "[hello]" cr' er' connected_conn cs'] s r
    by (simp add: hello_facts idle_env_def)
  with s r show ?thesis by blast
qed

text \<open>
  C16. The receiver on every kind of input: it accepts only a complete valid message, which it
  removes exactly from the stream; on a healthy connection it does accept every valid message
  that the stream starts with; and a header that fails the basic checks is refused after its
  32 bytes, before anything is allocated or read for the body.
\<close>

theorem ReadMessage_behaviour:
  "(ReadMessage c e = Some (Some m, c', e') \<longrightarrow>
      te_in e = message_image m @ te_in e' \<and> Validate m = OK \<and> length (nm_body m) \<le> 1024 * 1024)
   \<and> (tc_state c = S_CONNECTED \<and> healthy SSL_ERROR_WANT_READ (te_reads e) (te_selects e)
        \<and> GetTotalSize m \<le> progress_count (te_reads e) \<and> Validate m = OK
        \<and> te_in e = message_image m @ rest \<longrightarrow>
      (\<exists>c' e'. ReadMessage c e = Some (Some m, c', e') \<and> te_in e' = rest))
   \<and> (tc_state c = S_CONNECTED \<and> healthy SSL_ERROR_WANT_READ (te_reads e) (te_selects e)
        \<and> sizeof_MessageHeader \<le> progress_count (te_reads e) \<and> ValidateBasic h \<noteq> OK
        \<and> te_in e = header_image h @ rest \<longrightarrow>
      (\<exists>c' e'. ReadMessage c e = Some (None, c', e') \<and> te_in e' = rest))"
proof (intro conjI impI)
  assume "ReadMessage c e = Some (Some m, c', e')"
  from ReadMessage_image [OF this]
  show "te_in e = message_image m @ te_in e'" "Validate m = OK" "length (nm_body m) \<le> 1024 * 1024"
    using Validate_OK_body_bound [of m] by simp_all
next
  assume a: "tc_state c = S_CONNECTED \<and> healthy SSL_ERROR_WANT_READ (te_reads e) (te_selects e)
        \<and> GetTotalSize m \<le> progress_count (te_reads e) \<and> Validate m = OK \<and> te_in e = message_image m @ rest"
  then show "\<exists>c' e'. ReadMessage c e = Some (Some m, c', e') \<and> te_in e' = rest"
    using ReadMessage_complete by blast
next
  assume a: "tc_state c = S_CONNECTED \<and> healthy SSL_ERROR_WANT_READ (te_reads e) (te_selects e)
        \<and> sizeof_MessageHeader \<le> progress_count (te_reads e) \<and> ValidateBasic h \<noteq> OK
        \<and> te_in e = header_image h @ rest"
  then obtain c1 e1 where "ReadExact sizeof_MessageHeader c e = Some (TlsError.NONE, header_image h, c1, e1)"
    "te_in e1 = rest" by (auto elim: ReadMessage_header)
  then show "\<exists>c' e'. ReadMessage c e = Some (None, c', e') \<and> te_in e' = rest"
    using a header_of_image_image [of h "[]"] by (auto simp: ReadMessage_def)
qed

theorem ReadMessage_behaviour_witness:
  "\<exists>c' e'. ReadMessage connected_conn
     (idle_env\<lparr>te_in := header_image (MessageHeader_default\<lparr>mh_magic := 7\<rparr>) @ [1, 2],
        te_reads := replicate 32 (Progress 0)\<rparr>) = Some (None, c', e') \<and> te_in e' = [1, 2]"
proof -
  have count: "progress_count (replicate n (Progress k)) = n" for n k by (induction n) auto
  have ok: "healthy x (replicate n (Progress k)) []" for x n k
    by (auto simp: healthy_def count list_all_iff)
  show ?thesis
    by (rule ReadMessage_behaviour [THEN conjunct2, THEN conjunct2, rule_format,
          of _ _ "MessageHeader_default\<lparr>mh_magic := 7\<rparr>"])
      (simp add: connected_conn_def idle_env_def count ok sizeof_MessageHeader_def ValidateBasic_def MAGIC_NUMBER_def)
qed

end
