(* ===== verification/Tls_Material.thy ===== *)
theory Tls_Material
  imports Prelude
begin

text \<open>
  What the two endpoints use to set up their TLS context: the environment's configuration,
  the read-only resources, the key management service and the context itself, as the
  functions that those objects offer. \<open>NodeTcpServer::InitializeTlsContext\<close> and
  \<open>NodeTcpClient::InitializeTlsContext\<close> call them in the same order, each inside one
  \<open>try\<close> whose handler turns every exception into \<open>false\<close>.
\<close>

record tls_material =
  tm_initialize :: bool
  tm_get_string :: "string \<Rightarrow> exn + string"
  tm_read_file :: "string \<Rightarrow> exn + string"
  tm_get_secret :: "string \<Rightarrow> exn + string"
  tm_load_ca :: "string \<Rightarrow> bool"
  tm_load_certificate :: "string \<Rightarrow> string \<Rightarrow> bool"

text \<open>The body of the \<open>try\<close> block: the CA first, then the certificate and its key.\<close>

definition load_material :: "tls_material \<Rightarrow> string \<Rightarrow> string \<Rightarrow> exn + bool" where
  "load_material w certificate_path private_key_id =
     exn_bind (tm_get_string w ''TLS_CERT_PATH'') (\<lambda>tls_cert_path.
     exn_bind (tm_get_string w ''TLS_CERT_CA'') (\<lambda>tls_ca.
     exn_bind (tm_read_file w (tls_cert_path @ tls_ca)) (\<lambda>ca_pem.
       if ca_pem = [] then Inr False
       else if \<not> tm_load_ca w ca_pem then Inr False
       else
         exn_bind (tm_read_file w (tls_cert_path @ certificate_path)) (\<lambda>certificate_pem.
         exn_bind (tm_get_secret w private_key_id) (\<lambda>private_key_pem.
           if certificate_pem = [] \<or> private_key_pem = [] then Inr False
           else Inr (tm_load_certificate w certificate_pem private_key_pem))))))"

definition Server_InitializeTlsContext :: "tls_material \<Rightarrow> string \<Rightarrow> string \<Rightarrow> bool" where
  "Server_InitializeTlsContext w certificate_path private_key_id =
     (if \<not> tm_initialize w then False
      else case load_material w certificate_path private_key_id of
             Inl _ \<Rightarrow> False
           | Inr ok \<Rightarrow> ok)"

text \<open>The client's version has the initialisation inside the \<open>try\<close> block too.\<close>

definition Client_InitializeTlsContext :: "tls_material \<Rightarrow> string \<Rightarrow> string \<Rightarrow> bool" where
  "Client_InitializeTlsContext w certificate_path private_key_id =
     (case (if \<not> tm_initialize w then Inr False
            else load_material w certificate_path private_key_id) of
        Inl _ \<Rightarrow> False
      | Inr ok \<Rightarrow> ok)"

lemma Client_InitializeTlsContext_eq: "Client_InitializeTlsContext = Server_InitializeTlsContext"
  by (intro ext) (simp add: Client_InitializeTlsContext_def Server_InitializeTlsContext_def)

text \<open>A context is accepted only with a loaded CA and a certificate with its own key.\<close>

lemma InitializeTlsContext_TrueD:
  assumes "Server_InitializeTlsContext w cert key"
  obtains p ca ca_pem cert_pem key_pem where
    "tm_get_string w ''TLS_CERT_PATH'' = Inr p" "tm_get_string w ''TLS_CERT_CA'' = Inr ca"
    "tm_read_file w (p @ ca) = Inr ca_pem" "tm_load_ca w ca_pem" "ca_pem \<noteq> []"
    "tm_read_file w (p @ cert) = Inr cert_pem" "tm_get_secret w key = Inr key_pem"
    "tm_load_certificate w cert_pem key_pem" "cert_pem \<noteq> []" "key_pem \<noteq> []"
proof -
  from assms have "load_material w cert key = Inr True"
    by (auto simp: Server_InitializeTlsContext_def split: if_splits sum.splits)
  then show ?thesis using that
    by (auto simp: load_material_def exn_bind_eq_Inr split: if_splits)
qed

end
