(* ===== verification/Node_Tcp_Server.thy ===== *)
theory Node_Tcp_Server
  imports Message_Io Thread_Safe_Queue Tls_Material "HOL-Library.Multiset"
begin

text \<open>
  The node's TCP server, \<open>src/node/network/src/NodeTcpServer.cpp\<close> with its connection record
  (\<open>NodeConnectionInfo\<close>): one trusted coordinator at a time, a receive loop that submits every
  request to the thread pool, the handler wrapper \<open>ProcessMessage\<close>, and a send loop that
  drains the send queue. The threads are program counters and the server moves by their steps
  in any interleaving; \<open>Stop\<close> is the sequence of its stages. A task of the pool is a request
  from its submission to the end of its handler, the pool's own queue and ownership are the
  subject of \<open>Thread_Pool\<close>. Four lists record request ids: received, sent, dropped, and the
  extra error responses that carry the id \<open>-1\<close>.
\<close>

section \<open>The connection record\<close>

record node_conn =
  nc_tls :: "tls_conn option"
  nc_address :: string
  nc_port :: u16
  nc_start_time :: u64
  nc_last_activity :: u64
  nc_requests :: u32
  nc_responses :: u32
  nc_status :: ConnectionStatus

definition NodeConnectionInfo_default :: node_conn where
  "NodeConnectionInfo_default =
     \<lparr>nc_tls = None, nc_address = '''', nc_port = 0, nc_start_time = 0, nc_last_activity = 0,
      nc_requests = 0, nc_responses = 0, nc_status = DISCONNECTED\<rparr>"

definition InitializeWithTls :: "string \<Rightarrow> u16 \<Rightarrow> tls_conn option \<Rightarrow> u64 \<Rightarrow> node_conn \<Rightarrow> node_conn" where
  "InitializeWithTls addr port tls now nc =
     nc\<lparr>nc_tls := tls, nc_address := addr, nc_port := port, nc_start_time := now,
       nc_last_activity := now, nc_status := CONNECTED\<rparr>"

definition nc_IsValid :: "node_conn \<Rightarrow> bool" where
  "nc_IsValid nc \<longleftrightarrow> nc_tls nc \<noteq> None \<and> nc_address nc \<noteq> [] \<and> nc_port nc > 0"

definition nc_IsActive :: "node_conn \<Rightarrow> bool" where
  "nc_IsActive nc \<longleftrightarrow> nc_status nc = CONNECTED \<and> nc_IsValid nc"

definition nc_ToString :: "node_conn \<Rightarrow> string" where
  "nc_ToString nc = nc_address nc @ '':'' @ to_string (unat (nc_port nc))"

definition GetTlsConnection :: "node_conn \<Rightarrow> exn + tls_conn" where
  "GetTlsConnection nc =
     (case nc_tls nc of None \<Rightarrow> Inl (Runtime_error ''TLS connection is null'') | Some c \<Rightarrow> Inr c)"

definition nc_Disconnect :: "node_conn \<Rightarrow> tls_env \<Rightarrow> node_conn \<times> tls_env" where
  "nc_Disconnect nc e =
     (nc\<lparr>nc_status := DISCONNECTED, nc_tls := None\<rparr>,
      case nc_tls nc of None \<Rightarrow> e | Some c \<Rightarrow> snd (Tls_Close c e))"

record disconnection_info =
  di_address :: string
  di_port :: u16
  di_start_time :: u64
  di_last_activity :: u64
  di_requests :: u32
  di_responses :: u32
  di_status :: ConnectionStatus

definition GetDisconnectionInfo :: "node_conn \<Rightarrow> disconnection_info" where
  "GetDisconnectionInfo nc =
     \<lparr>di_address = nc_address nc, di_port = nc_port nc, di_start_time = nc_start_time nc,
      di_last_activity = nc_last_activity nc, di_requests = nc_requests nc,
      di_responses = nc_responses nc, di_status = nc_status nc\<rparr>"

section \<open>Access control and error responses\<close>

record SecurityConfig =
  sc_trusted :: string
  sc_strict :: bool

definition SecurityConfig_default :: SecurityConfig where
  "SecurityConfig_default = \<lparr>sc_trusted = '''', sc_strict = True\<rparr>"

definition IsAllowed :: "SecurityConfig \<Rightarrow> string \<Rightarrow> bool" where
  "IsAllowed sc ip \<longleftrightarrow> \<not> sc_strict sc \<or> ip = sc_trusted sc"

definition CreateErrorResponse :: "u16 \<Rightarrow> string \<Rightarrow> u64 \<Rightarrow> NetworkMessage" where
  "CreateErrorResponse original_type error_message request_id =
     (let payload = ''success=false|error='' @ error_message;
          error_msg = NetworkMessage_string original_type payload
      in error_msg\<lparr>nm_header := (nm_header error_msg)\<lparr>mh_request_id := request_id\<rparr>\<rparr>)"

lemma CreateErrorResponse_valid:
  "length msg \<le> 1000 \<Longrightarrow> Validate (CreateErrorResponse t msg rid) = OK
     \<and> mh_request_id (nm_header (CreateErrorResponse t msg rid)) = rid
     \<and> mh_message_type (nm_header (CreateErrorResponse t msg rid)) = t"
  using Validate_NetworkMessage_bytes [of t "bytes_of_string (''success=false|error='' @ msg)"]
  by (simp add: CreateErrorResponse_def Let_def NetworkMessage_string_bytes Validate_OK_iff)
    (simp add: NetworkMessage_bytes_def MessageHeader_new_def Let_def)

section \<open>The handler wrapper\<close>

text \<open>
  A handler is a function that may throw. The three error paths and the normal one push one
  response each; the \<open>TryPush\<close> result decides whether it is in the queue.
\<close>

type_synonym message_handler = "NetworkMessage \<Rightarrow> exn + NetworkMessage"

definition response_for :: "message_handler option \<Rightarrow> NetworkMessage \<Rightarrow> NetworkMessage" where
  "response_for handler request =
     (let request_id = mh_request_id (nm_header request);
          type = mh_message_type (nm_header request);
          validation = Validate request in
      if validation \<noteq> OK then
        CreateErrorResponse type (''Invalid request: '' @ ValidationResultToString validation) request_id
      else case handler of
        None \<Rightarrow> CreateErrorResponse type ''Handler not configured'' request_id
      | Some h \<Rightarrow>
          (case h request of
             Inl _ \<Rightarrow> CreateErrorResponse type ''Internal error'' request_id
           | Inr response \<Rightarrow>
               response\<lparr>nm_header := (nm_header response)\<lparr>mh_request_id := request_id\<rparr>\<rparr>))"

definition ProcessMessage ::
  "message_handler option \<Rightarrow> NetworkMessage \<Rightarrow> NetworkMessage tsq \<Rightarrow> QueueResult \<times> NetworkMessage tsq" where
  "ProcessMessage handler request q = TryPush (response_for handler request) q"

lemma response_for_id: "mh_request_id (nm_header (response_for handler m)) = mh_request_id (nm_header m)"
  by (simp add: response_for_def CreateErrorResponse_def Let_def split: option.splits sum.splits)

lemma response_for_error:
  assumes "Validate m \<noteq> OK \<or> handler = None \<or> (\<exists>h e. handler = Some h \<and> h m = Inl e)"
  shows "\<exists>msg. length msg \<le> 1000 \<and> response_for handler m =
    CreateErrorResponse (mh_message_type (nm_header m)) msg (mh_request_id (nm_header m))"
proof (cases "Validate m = OK")
  case False
  have "length (ValidationResultToString v) \<le> 30" for v by (cases v) simp_all
  then have "length (''Invalid request: '' @ ValidationResultToString (Validate m)) \<le> 1000"
    by (simp add: order_trans [of _ 30])
  with False show ?thesis by (auto simp: response_for_def Let_def intro!: exI)
next
  case True
  then consider "handler = None" | h e where "handler = Some h" "h m = Inl e" using assms by blast
  then show ?thesis
  proof cases
    case 1
    with True have "response_for handler m =
      CreateErrorResponse (mh_message_type (nm_header m)) ''Handler not configured'' (mh_request_id (nm_header m))"
      by (simp add: response_for_def Let_def)
    then show ?thesis by (rule_tac exI [of _ "''Handler not configured''"]) simp
  next
    case 2
    with True have "response_for handler m =
      CreateErrorResponse (mh_message_type (nm_header m)) ''Internal error'' (mh_request_id (nm_header m))"
      by (simp add: response_for_def Let_def)
    then show ?thesis by (rule_tac exI [of _ "''Internal error''"]) simp
  qed
qed

text \<open>
  The handler wrapper answers every request with exactly one response that carries the
  request's id: the handler's own response when the request is valid and the handler returns,
  and otherwise a well-formed error response of the request's type, which names the failed
  validation, the missing handler, or hides the exception behind an internal error.
\<close>

theorem ProcessMessage_answers:
  "mh_request_id (nm_header (response_for handler m)) = mh_request_id (nm_header m)
   \<and> (ProcessMessage handler m q = (SUCCESS, q') \<longrightarrow> q_items q' = q_items q @ [response_for handler m])
   \<and> (fst (ProcessMessage handler m q) \<noteq> SUCCESS \<longrightarrow> snd (ProcessMessage handler m q) = q)
   \<and> (Validate m = OK \<and> handler = Some h \<and> h m = Inr r \<longrightarrow>
        nm_body (response_for handler m) = nm_body r \<and>
        mh_message_type (nm_header (response_for handler m)) = mh_message_type (nm_header r))
   \<and> (Validate m \<noteq> OK \<or> handler = None \<or> (\<exists>h e. handler = Some h \<and> h m = Inl e) \<longrightarrow>
        Validate (response_for handler m) = OK
        \<and> mh_message_type (nm_header (response_for handler m)) = mh_message_type (nm_header m))"
proof -
  have err: "Validate (response_for handler m) = OK
        \<and> mh_message_type (nm_header (response_for handler m)) = mh_message_type (nm_header m)"
    if bad: "Validate m \<noteq> OK \<or> handler = None \<or> (\<exists>h e. handler = Some h \<and> h m = Inl e)"
  proof -
    obtain msg where "length msg \<le> 1000"
      and "response_for handler m =
        CreateErrorResponse (mh_message_type (nm_header m)) msg (mh_request_id (nm_header m))"
      using response_for_error [OF bad] by blast
    then show ?thesis using CreateErrorResponse_valid by simp
  qed
  show ?thesis
    using err by (auto simp: response_for_id ProcessMessage_def queue_defs split: if_splits)
      (auto simp: response_for_def Let_def)
qed

theorem ProcessMessage_answers_witness:
  "mh_request_id (nm_header (response_for None (hello\<lparr>nm_header := (nm_header hello)\<lparr>mh_request_id := 9\<rparr>\<rparr>))) = 9
   \<and> Validate (response_for None hello) = OK"
  using ProcessMessage_answers [of None "hello\<lparr>nm_header := (nm_header hello)\<lparr>mh_request_id := 9\<rparr>\<rparr>"]
    ProcessMessage_answers [of None hello] by simp

section \<open>The server\<close>

text \<open>
  The loops are program counters: \<open>L_check\<close> before the loop condition, \<open>L_io\<close> in the blocking
  call of the iteration, \<open>L_done\<close> after the function returned, \<open>L_abort\<close> when an exception
  left the thread. The stage of \<open>Stop\<close> counts its finished steps.
\<close>

datatype loop_pc = L_off | L_check | L_io | L_done | L_abort
datatype conn_pc = C_off | C_accepting | C_serving | C_exited

record node_server =
  ts_server_socket :: int
  ts_bind_address :: string
  ts_bind_port :: u16
  ts_running :: bool
  ts_initialized :: bool
  ts_accepting :: bool
  ts_conn :: "node_conn option"
  ts_security :: SecurityConfig
  ts_handler :: "message_handler option"
  ts_num_threads :: nat
  ts_pool_stopped :: "bool option"
  ts_tasks :: "NetworkMessage multiset"
  ts_queue :: "NetworkMessage tsq option"
  ts_firewall :: bool
  ts_total_received :: u64
  ts_total_sent :: u64
  ts_total_processed :: u64
  ts_handler_errors :: u64
  ts_conn_pc :: conn_pc
  ts_recv_pc :: loop_pc
  ts_send_pc :: loop_pc
  ts_stop_stage :: nat
  ts_env :: tls_env
  ts_closed :: "int list"
  ts_received :: "u64 list"
  ts_sent :: "u64 list"
  ts_dropped :: "u64 list"
  ts_extra :: "u64 list"

definition NodeTcpServer_new :: "string \<Rightarrow> u16 \<Rightarrow> nat \<Rightarrow> tls_env \<Rightarrow> exn + node_server" where
  "NodeTcpServer_new address port handler_threads e =
     (if handler_threads = 0 then Inl (Invalid_argument ''handler_threads must be at least 1'')
      else Inr \<lparr>ts_server_socket = INVALID_SOCKET_VALUE, ts_bind_address = address, ts_bind_port = port,
        ts_running = False, ts_initialized = False, ts_accepting = True, ts_conn = None,
        ts_security = SecurityConfig_default, ts_handler = None, ts_num_threads = handler_threads,
        ts_pool_stopped = None, ts_tasks = {#}, ts_queue = None, ts_firewall = False,
        ts_total_received = 0, ts_total_sent = 0, ts_total_processed = 0, ts_handler_errors = 0,
        ts_conn_pc = C_off, ts_recv_pc = L_off, ts_send_pc = L_off, ts_stop_stage = 0, ts_env = e,
        ts_closed = [], ts_received = [], ts_sent = [], ts_dropped = [], ts_extra = []\<rparr>)"

definition SetTrustedCoordinator :: "string \<Rightarrow> node_server \<Rightarrow> node_server" where
  "SetTrustedCoordinator ip s = s\<lparr>ts_security := (ts_security s)\<lparr>sc_trusted := ip\<rparr>\<rparr>"

definition EnableKernelFirewall :: "bool \<Rightarrow> node_server \<Rightarrow> node_server" where
  "EnableKernelFirewall enable s = s\<lparr>ts_firewall := enable\<rparr>"

definition IsKernelFirewallEnabled :: "node_server \<Rightarrow> bool" where
  "IsKernelFirewallEnabled s = ts_firewall s"

definition SetMessageHandler :: "message_handler option \<Rightarrow> node_server \<Rightarrow> node_server" where
  "SetMessageHandler h s = s\<lparr>ts_handler := h\<rparr>"

definition IsAuthorized :: "string \<Rightarrow> node_server \<Rightarrow> bool" where
  "IsAuthorized ip s = IsAllowed (ts_security s) ip"

definition HasActiveConnection :: "node_server \<Rightarrow> bool" where
  "HasActiveConnection s \<longleftrightarrow> (case ts_conn s of None \<Rightarrow> False | Some nc \<Rightarrow> nc_IsActive nc)"

text \<open>
  \<open>Initialize\<close> with the results of \<open>socket\<close>, \<open>inet_pton\<close> and \<open>bind\<close> and the configuration
  lookup of the queue size, which may throw. A socket closed on an error path keeps its number
  in the member.
\<close>

definition Tcp_Initialize ::
  "tls_material \<Rightarrow> string \<Rightarrow> string \<Rightarrow> int \<Rightarrow> bool \<Rightarrow> bool \<Rightarrow> exn + u16 \<Rightarrow> node_server
     \<Rightarrow> (exn + bool) \<times> node_server" where
  "Tcp_Initialize w cert key sock address_ok bind_ok queue_size s =
     (if ts_initialized s then (Inr True, s)
      else if \<not> Server_InitializeTlsContext w cert key then (Inr False, s)
      else let s1 = s\<lparr>ts_server_socket := sock\<rparr> in
        if sock = INVALID_SOCKET_VALUE then (Inr False, s1)
        else if \<not> address_ok then (Inr False, s1\<lparr>ts_closed := ts_closed s @ [sock]\<rparr>)
        else if \<not> bind_ok then (Inr False, s1\<lparr>ts_closed := ts_closed s @ [sock]\<rparr>)
        else let s2 = s1\<lparr>ts_pool_stopped := Some False\<rparr> in
          case queue_size of
            Inl ex \<Rightarrow> (Inl ex, s2)
          | Inr n \<Rightarrow>
              (case ThreadSafeQueue (ts_num_threads s * unat n) of
                 Inl ex \<Rightarrow> (Inl ex, s2)
               | Inr q \<Rightarrow> (Inr True, s2\<lparr>ts_queue := Some q, ts_initialized := True\<rparr>)))"

text \<open>\<open>Start\<close>: the firewall's result is only logged; the connection thread starts.\<close>

definition Tcp_Start :: "bool \<Rightarrow> node_server \<Rightarrow> bool \<times> node_server" where
  "Tcp_Start listen_ok s =
     (if \<not> ts_initialized s \<or> ts_running s then (False, s)
      else if \<not> listen_ok then (False, s)
      else (True, s\<lparr>ts_running := True, ts_accepting := True, ts_conn_pc := C_accepting\<rparr>))"

definition StopAcceptingConnections :: "node_server \<Rightarrow> node_server" where
  "StopAcceptingConnections s = s\<lparr>ts_accepting := False\<rparr>"

definition ForceCloseExistingConnection :: "node_server \<Rightarrow> node_server" where
  "ForceCloseExistingConnection s =
     (case ts_conn s of
        None \<Rightarrow> s
      | Some nc \<Rightarrow>
          s\<lparr>ts_conn := None,
            ts_env := (case nc_tls nc of None \<Rightarrow> ts_env s | Some c \<Rightarrow> snd (Tls_Close c (ts_env s)))\<rparr>)"

section \<open>Sending and receiving\<close>

definition put_tls :: "tls_conn \<Rightarrow> tls_env \<Rightarrow> node_server \<Rightarrow> node_server" where
  "put_tls c e s = s\<lparr>ts_conn := map_option (\<lambda>nc. nc\<lparr>nc_tls := Some c\<rparr>) (ts_conn s), ts_env := e\<rparr>"

definition Node_SendMessage :: "NetworkMessage \<Rightarrow> node_server \<Rightarrow> ((exn + bool) \<times> node_server) option" where
  "Node_SendMessage m s =
     (case ts_conn s of
        None \<Rightarrow> Some (Inr False, s)
      | Some nc \<Rightarrow>
          (case GetTlsConnection nc of
             Inl ex \<Rightarrow> Some (Inl ex, s)
           | Inr c \<Rightarrow>
               (case Node_WriteMessage m c (ts_env s) of
                  None \<Rightarrow> None
                | Some (ok, c', e') \<Rightarrow> Some (Inr ok, put_tls c' e' s))))"

definition Node_ReceiveMessage :: "node_server \<Rightarrow> ((exn + NetworkMessage option) \<times> node_server) option" where
  "Node_ReceiveMessage s =
     (case ts_conn s of
        None \<Rightarrow> Some (Inr None, s)
      | Some nc \<Rightarrow>
          (case GetTlsConnection nc of
             Inl ex \<Rightarrow> Some (Inl ex, s)
           | Inr c \<Rightarrow>
               (case ReadMessage c (ts_env s) of
                  None \<Rightarrow> None
                | Some (m, c', e') \<Rightarrow> Some (Inr m, put_tls c' e' s))))"

text \<open>\<open>TryPush\<close> of a response to the send queue; a refused response is dropped with its id.\<close>

definition push_response :: "u64 \<Rightarrow> NetworkMessage \<Rightarrow> node_server \<Rightarrow> node_server" where
  "push_response rid m s =
     (case ts_queue s of
        None \<Rightarrow> s
      | Some q \<Rightarrow>
          (case TryPush m q of (r, q') \<Rightarrow>
             s\<lparr>ts_queue := Some q', ts_dropped := (if r = SUCCESS then ts_dropped s else ts_dropped s @ [rid])\<rparr>))"

text \<open>
  What the receive loop does with a message: counters, then the submission with its result. A
  stopped pool throws \<open>runtime_error\<close>, any other exception is the second handler; both push an
  error response with the id \<open>-1\<close>, so the request itself gets no answer.
\<close>

definition touch_request :: "u64 \<Rightarrow> node_server \<Rightarrow> node_server" where
  "touch_request now s =
     s\<lparr>ts_total_received := ts_total_received s + 1,
       ts_conn := map_option (\<lambda>nc. nc\<lparr>nc_last_activity := now, nc_requests := nc_requests nc + 1\<rparr>) (ts_conn s)\<rparr>"

definition submit_request :: "exn + unit \<Rightarrow> NetworkMessage \<Rightarrow> node_server \<Rightarrow> node_server" where
  "submit_request r m s =
     (let rid = mh_request_id (nm_header m); type = mh_message_type (nm_header m);
          s1 = s\<lparr>ts_received := ts_received s @ [rid]\<rparr> in
      case r of
        Inr _ \<Rightarrow> s1\<lparr>ts_tasks := add_mset m (ts_tasks s), ts_recv_pc := L_check\<rparr>
      | Inl (Runtime_error _) \<Rightarrow>
          (push_response (- 1) (CreateErrorResponse type ''Server shutting down'' (- 1))
             (s1\<lparr>ts_dropped := ts_dropped s @ [rid], ts_extra := ts_extra s @ [- 1]\<rparr>))\<lparr>ts_recv_pc := L_done\<rparr>
      | Inl _ \<Rightarrow>
          (push_response (- 1) (CreateErrorResponse type ''Server busy'' (- 1))
             (s1\<lparr>ts_dropped := ts_dropped s @ [rid], ts_extra := ts_extra s @ [- 1]\<rparr>))
             \<lparr>ts_handler_errors := ts_handler_errors s + 1, ts_recv_pc := L_check\<rparr>)"

text \<open>When \<open>SubmitOwned\<close> returns and when it throws: a stopped pool is what it reports.\<close>

definition submit_possible :: "exn + unit \<Rightarrow> node_server \<Rightarrow> bool" where
  "submit_possible r s =
     (case r of
        Inr _ \<Rightarrow> ts_pool_stopped s = Some False
      | Inl (Runtime_error _) \<Rightarrow> ts_pool_stopped s = Some True
      | Inl _ \<Rightarrow> True)"

definition ReceiveLoop_step :: "u64 \<Rightarrow> exn + unit \<Rightarrow> node_server \<Rightarrow> node_server option" where
  "ReceiveLoop_step now r s =
     (case ts_recv_pc s of
        L_check \<Rightarrow>
          Some (s\<lparr>ts_recv_pc := if ts_running s \<and> HasActiveConnection s then L_io else L_done\<rparr>)
      | L_io \<Rightarrow>
          (case Node_ReceiveMessage s of
             None \<Rightarrow> None
           | Some (Inl _, s1) \<Rightarrow> Some (s1\<lparr>ts_recv_pc := L_abort\<rparr>)
           | Some (Inr None, s1) \<Rightarrow> Some (s1\<lparr>ts_recv_pc := L_done\<rparr>)
           | Some (Inr (Some m), s1) \<Rightarrow>
               (if submit_possible r s1 then Some (submit_request r m (touch_request now s1)) else None))
      | _ \<Rightarrow> None)"

definition touch_response :: "u64 \<Rightarrow> node_server \<Rightarrow> node_server" where
  "touch_response now s =
     s\<lparr>ts_total_sent := ts_total_sent s + 1,
       ts_conn := map_option (\<lambda>nc. nc\<lparr>nc_last_activity := now, nc_responses := nc_responses nc + 1\<rparr>) (ts_conn s)\<rparr>"

text \<open>
  The send loop: a pop that does not succeed goes back to the loop condition, a message that
  cannot be sent is lost with its loop.
\<close>

definition SendLoop_step :: "u64 \<Rightarrow> node_server \<Rightarrow> node_server option" where
  "SendLoop_step now s =
     (case ts_send_pc s of
        L_check \<Rightarrow>
          Some (s\<lparr>ts_send_pc := if ts_running s \<and> HasActiveConnection s then L_io else L_done\<rparr>)
      | L_io \<Rightarrow>
          (case ts_queue s of
             None \<Rightarrow> None
           | Some q \<Rightarrow>
               (case Pop q of
                  None \<Rightarrow> None
                | Some (r, item, q') \<Rightarrow>
                    (case (r, item) of
                       (SUCCESS, Some m) \<Rightarrow>
                         (let rid = mh_request_id (nm_header m) in
                          case Node_SendMessage m (s\<lparr>ts_queue := Some q'\<rparr>) of
                            None \<Rightarrow> None
                          | Some (Inl _, s1) \<Rightarrow> Some (s1\<lparr>ts_send_pc := L_abort, ts_dropped := ts_dropped s1 @ [rid]\<rparr>)
                          | Some (Inr False, s1) \<Rightarrow> Some (s1\<lparr>ts_send_pc := L_done, ts_dropped := ts_dropped s1 @ [rid]\<rparr>)
                          | Some (Inr True, s1) \<Rightarrow>
                              Some ((touch_response now s1)\<lparr>ts_send_pc := L_check, ts_sent := ts_sent s1 @ [rid]\<rparr>))
                     | _ \<Rightarrow> Some (s\<lparr>ts_send_pc := L_check\<rparr>))))
      | _ \<Rightarrow> None)"

text \<open>A pool worker finishes a task: the wrapper ran and pushed the response, or failed to.\<close>

definition finish_task :: "NetworkMessage \<Rightarrow> node_server \<Rightarrow> node_server" where
  "finish_task m s =
     push_response (mh_request_id (nm_header m)) (response_for (ts_handler s) m)
       (s\<lparr>ts_tasks := ts_tasks s - {#m#}\<rparr>)"

section \<open>The connection thread and the shutdown\<close>

text \<open>
  \<open>HandleCoordinatorConnection\<close> up to the start of its two threads; on a failure the TLS
  object is destroyed and the client's socket closed. The receive loop returns at once when no
  handler is set.
\<close>

definition HandleCoordinatorConnection_start ::
  "int \<Rightarrow> string \<Rightarrow> u16 \<Rightarrow> nat option \<Rightarrow> bool \<Rightarrow> (ssl_error \<Rightarrow> string) \<Rightarrow> u64 \<Rightarrow> node_server
     \<Rightarrow> node_server option" where
  "HandleCoordinatorConnection_start client_socket ip port created fd_ok err_text now s =
     (let cfg = TlsConnectionConfig_default\<lparr>cc_handshake_timeout_ms := 10000\<rparr>;
          fail = (\<lambda>c e. s\<lparr>ts_closed := ts_closed s @ [client_socket], ts_env := snd (Tls_Close c e)\<rparr>) in
      case AcceptServer created fd_ok True client_socket cfg TlsConnection_default (ts_env s) of
        None \<Rightarrow> None
      | Some (False, c, e) \<Rightarrow> Some (fail c e)
      | Some (True, c, e) \<Rightarrow>
          (case DoHandshake err_text c e of
             None \<Rightarrow> None
           | Some (False, c', e') \<Rightarrow> Some (fail c' e')
           | Some (True, c', e') \<Rightarrow>
               Some (s\<lparr>ts_conn := Some (InitializeWithTls ip port (Some c') now NodeConnectionInfo_default),
                 ts_env := e', ts_conn_pc := C_serving,
                 ts_recv_pc := (if ts_handler s = None then L_done else L_check), ts_send_pc := L_check\<rparr>)))"

text \<open>The rest of it, after both joins.\<close>

definition HandleCoordinatorConnection_end :: "node_server \<Rightarrow> node_server option" where
  "HandleCoordinatorConnection_end s =
     (if ts_conn_pc s = C_serving \<and> ts_recv_pc s = L_done \<and> ts_send_pc s = L_done then
        Some (s\<lparr>ts_conn := None, ts_conn_pc := C_accepting, ts_recv_pc := L_off, ts_send_pc := L_off,
          ts_env := (case ts_conn s of None \<Rightarrow> ts_env s | Some nc \<Rightarrow> snd (nc_Disconnect nc (ts_env s)))\<rparr>)
      else None)"

text \<open>One turn of \<open>ConnectionLoop\<close>, with what \<open>accept\<close> returned.\<close>

definition ConnectionLoop_step ::
  "int \<Rightarrow> string \<Rightarrow> u16 \<Rightarrow> nat option \<Rightarrow> bool \<Rightarrow> (ssl_error \<Rightarrow> string) \<Rightarrow> u64 \<Rightarrow> node_server
     \<Rightarrow> node_server option" where
  "ConnectionLoop_step client_socket ip port created fd_ok err_text now s =
     (if ts_conn_pc s \<noteq> C_accepting then None
      else if \<not> ts_running s then Some (s\<lparr>ts_conn_pc := C_exited\<rparr>)
      else if \<not> ts_accepting s then Some s
      else if client_socket = INVALID_SOCKET_VALUE then Some s
      else if \<not> IsAuthorized ip s then Some (s\<lparr>ts_closed := ts_closed s @ [client_socket]\<rparr>)
      else HandleCoordinatorConnection_start client_socket ip port created fd_ok err_text now
             (ForceCloseExistingConnection s))"

text \<open>
  \<open>Stop\<close>: the flag and the server socket, the connection, the pool (whose \<open>Shutdown\<close> returns
  when no task is left), the queue, and the joins.
\<close>

definition Stop_step :: "node_server \<Rightarrow> node_server option" where
  "Stop_step s =
     (if ts_stop_stage s = 0 then
        (if \<not> ts_running s then None
         else Some (s\<lparr>ts_running := False, ts_stop_stage := 1,
           ts_closed := (if ts_server_socket s \<noteq> INVALID_SOCKET_VALUE
                         then ts_closed s @ [ts_server_socket s] else ts_closed s),
           ts_server_socket := INVALID_SOCKET_VALUE\<rparr>))
      else if ts_stop_stage s = 1 then
        Some ((ForceCloseExistingConnection s)\<lparr>ts_stop_stage := 2\<rparr>)
      else if ts_stop_stage s = 2 then
        Some (s\<lparr>ts_pool_stopped := map_option (\<lambda>_. True) (ts_pool_stopped s), ts_stop_stage := 3\<rparr>)
      else if ts_stop_stage s = 3 \<and> ts_tasks s = {#} then
        Some (s\<lparr>ts_queue := map_option Shutdown (ts_queue s), ts_stop_stage := 4\<rparr>)
      else if ts_stop_stage s = 4 \<and> ts_conn_pc s = C_exited then Some (s\<lparr>ts_stop_stage := 5\<rparr>)
      else None)"

text \<open>A stopped pool drops the tasks that no worker has taken yet.\<close>

definition drop_task :: "NetworkMessage \<Rightarrow> node_server \<Rightarrow> node_server" where
  "drop_task m s =
     s\<lparr>ts_tasks := ts_tasks s - {#m#}, ts_dropped := ts_dropped s @ [mh_request_id (nm_header m)]\<rparr>"

text \<open>\<open>GetPendingRequests\<close> adds in 32 bits the active handlers and the queued responses.\<close>

definition GetPendingRequests :: "nat \<Rightarrow> node_server \<Rightarrow> u32" where
  "GetPendingRequests active s =
     (if ts_pool_stopped s = None then 0 else word_of_nat active)
     + (case ts_queue s of None \<Rightarrow> 0 | Some q \<Rightarrow> word_of_nat (Size q))"

text \<open>
  The polling loop of \<open>PrepareShutdown\<close> on the values it reads, one pair of pending requests
  and elapsed milliseconds per turn.
\<close>

fun PrepareShutdown_loop :: "u32 \<Rightarrow> (u32 \<times> nat) list \<Rightarrow> bool option" where
  "PrepareShutdown_loop timeout_ms [] = None"
| "PrepareShutdown_loop timeout_ms ((pending, elapsed) # rest) =
     (if pending = 0 then Some True
      else if elapsed > unat timeout_ms then Some False
      else PrepareShutdown_loop timeout_ms rest)"

definition PrepareShutdown :: "u32 \<Rightarrow> (u32 \<times> nat) list \<Rightarrow> node_server \<Rightarrow> (bool \<times> node_server) option" where
  "PrepareShutdown timeout_ms readings s =
     map_option (\<lambda>completed. (completed, StopAcceptingConnections s)) (PrepareShutdown_loop timeout_ms readings)"

record ServerStats =
  ss_received :: u64
  ss_sent :: u64
  ss_processed :: u64
  ss_errors :: u64
  ss_pending_send_queue :: nat
  ss_active_handlers :: nat

definition Tcp_GetStats :: "nat \<Rightarrow> node_server \<Rightarrow> ServerStats" where
  "Tcp_GetStats active s =
     \<lparr>ss_received = ts_total_received s, ss_sent = ts_total_sent s,
      ss_processed = ts_total_processed s, ss_errors = ts_handler_errors s,
      ss_pending_send_queue = (case ts_queue s of None \<Rightarrow> 0 | Some q \<Rightarrow> Size q),
      ss_active_handlers = (if ts_pool_stopped s = None then 0 else active)\<rparr>"

inductive node_step :: "node_server \<Rightarrow> node_server \<Rightarrow> bool" where
  ns_connection:
    "ConnectionLoop_step sock ip port created fd_ok err_text now s = Some s' \<Longrightarrow> node_step s s'"
| ns_end: "HandleCoordinatorConnection_end s = Some s' \<Longrightarrow> node_step s s'"
| ns_receive: "ReceiveLoop_step now r s = Some s' \<Longrightarrow> node_step s s'"
| ns_send: "SendLoop_step now s = Some s' \<Longrightarrow> node_step s s'"
| ns_task: "m \<in># ts_tasks s \<Longrightarrow> node_step s (finish_task m s)"
| ns_drop: "m \<in># ts_tasks s \<Longrightarrow> ts_pool_stopped s = Some True \<Longrightarrow> node_step s (drop_task m s)"
| ns_stop_accepting: "node_step s (StopAcceptingConnections s)"
| ns_stop: "Stop_step s = Some s' \<Longrightarrow> node_step s s'"

inductive_cases node_stepE: "node_step s s'"

section \<open>Accounting of requests and access control\<close>

abbreviation rid :: "NetworkMessage \<Rightarrow> u64" where "rid m \<equiv> mh_request_id (nm_header m)"

text \<open>The ids of the requests that still owe a response, and of the responses still queued.\<close>

definition owed :: "node_server \<Rightarrow> u64 multiset" where
  "owed s = image_mset rid (ts_tasks s)
     + (case ts_queue s of None \<Rightarrow> {#} | Some q \<Rightarrow> mset (map rid (q_items q)))"

definition balanced :: "node_server \<Rightarrow> bool" where
  "balanced s \<longleftrightarrow>
     mset (ts_received s) + mset (ts_extra s) = mset (ts_sent s) + mset (ts_dropped s) + owed s
     \<and> set (ts_extra s) \<subseteq> {- 1}"

text \<open>The connection that is held has its TLS object and comes from an allowed address.\<close>

definition guarded :: "node_server \<Rightarrow> bool" where
  "guarded s \<longleftrightarrow> ts_queue s \<noteq> None \<and> ts_pool_stopped s \<noteq> None
     \<and> (\<forall>nc. ts_conn s = Some nc \<longrightarrow> nc_tls nc \<noteq> None \<and> IsAllowed (ts_security s) (nc_address nc))
     \<and> ts_recv_pc s \<noteq> L_abort \<and> ts_send_pc s \<noteq> L_abort"

definition node_inv :: "node_server \<Rightarrow> bool" where
  "node_inv s \<longleftrightarrow> balanced s \<and> guarded s"

lemmas node_inv_defs = node_inv_def balanced_def guarded_def owed_def

lemma Node_ReceiveMessage_keeps:
  assumes "Node_ReceiveMessage s = Some (x, s')" and "guarded s"
  shows "s' = s\<lparr>ts_conn := ts_conn s', ts_env := ts_env s'\<rparr> \<and> guarded s' \<and> (\<exists>y. x = Inr y)"
proof (cases "ts_conn s")
  case None
  with assms show ?thesis by (auto simp: Node_ReceiveMessage_def)
next
  case (Some nc)
  with assms(2) obtain c where c: "nc_tls nc = Some c" by (auto simp: guarded_def)
  from assms(1) Some c obtain r c' e' where
    x: "x = Inr r" and s': "s' = put_tls c' e' s"
    by (auto simp: Node_ReceiveMessage_def GetTlsConnection_def split: option.splits)
  with assms(2) Some show ?thesis by (simp add: put_tls_def guarded_def)
qed

lemma Node_SendMessage_keeps:
  assumes "Node_SendMessage m s = Some (x, s')" and "guarded s"
  shows "s' = s\<lparr>ts_conn := ts_conn s', ts_env := ts_env s'\<rparr> \<and> guarded s' \<and> (\<exists>y. x = Inr y)"
proof (cases "ts_conn s")
  case None
  with assms show ?thesis by (auto simp: Node_SendMessage_def)
next
  case (Some nc)
  with assms(2) obtain c where c: "nc_tls nc = Some c" by (auto simp: guarded_def)
  from assms(1) Some c obtain r c' e' where
    x: "x = Inr r" and s': "s' = put_tls c' e' s"
    by (auto simp: Node_SendMessage_def GetTlsConnection_def split: option.splits)
  with assms(2) Some show ?thesis by (simp add: put_tls_def guarded_def)
qed

lemma TryPush_cases:
  obtains (full) "TryPush x q = (TIMEOUT, q)" | (closed) "TryPush x q = (SHUTDOWN, q)"
  | (pushed) "TryPush x q = (SUCCESS, q\<lparr>q_items := q_items q @ [x]\<rparr>)"
proof -
  consider "length (q_items q) < q_max_size q \<or> q_shutdown q" "q_shutdown q"
    | "length (q_items q) < q_max_size q" "\<not> q_shutdown q"
    | "\<not> length (q_items q) < q_max_size q" "\<not> q_shutdown q" by blast
  then show ?thesis
    by cases (use full closed pushed in \<open>simp_all add: TryPush_def not_full_or_shutdown_def push_locked_def\<close>)
qed

lemma push_response_owed:
  assumes "ts_queue s = Some q" and "rid m = i"
  shows "mset (ts_dropped (push_response i m s)) + owed (push_response i m s)
      = mset (ts_dropped s) + owed s + {#i#}"
    and "\<exists>q' d. push_response i m s = s\<lparr>ts_queue := Some q', ts_dropped := d\<rparr>"
proof -
  show "mset (ts_dropped (push_response i m s)) + owed (push_response i m s)
      = mset (ts_dropped s) + owed s + {#i#}"
    by (cases rule: TryPush_cases [of m q]) (simp_all add: push_response_def owed_def assms)
  show "\<exists>q' d. push_response i m s = s\<lparr>ts_queue := Some q', ts_dropped := d\<rparr>"
  proof (cases rule: TryPush_cases [of m q])
    case pushed
    then have "push_response i m s = s\<lparr>ts_queue := Some (q\<lparr>q_items := q_items q @ [m]\<rparr>), ts_dropped := ts_dropped s\<rparr>"
      by (simp add: push_response_def assms)
    then show ?thesis by blast
  qed (auto simp: push_response_def assms)
qed

lemma balanced_push:
  assumes "ts_queue s \<noteq> None" and "rid m = i" and "set (ts_extra s) \<subseteq> {- 1}"
    and "mset (ts_received s) + mset (ts_extra s) = mset (ts_sent s) + mset (ts_dropped s) + owed s + {#i#}"
  shows "balanced (push_response i m s)"
proof -
  obtain q0 where q0: "ts_queue s = Some q0" using assms(1) by blast
  obtain q d where p: "push_response i m s = s\<lparr>ts_queue := Some q, ts_dropped := d\<rparr>"
    using push_response_owed(2) [OF q0 assms(2)] by blast
  have "mset (ts_received s) + mset (ts_extra s)
      = mset (ts_sent s) + (mset (ts_dropped (push_response i m s)) + owed (push_response i m s))"
    using push_response_owed(1) [OF q0 assms(2)] assms(4) by (simp add: ac_simps)
  then show ?thesis using assms(3) p by (simp add: balanced_def ac_simps)
qed

lemma node_inv_updates:
  "node_inv s \<Longrightarrow> pc \<noteq> L_abort \<Longrightarrow> node_inv (s\<lparr>ts_recv_pc := pc\<rparr>)"
  "node_inv s \<Longrightarrow> node_inv (s\<lparr>ts_handler_errors := n\<rparr>)"
  by (simp_all add: node_inv_defs)

lemma submit_request_inv:
  assumes "node_inv s" and "ts_recv_pc s \<noteq> L_abort"
  shows "node_inv (submit_request r m (touch_request now s))"
proof -
  let ?t = "touch_request now s"
  have t: "node_inv ?t" using assms(1) by (auto simp: touch_request_def node_inv_defs)
  show ?thesis
  proof (cases r)
    case (Inr u)
    then show ?thesis using t by (simp add: submit_request_def node_inv_defs Let_def ac_simps)
  next
    case (Inl ex)
    define u where "u = ?t\<lparr>ts_received := ts_received ?t @ [rid m],
      ts_dropped := ts_dropped ?t @ [rid m], ts_extra := ts_extra ?t @ [- 1]\<rparr>"
    have q: "ts_queue u \<noteq> None" and g: "guarded u"
      using t by (simp_all add: u_def node_inv_defs)
    have bal: "balanced (push_response (- 1) (CreateErrorResponse type msg (- 1)) u)" for type msg
      by (rule balanced_push [OF q])
        (use t in \<open>simp_all add: u_def node_inv_defs CreateErrorResponse_def Let_def ac_simps\<close>)
    have gua: "guarded (push_response i x u)" for i x
      using g q by (auto simp: push_response_def guarded_def split: prod.splits)
    have inv: "node_inv (push_response (- 1) (CreateErrorResponse type msg (- 1)) u)" for type msg
      using bal gua by (simp add: node_inv_def)
    have "submit_request r m ?t =
        (push_response (- 1) (CreateErrorResponse (mh_message_type (nm_header m)) ''Server shutting down'' (- 1)) u)
          \<lparr>ts_recv_pc := L_done\<rparr>
      \<or> submit_request r m ?t =
        (push_response (- 1) (CreateErrorResponse (mh_message_type (nm_header m)) ''Server busy'' (- 1)) u)
          \<lparr>ts_handler_errors := ts_handler_errors ?t + 1\<rparr>\<lparr>ts_recv_pc := L_check\<rparr>"
      using Inl by (cases ex) (simp_all add: submit_request_def u_def Let_def)
    then show ?thesis
      using inv by (elim disjE) (simp_all only: node_inv_updates loop_pc.simps not_False_eq_True)
  qed
qed

lemma ReceiveLoop_step_inv: "ReceiveLoop_step now r s = Some s' \<Longrightarrow> node_inv s \<Longrightarrow> node_inv s'"
proof -
  assume run: "ReceiveLoop_step now r s = Some s'" and inv: "node_inv s"
  then have g: "guarded s" by (simp add: node_inv_def)
  show ?thesis
  proof (cases "ts_recv_pc s")
    case L_check
    with run inv show ?thesis by (auto simp: ReceiveLoop_step_def node_inv_defs split: if_splits)
  next
    case L_io
    with run obtain x s1 where rc: "Node_ReceiveMessage s = Some (x, s1)"
      by (auto simp: ReceiveLoop_step_def split: option.splits)
    from Node_ReceiveMessage_keeps [OF this g] obtain m c e where
      x: "x = Inr m" and s1: "s1 = s\<lparr>ts_conn := c, ts_env := e\<rparr>" and g1: "guarded s1" by blast
    have "balanced s1" using inv unfolding s1 by (simp add: node_inv_def balanced_def owed_def)
    with g1 have inv1: "node_inv s1" by (simp add: node_inv_def)
    show ?thesis
    proof (cases m)
      case None
      with run L_io rc x inv1 show ?thesis by (auto simp: ReceiveLoop_step_def node_inv_defs)
    next
      case (Some msg)
      with run L_io rc x have "s' = submit_request r msg (touch_request now s1)"
        by (simp add: ReceiveLoop_step_def split: if_splits)
      then show ?thesis using submit_request_inv [OF inv1] L_io s1 by simp
    qed
  qed (use run in \<open>simp_all add: ReceiveLoop_step_def\<close>)
qed

lemma SendLoop_step_inv: "SendLoop_step now s = Some s' \<Longrightarrow> node_inv s \<Longrightarrow> node_inv s'"
proof -
  assume run: "SendLoop_step now s = Some s'" and inv: "node_inv s"
  then obtain q where q: "ts_queue s = Some q" by (auto simp: node_inv_defs)
  show ?thesis
  proof (cases "ts_send_pc s")
    case L_check
    with run inv show ?thesis by (auto simp: SendLoop_step_def node_inv_defs split: if_splits)
  next
    case L_io
    show ?thesis
    proof (cases "q_items q")
      case Nil
      with run L_io q have "s' = s\<lparr>ts_send_pc := L_check\<rparr>"
        by (auto simp: SendLoop_step_def queue_defs split: if_splits)
      then show ?thesis using inv by (simp add: node_inv_defs)
    next
      case (Cons m ms)
      let ?s = "s\<lparr>ts_queue := Some (q\<lparr>q_items := ms\<rparr>)\<rparr>"
      have g: "guarded ?s" using inv by (simp add: node_inv_def guarded_def)
      from run L_io q Cons obtain x s1 where sd: "Node_SendMessage m ?s = Some (x, s1)"
        by (auto simp: SendLoop_step_def queue_defs Let_def split: option.splits)
      from Node_SendMessage_keeps [OF this g] obtain ok c e where
        x: "x = Inr ok" and s1: "s1 = ?s\<lparr>ts_conn := c, ts_env := e\<rparr>" and g1: "guarded s1" by blast
      have s': "s' = (if ok then (touch_response now s1)\<lparr>ts_send_pc := L_check, ts_sent := ts_sent s1 @ [rid m]\<rparr>
          else s1\<lparr>ts_send_pc := L_done, ts_dropped := ts_dropped s1 @ [rid m]\<rparr>)"
        using run L_io q Cons sd x
        by (simp add: SendLoop_step_def queue_defs Let_def split: bool.splits if_splits)
      have f: "ts_received s1 = ts_received s" "ts_extra s1 = ts_extra s" "ts_sent s1 = ts_sent s"
        "ts_dropped s1 = ts_dropped s" "ts_tasks s1 = ts_tasks s" "ts_queue s1 = Some (q\<lparr>q_items := ms\<rparr>)"
        unfolding s1 by simp_all
      have "balanced s'"
        using inv f q Cons unfolding s'
        by (simp add: touch_response_def node_inv_defs ac_simps)
      moreover have "guarded s'" using g1 unfolding s' by (auto simp: touch_response_def guarded_def)
      ultimately show ?thesis by (simp add: node_inv_def)
    qed
  qed (use run in \<open>simp_all add: SendLoop_step_def\<close>)
qed

lemma finish_task_inv: "m \<in># ts_tasks s \<Longrightarrow> node_inv s \<Longrightarrow> node_inv (finish_task m s)"
proof -
  assume m: "m \<in># ts_tasks s" and inv: "node_inv s"
  from m obtain M where M: "ts_tasks s = add_mset m M" by (blast dest: multi_member_split)
  let ?s = "s\<lparr>ts_tasks := ts_tasks s - {#m#}\<rparr>"
  have "balanced (finish_task m s)"
    unfolding finish_task_def
    by (rule balanced_push) (use inv M in \<open>simp_all add: node_inv_defs response_for_id ac_simps\<close>)
  moreover have "guarded (finish_task m s)"
    using inv by (auto simp: finish_task_def push_response_def node_inv_def guarded_def split: prod.splits)
  ultimately show ?thesis by (simp add: node_inv_def)
qed

lemma drop_task_inv: "m \<in># ts_tasks s \<Longrightarrow> node_inv s \<Longrightarrow> node_inv (drop_task m s)"
  by (drule multi_member_split) (auto simp: drop_task_def node_inv_defs ac_simps)

lemma ForceClose_inv: "node_inv s \<Longrightarrow> node_inv (ForceCloseExistingConnection s)"
  by (auto simp: ForceCloseExistingConnection_def node_inv_defs split: option.splits)

lemma HandleCoordinatorConnection_start_inv:
  assumes "HandleCoordinatorConnection_start sock ip port created fd_ok err_text now s = Some s'"
    and "node_inv s" and "IsAuthorized ip s"
  shows "node_inv s'"
proof -
  let ?cfg = "TlsConnectionConfig_default\<lparr>cc_handshake_timeout_ms := 10000\<rparr>"
  from assms(1) obtain ok c e where
    acc: "AcceptServer created fd_ok True sock ?cfg TlsConnection_default (ts_env s) = Some (ok, c, e)"
    by (auto simp: HandleCoordinatorConnection_start_def Let_def split: option.splits)
  consider cl e' where "s' = s\<lparr>ts_closed := cl, ts_env := e'\<rparr>"
    | c' e' pc where "pc \<noteq> L_abort"
      "s' = s\<lparr>ts_conn := Some (InitializeWithTls ip port (Some c') now NodeConnectionInfo_default),
        ts_env := e', ts_conn_pc := C_serving, ts_recv_pc := pc, ts_send_pc := L_check\<rparr>"
  proof (cases ok)
    case False
    with assms(1) acc
    have "s' = s\<lparr>ts_closed := ts_closed s @ [sock], ts_env := snd (Tls_Close c e)\<rparr>"
      by (simp add: HandleCoordinatorConnection_start_def Let_def)
    then show ?thesis by (rule that(1))
  next
    case True
    with assms(1) acc obtain ok' c' e' where hs: "DoHandshake err_text c e = Some (ok', c', e')"
      by (auto simp: HandleCoordinatorConnection_start_def Let_def split: option.splits)
    show ?thesis
    proof (cases ok')
      case False
      with assms(1) acc True hs
      have "s' = s\<lparr>ts_closed := ts_closed s @ [sock], ts_env := snd (Tls_Close c' e')\<rparr>"
        by (simp add: HandleCoordinatorConnection_start_def Let_def)
      then show ?thesis by (rule that(1))
    next
      case ok: True
      have "s' = s\<lparr>ts_conn := Some (InitializeWithTls ip port (Some c') now NodeConnectionInfo_default),
          ts_env := e', ts_conn_pc := C_serving,
          ts_recv_pc := (if ts_handler s = None then L_done else L_check), ts_send_pc := L_check\<rparr>"
        using assms(1) acc True hs ok by (simp add: HandleCoordinatorConnection_start_def Let_def)
      then show ?thesis using that(2) [of "if ts_handler s = None then L_done else L_check"] by simp
    qed
  qed
  then show ?thesis
    by cases (use assms(2,3) in \<open>simp_all add: node_inv_defs IsAuthorized_def InitializeWithTls_def\<close>)
qed

lemma ConnectionLoop_step_inv:
  "ConnectionLoop_step sock ip port created fd_ok err_text now s = Some s' \<Longrightarrow> node_inv s \<Longrightarrow> node_inv s'"
proof -
  assume run: "ConnectionLoop_step sock ip port created fd_ok err_text now s = Some s'" and inv: "node_inv s"
  have sec: "ts_security (ForceCloseExistingConnection s) = ts_security s"
    by (simp add: ForceCloseExistingConnection_def split: option.splits)
  have "s' = s \<or> s' = s\<lparr>ts_conn_pc := C_exited\<rparr> \<or> s' = s\<lparr>ts_closed := ts_closed s @ [sock]\<rparr> \<or>
      IsAuthorized ip s \<and> HandleCoordinatorConnection_start sock ip port created fd_ok err_text now
             (ForceCloseExistingConnection s) = Some s'"
    using run unfolding ConnectionLoop_step_def
    by (auto simp only: option.inject option.distinct split: if_split_asm)
  then consider "s' = s" | "s' = s\<lparr>ts_conn_pc := C_exited\<rparr>" | "s' = s\<lparr>ts_closed := ts_closed s @ [sock]\<rparr>"
    | "IsAuthorized ip s" "HandleCoordinatorConnection_start sock ip port created fd_ok err_text now
             (ForceCloseExistingConnection s) = Some s'" by blast
  then show ?thesis
  proof cases
    case 4
    then show ?thesis
      using HandleCoordinatorConnection_start_inv [OF 4(2) ForceClose_inv [OF inv]] sec
      by (simp add: IsAuthorized_def)
  qed (use inv in \<open>simp_all add: node_inv_defs\<close>)
qed

lemma Stop_step_inv: "Stop_step s = Some s' \<Longrightarrow> node_inv s \<Longrightarrow> node_inv s'"
proof -
  assume run: "Stop_step s = Some s'" and inv: "node_inv s"
  consider "ts_stop_stage s = 0" | "ts_stop_stage s = 1" | "ts_stop_stage s = 2" | "ts_stop_stage s \<ge> 3"
    by linarith
  then show ?thesis
  proof cases
    case 2
    with run have "s' = (ForceCloseExistingConnection s)\<lparr>ts_stop_stage := 2\<rparr>" by (simp add: Stop_step_def)
    then show ?thesis using ForceClose_inv [OF inv] by (simp add: node_inv_defs)
  qed (use run inv in \<open>auto simp: Stop_step_def node_inv_defs Shutdown_def split: if_splits\<close>)
qed

lemma HandleCoordinatorConnection_end_inv:
  "HandleCoordinatorConnection_end s = Some s' \<Longrightarrow> node_inv s \<Longrightarrow> node_inv s'"
proof -
  assume run: "HandleCoordinatorConnection_end s = Some s'" and inv: "node_inv s"
  then have "s' = s\<lparr>ts_conn := None, ts_conn_pc := C_accepting, ts_recv_pc := L_off, ts_send_pc := L_off,
      ts_env := (case ts_conn s of None \<Rightarrow> ts_env s | Some nc \<Rightarrow> snd (nc_Disconnect nc (ts_env s)))\<rparr>"
    by (simp only: HandleCoordinatorConnection_end_def option.inject option.distinct split: if_split_asm)
  then show ?thesis using inv by (simp add: node_inv_defs)
qed

lemma StopAcceptingConnections_inv: "node_inv s \<Longrightarrow> node_inv (StopAcceptingConnections s)"
  by (simp add: StopAcceptingConnections_def node_inv_defs)

lemma node_step_inv: "node_step s s' \<Longrightarrow> node_inv s \<Longrightarrow> node_inv s'"
  by (erule node_stepE)
    (blast dest: ConnectionLoop_step_inv ReceiveLoop_step_inv SendLoop_step_inv Stop_step_inv
      HandleCoordinatorConnection_end_inv
      intro: finish_task_inv drop_task_inv StopAcceptingConnections_inv)+

text \<open>
  A server as \<open>NodeServer\<close> and the program bring it up: constructed, initialised, given its
  callback and its security settings, started.
\<close>

inductive tcp_started :: "string \<Rightarrow> node_server \<Rightarrow> bool" where
  "\<lbrakk>NodeTcpServer_new address port n e = Inr s0;
    Tcp_Initialize w cert key sock address_ok bind_ok queue_size s0 = (Inr True, s1);
    Tcp_Start listen_ok
      (EnableKernelFirewall fw (SetTrustedCoordinator ip (SetMessageHandler h s1))) = (True, s)\<rbrakk> \<Longrightarrow> tcp_started ip s"

lemma tcp_started_inv: "tcp_started ip s \<Longrightarrow> node_inv s \<and> ts_security s = \<lparr>sc_trusted = ip, sc_strict = True\<rparr>"
  by (erule tcp_started.cases)
    (auto simp: NodeTcpServer_new_def Tcp_Initialize_def Tcp_Start_def SetMessageHandler_def
      SetTrustedCoordinator_def EnableKernelFirewall_def SecurityConfig_default_def Let_def node_inv_defs
      ThreadSafeQueue_def split: if_splits sum.splits)

text \<open>No step of the running server changes its access control.\<close>

lemma push_response_security [simp]: "ts_security (push_response i m s) = ts_security s"
  by (simp add: push_response_def split: option.splits prod.splits)

lemma ForceClose_security [simp]: "ts_security (ForceCloseExistingConnection s) = ts_security s"
  by (simp add: ForceCloseExistingConnection_def split: option.splits)

lemma submit_request_security [simp]:
  "ts_security (submit_request r m (touch_request now s)) = ts_security s"
  by (simp add: submit_request_def touch_request_def Let_def split: sum.splits exn.splits)

lemma message_security:
  "Node_ReceiveMessage s = Some (x, s') \<Longrightarrow> ts_security s' = ts_security s"
  "Node_SendMessage m s = Some (y, s') \<Longrightarrow> ts_security s' = ts_security s"
  by (auto simp: Node_ReceiveMessage_def Node_SendMessage_def put_tls_def split: option.splits sum.splits)

lemma ReceiveLoop_step_security: "ReceiveLoop_step now r s = Some s' \<Longrightarrow> ts_security s' = ts_security s"
  by (auto simp: ReceiveLoop_step_def dest!: message_security
      split: loop_pc.splits option.splits sum.splits if_splits)

lemma SendLoop_step_security: "SendLoop_step now s = Some s' \<Longrightarrow> ts_security s' = ts_security s"
  by (auto simp: SendLoop_step_def touch_response_def Let_def dest!: message_security
      split: loop_pc.splits option.splits sum.splits bool.splits if_splits QueueResult.splits)

lemma ConnectionLoop_step_security:
  "ConnectionLoop_step sock ip port created fd_ok err_text now s = Some s' \<Longrightarrow> ts_security s' = ts_security s"
  by (auto simp: ConnectionLoop_step_def HandleCoordinatorConnection_start_def Let_def
      split: option.splits bool.splits if_splits)

lemma node_step_security: "node_step s s' \<Longrightarrow> ts_security s' = ts_security s"
  by (erule node_stepE)
    (auto simp: HandleCoordinatorConnection_end_def StopAcceptingConnections_def finish_task_def
      drop_task_def Stop_step_def
      dest: ReceiveLoop_step_security SendLoop_step_security ConnectionLoop_step_security
      split: if_splits)

lemma node_reachable:
  assumes "tcp_started ip s0" and "node_step\<^sup>*\<^sup>* s0 s"
  shows "node_inv s \<and> ts_security s = \<lparr>sc_trusted = ip, sc_strict = True\<rparr>"
  using assms(2)
proof (induction rule: rtranclp_induct)
  case base
  then show ?case using tcp_started_inv [OF assms(1)] .
next
  case (step s s')
  then show ?case using node_step_inv node_step_security by simp
qed

section \<open>The properties of the running server\<close>


text \<open>
  C7. Only the trusted coordinator is ever served: the connection that a started server holds
  comes from the configured address, and a connection from any other address is closed without
  a TLS handshake, a byte read or any other change of the state.
\<close>

theorem node_trusts_only_coordinator:
  assumes "tcp_started ip s0" and "node_step\<^sup>*\<^sup>* s0 s"
  shows "(\<forall>nc. ts_conn s = Some nc \<longrightarrow> nc_address nc = ip)
    \<and> (ip' \<noteq> ip \<and> ConnectionLoop_step sock ip' port created fd_ok err_text now s = Some s' \<and> ts_running s \<longrightarrow>
         s' = s \<or> s' = s\<lparr>ts_closed := ts_closed s @ [sock]\<rparr>)"
proof -
  have inv: "node_inv s" and sec: "ts_security s = \<lparr>sc_trusted = ip, sc_strict = True\<rparr>"
    using node_reachable [OF assms] by simp_all
  have "s' = s \<or> s' = s\<lparr>ts_closed := ts_closed s @ [sock]\<rparr>"
    if "ip' \<noteq> ip" "ConnectionLoop_step sock ip' port created fd_ok err_text now s = Some s'" "ts_running s"
  proof -
    have "\<not> IsAuthorized ip' s" using that(1) sec by (simp add: IsAuthorized_def IsAllowed_def)
    with that(2,3) show ?thesis
      unfolding ConnectionLoop_step_def by (auto simp only: option.inject option.distinct split: if_split_asm)
  qed
  then show ?thesis using inv sec by (auto simp: node_inv_def guarded_def IsAllowed_def)
qed

text \<open>A concrete server, for the inputs of the theorems.\<close>

definition demo_material :: tls_material where
  "demo_material = \<lparr>tm_initialize = True, tm_get_string = (\<lambda>k. Inr k), tm_read_file = (\<lambda>f. Inr f),
     tm_get_secret = (\<lambda>k. Inr ''key''), tm_load_ca = (\<lambda>_. True), tm_load_certificate = (\<lambda>_ _. True)\<rparr>"

definition demo_env :: tls_env where
  "demo_env = idle_env\<lparr>te_clock := [10, 11, 12], te_handshakes := [Progress 0],
     te_reads := [Failed SSL_ERROR_ZERO_RETURN]\<rparr>"

definition demo_server :: node_server where
  "demo_server = \<lparr>ts_server_socket = 3, ts_bind_address = ''0.0.0.0'', ts_bind_port = 9000,
     ts_running = True, ts_initialized = True, ts_accepting = True, ts_conn = None,
     ts_security = \<lparr>sc_trusted = ''10.0.0.1'', sc_strict = True\<rparr>, ts_handler = Some (\<lambda>m. Inr m),
     ts_num_threads = 2, ts_pool_stopped = Some False, ts_tasks = {#},
     ts_queue = Some \<lparr>q_items = [], q_max_size = 200, q_shutdown = False\<rparr>, ts_firewall = False,
     ts_total_received = 0, ts_total_sent = 0, ts_total_processed = 0, ts_handler_errors = 0,
     ts_conn_pc = C_accepting, ts_recv_pc = L_off, ts_send_pc = L_off, ts_stop_stage = 0, ts_env = demo_env,
     ts_closed = [], ts_received = [], ts_sent = [], ts_dropped = [], ts_extra = []\<rparr>"

lemma demo_server_started: "tcp_started ''10.0.0.1'' demo_server"
proof (rule tcp_started.intros)
  let ?new = "demo_server\<lparr>ts_server_socket := INVALID_SOCKET_VALUE, ts_running := False, ts_initialized := False,
     ts_security := SecurityConfig_default, ts_handler := None, ts_pool_stopped := None, ts_queue := None,
     ts_conn_pc := C_off\<rparr>"
  let ?ready = "?new\<lparr>ts_server_socket := 3, ts_initialized := True, ts_pool_stopped := Some False,
     ts_queue := Some \<lparr>q_items = [], q_max_size = 200, q_shutdown = False\<rparr>\<rparr>"
  show "NodeTcpServer_new ''0.0.0.0'' 9000 2 demo_env = Inr ?new"
    by (simp add: NodeTcpServer_new_def demo_server_def)
  show "Tcp_Initialize demo_material ''c'' ''k'' 3 True True (Inr 100) ?new = (Inr True, ?ready)"
    by (simp add: Tcp_Initialize_def Server_InitializeTlsContext_def load_material_def demo_material_def
        ThreadSafeQueue_def demo_server_def INVALID_SOCKET_VALUE_def)
  show "Tcp_Start True (EnableKernelFirewall False (SetTrustedCoordinator ''10.0.0.1''
      (SetMessageHandler (Some (\<lambda>m. Inr m)) ?ready))) = (True, demo_server)"
    by (simp add: Tcp_Start_def demo_server_def EnableKernelFirewall_def SetTrustedCoordinator_def
        SetMessageHandler_def SecurityConfig_default_def)
qed


theorem node_trusts_only_coordinator_witness:
  "ConnectionLoop_step 7 ''10.9.9.9'' 40000 (Some 1) True (\<lambda>_. '''') 0 demo_server
     = Some (demo_server\<lparr>ts_closed := [7]\<rparr>)
   \<and> (demo_server\<lparr>ts_closed := [7]\<rparr> = demo_server \<or>
      demo_server\<lparr>ts_closed := [7]\<rparr> = demo_server\<lparr>ts_closed := ts_closed demo_server @ [7]\<rparr>)"
proof -
  have step: "ConnectionLoop_step 7 ''10.9.9.9'' 40000 (Some 1) True (\<lambda>_. '''') 0 demo_server
     = Some (demo_server\<lparr>ts_closed := [7]\<rparr>)"
    by (simp add: ConnectionLoop_step_def IsAuthorized_def IsAllowed_def demo_server_def INVALID_SOCKET_VALUE_def)
  moreover have "ts_running demo_server" by (simp add: demo_server_def)
  ultimately have "demo_server\<lparr>ts_closed := [7]\<rparr> = demo_server \<or>
      demo_server\<lparr>ts_closed := [7]\<rparr> = demo_server\<lparr>ts_closed := ts_closed demo_server @ [7]\<rparr>"
    by (intro node_trusts_only_coordinator [OF demo_server_started rtranclp.rtrancl_refl, THEN conjunct2, THEN mp]
        conjI) simp_all
  with step show ?thesis by (rule conjI)
qed

text \<open>
  The coordinator is gone and nothing is in flight: the receive loop has returned, the send
  loop waits in its \<open>Pop\<close>, no task and no response is left, and nobody has called \<open>Stop\<close>.
\<close>

definition lost_connection :: "node_server \<Rightarrow> bool" where
  "lost_connection s \<longleftrightarrow> ts_conn_pc s = C_serving \<and> ts_recv_pc s = L_done \<and> ts_send_pc s = L_io
     \<and> ts_tasks s = {#}
     \<and> (case ts_queue s of None \<Rightarrow> False | Some q \<Rightarrow> q_items q = [] \<and> \<not> q_shutdown q)"

lemma lost_connection_step:
  "lost_connection s \<Longrightarrow> node_step s s' \<Longrightarrow> s' = StopAcceptingConnections s \<or> Stop_step s = Some s'"
proof -
  assume lost: "lost_connection s" and step: "node_step s s'"
  then obtain q where q: "ts_queue s = Some q" "q_items q = []" "\<not> q_shutdown q"
    by (auto simp: lost_connection_def split: option.splits)
  then have "Pop q = None" by (simp add: Pop_None_iff)
  with lost q have "SendLoop_step now s = None" for now
    by (simp add: lost_connection_def SendLoop_step_def)
  moreover from lost have "ConnectionLoop_step sock ip port created fd_ok err_text now s = None"
    "HandleCoordinatorConnection_end s = None" "ReceiveLoop_step now r s = None" "ts_tasks s = {#}"
    for sock ip port created fd_ok err_text now r
    by (simp_all add: lost_connection_def ConnectionLoop_step_def HandleCoordinatorConnection_end_def
        ReceiveLoop_step_def)
  ultimately show ?thesis using step by (elim node_stepE) auto
qed

text \<open>
  Such a state is reached: the demonstration server accepts its coordinator, whose connection
  is then closed by the peer before any request.
\<close>

definition demo_serving :: node_server where
  "demo_serving = the (ConnectionLoop_step 7 ''10.0.0.1'' 40000 (Some 1) True (\<lambda>_. '''') 0 demo_server)"

definition demo_reading :: node_server where
  "demo_reading = the (ReceiveLoop_step 0 (Inr ()) demo_serving)"

definition demo_closed :: node_server where
  "demo_closed = the (ReceiveLoop_step 0 (Inr ()) demo_reading)"

definition demo_lost :: node_server where
  "demo_lost = the (SendLoop_step 0 demo_closed)"

lemma the_step: "\<not> Option.is_none x \<Longrightarrow> x = Some (the x)"
  by (cases x) simp_all

lemma demo_lost_reached: "node_step\<^sup>*\<^sup>* demo_server demo_lost \<and> lost_connection demo_lost"
proof -
  have "\<not> Option.is_none (ConnectionLoop_step 7 ''10.0.0.1'' 40000 (Some 1) True (\<lambda>_. '''') 0 demo_server)"
    by code_simp
  then have "node_step demo_server demo_serving"
    unfolding demo_serving_def by (rule ns_connection [OF the_step])
  moreover have "\<not> Option.is_none (ReceiveLoop_step 0 (Inr ()) demo_serving)" by code_simp
  then have "node_step demo_serving demo_reading"
    unfolding demo_reading_def by (rule ns_receive [OF the_step])
  moreover have "\<not> Option.is_none (ReceiveLoop_step 0 (Inr ()) demo_reading)" by code_simp
  then have "node_step demo_reading demo_closed"
    unfolding demo_closed_def by (rule ns_receive [OF the_step])
  moreover have "\<not> Option.is_none (SendLoop_step 0 demo_closed)" by code_simp
  then have "node_step demo_closed demo_lost"
    unfolding demo_lost_def by (rule ns_send [OF the_step])
  moreover have "lost_connection demo_lost" by code_simp
  ultimately show ?thesis by (meson rtranclp.rtrancl_into_rtrancl rtranclp.rtrancl_refl)
qed

text \<open>
  C31. A defect: when the coordinator's connection is lost while nothing is in flight, the
  server stays in the lost connection for ever. The connection thread waits for the send
  loop, the send loop waits in a \<open>Pop\<close> that nobody ends, and no step of the server changes
  anything except \<open>Stop\<close> (or the flag that forbids new connections), so the coordinator can
  never connect again. The state is reached by a started server whose coordinator connects
  and closes.
\<close>

theorem node_deaf_after_lost_connection:
  "(lost_connection s \<and> node_step s s' \<and> Stop_step s \<noteq> Some s' \<longrightarrow>
      s' = StopAcceptingConnections s \<and> lost_connection s')
   \<and> (lost_connection s \<longrightarrow> ConnectionLoop_step sock ip port created fd_ok err_text now s = None)
   \<and> (\<exists>s0 t. tcp_started ''10.0.0.1'' s0 \<and> node_step\<^sup>*\<^sup>* s0 t \<and> lost_connection t \<and> ts_running t)"
proof (intro conjI impI)
  assume "lost_connection s \<and> node_step s s' \<and> Stop_step s \<noteq> Some s'"
  then show "s' = StopAcceptingConnections s" using lost_connection_step by blast
  with \<open>lost_connection s \<and> node_step s s' \<and> Stop_step s \<noteq> Some s'\<close> show "lost_connection s'"
    by (simp add: lost_connection_def StopAcceptingConnections_def)
next
  assume "lost_connection s"
  then show "ConnectionLoop_step sock ip port created fd_ok err_text now s = None"
    by (simp add: lost_connection_def ConnectionLoop_step_def)
next
  have "ts_running demo_lost" by code_simp
  then show "\<exists>s0 t. tcp_started ''10.0.0.1'' s0 \<and> node_step\<^sup>*\<^sup>* s0 t \<and> lost_connection t \<and> ts_running t"
    using demo_lost_reached demo_server_started by blast
qed

theorem node_deaf_after_lost_connection_witness:
  "ConnectionLoop_step 8 ''10.0.0.1'' 40001 (Some 2) True (\<lambda>_. '''') 5 demo_lost = None"
  using node_deaf_after_lost_connection [of demo_lost] demo_lost_reached by blast

end
