(* ===== verification/Proto_Messages.thy ===== *)
theory Proto_Messages
  imports Prelude
begin

text \<open>
  The messages declared in \<open>src/proto/coordinator_node\<close> and \<open>src/proto/wallet_coordinator\<close>, as
  the records that the generated classes offer: a field of message type may be absent, and an
  accessor of an absent one reads its default. The wire format belongs to the protobuf
  library: \<open>SerializeToString\<close> and \<open>ParseFromArray\<close> are parameters of the definitions that
  use them, and \<open>proto_codec\<close> is the documented contract that what was serialised is parsed
  back.
\<close>

section \<open>Coordinator and node\<close>

record RequestHeader =
  rq_uid :: string
  rq_send_time :: string
  rq_request_id :: u64

record ResponseHeader =
  rs_success :: bool
  rs_error_message :: string
  rs_request_id :: u64

record SigningRequest =
  sq_header :: "RequestHeader option"
  sq_key_id :: string
  sq_transaction_data :: string
  sq_threshold :: u32
  sq_total_shards :: u32

record SigningResponse =
  sr_header :: "ResponseHeader option"
  sr_key_id :: string
  sr_signature :: string
  sr_shard_index :: u32

datatype node_payload = Signing_request SigningRequest | Signing_response SigningResponse

text \<open>\<open>message_type\<close> is a signed 32-bit number.\<close>

record CoordinatorNodeMessage =
  cm_message_type :: u32
  cm_payload :: "node_payload option"

definition CoordinatorNodeMessage_default :: CoordinatorNodeMessage where
  "CoordinatorNodeMessage_default = \<lparr>cm_message_type = 0, cm_payload = None\<rparr>"

definition RequestHeader_default :: RequestHeader where
  "RequestHeader_default = \<lparr>rq_uid = '''', rq_send_time = '''', rq_request_id = 0\<rparr>"

fun signing_request_of :: "node_payload option \<Rightarrow> SigningRequest option" where
  "signing_request_of (Some (Signing_request r)) = Some r"
| "signing_request_of _ = None"

fun signing_response_of :: "node_payload option \<Rightarrow> SigningResponse option" where
  "signing_response_of (Some (Signing_response r)) = Some r"
| "signing_response_of _ = None"

definition sq_request_id :: "SigningRequest \<Rightarrow> u64" where
  "sq_request_id r = rq_request_id (case sq_header r of None \<Rightarrow> RequestHeader_default | Some h \<Rightarrow> h)"

section \<open>Wallet and coordinator\<close>

record WalletRequestHeader =
  wq_message_type :: u32
  wq_request_id :: string
  wq_timestamp :: string
  wq_coordinator_id :: string

record WalletResponseHeader =
  ws_message_type :: u32
  ws_success :: bool
  ws_error_message :: string
  ws_request_id :: string
  ws_timestamp :: string

record WalletSigningRequest =
  wsq_header :: "WalletRequestHeader option"
  wsq_key_id :: string
  wsq_transaction_data :: string
  wsq_threshold :: u32
  wsq_total_shards :: u32
  wsq_required_shards :: "string list"

record WalletSigningResponse =
  wsr_header :: "WalletResponseHeader option"
  wsr_key_id :: string
  wsr_final_signature :: string
  wsr_shard_signatures :: "string list"
  wsr_successful_shards :: u32

datatype wallet_payload =
    Wallet_signing_request WalletSigningRequest
  | Wallet_signing_response WalletSigningResponse

record WalletCoordinatorMessage =
  wm_message_type :: u32
  wm_payload :: "wallet_payload option"

fun wallet_signing_request_of :: "wallet_payload option \<Rightarrow> WalletSigningRequest option" where
  "wallet_signing_request_of (Some (Wallet_signing_request r)) = Some r"
| "wallet_signing_request_of _ = None"

definition WalletRequestHeader_default :: WalletRequestHeader where
  "WalletRequestHeader_default =
     \<lparr>wq_message_type = 0, wq_request_id = '''', wq_timestamp = '''', wq_coordinator_id = ''''\<rparr>"

definition wsq_header_or_default :: "WalletSigningRequest \<Rightarrow> WalletRequestHeader" where
  "wsq_header_or_default r = (case wsq_header r of None \<Rightarrow> WalletRequestHeader_default | Some h \<Rightarrow> h)"

section \<open>The contract of the protobuf library\<close>

definition proto_codec :: "('m \<Rightarrow> string option) \<Rightarrow> (bytes \<Rightarrow> 'm option) \<Rightarrow> bool" where
  "proto_codec serialize parse \<longleftrightarrow>
     (\<forall>m s. serialize m = Some s \<longrightarrow> parse (bytes_of_string s) = Some m)"

lemma proto_codecD: "proto_codec serialize parse \<Longrightarrow> serialize m = Some s \<Longrightarrow> parse (bytes_of_string s) = Some m"
  by (simp add: proto_codec_def)

end
