(* ===== verification/Routers.thy ===== *)
theory Routers
  imports Proto_Messages Basic_Types
begin

text \<open>
  The three message routers and their handlers: \<open>NodeMessageRouter\<close> and
  \<open>NodeHandleSigningRequest\<close> (\<open>src/node/handlers\<close>), \<open>MessageRouter\<close> and \<open>HandleSigningRequest\<close>
  (\<open>src/coordinator/handlers/node\<close>), \<open>WalletMessageRouter\<close> and \<open>HandleWalletSigningRequest\<close>
  (\<open>src/coordinator/handlers/wallet\<close>). A router is its flag and its array of handlers. An
  access the language leaves undefined (a null reference, an index outside of the array) is
  the value \<open>Undefined\<close>. The handlers' \<open>catch\<close> branches need an exception that only an
  allocation failure could raise and are not modelled.
\<close>

section \<open>The signing handlers\<close>

text \<open>
  The reading of the clock is an argument. Both handlers of the node protocol build the same
  response from different signature prefixes.
\<close>

definition signing_success :: "string \<Rightarrow> u64 \<Rightarrow> SigningRequest \<Rightarrow> CoordinatorNodeMessage" where
  "signing_success prefix now req =
     \<lparr>cm_message_type = word_of_nat (MessageType_value SIGNING_REQUEST),
      cm_payload = Some (Signing_response
        \<lparr>sr_header = Some \<lparr>rs_success = True, rs_error_message = '''', rs_request_id = sq_request_id req\<rparr>,
         sr_key_id = sq_key_id req,
         sr_signature = prefix @ sq_key_id req @ ''_'' @ to_string (unat now),
         sr_shard_index = 0\<rparr>)\<rparr>"

definition NodeHandleSigningRequest ::
  "u64 \<Rightarrow> CoordinatorNodeMessage \<Rightarrow> CoordinatorNodeMessage option" where
  "NodeHandleSigningRequest now request =
     map_option (signing_success ''NODE_MOCK_SIGNATURE_'' now) (signing_request_of (cm_payload request))"

definition HandleSigningRequest ::
  "u64 \<Rightarrow> CoordinatorNodeMessage \<Rightarrow> CoordinatorNodeMessage option" where
  "HandleSigningRequest now request =
     map_option (signing_success ''MOCK_SIGNATURE_'' now) (signing_request_of (cm_payload request))"

text \<open>One mock signature per shard, then the final one; the clock is read each time.\<close>

definition shard_signature :: "(nat \<Rightarrow> u64) \<Rightarrow> string \<Rightarrow> nat \<Rightarrow> string" where
  "shard_signature clock key i =
     ''0xMOCK_SHARD_'' @ to_string i @ ''_'' @ key @ ''_'' @ to_string (unat (clock (i + 1)))"

definition HandleWalletSigningRequest ::
  "(nat \<Rightarrow> u64) \<Rightarrow> WalletCoordinatorMessage option \<Rightarrow> WalletCoordinatorMessage option" where
  "HandleWalletSigningRequest clock request =
     (case request of
        None \<Rightarrow> None
      | Some msg \<Rightarrow>
          (case wallet_signing_request_of (wm_payload msg) of
             None \<Rightarrow> None
           | Some req \<Rightarrow>
               (let h = wsq_header_or_default req; n = unat (wsq_total_shards req) in
                Some \<lparr>wm_message_type = wq_message_type h,
                  wm_payload = Some (Wallet_signing_response
                    \<lparr>wsr_header = Some \<lparr>ws_message_type = wq_message_type h, ws_success = True,
                         ws_error_message = '''', ws_request_id = wq_request_id h,
                         ws_timestamp = to_string (unat (clock 0))\<rparr>,
                     wsr_key_id = wsq_key_id req,
                     wsr_final_signature = ''0xMOCK_FINAL_SIG_'' @ wsq_key_id req @ ''_''
                       @ to_string (unat (clock (n + 1))),
                     wsr_shard_signatures = map (shard_signature clock (wsq_key_id req)) [0..<n],
                     wsr_successful_shards = wsq_total_shards req\<rparr>)\<rparr>)))"

section \<open>The routers\<close>

type_synonym ('q, 'r) handler_table = "('q \<Rightarrow> 'r option) option list"

record ('q, 'r) router =
  mr_initialized :: bool
  mr_handlers :: "('q, 'r) handler_table"

definition router_new :: "nat \<Rightarrow> ('q, 'r) router" where
  "router_new n = \<lparr>mr_initialized = False, mr_handlers = replicate n None\<rparr>"

definition NodeMessageRouter_Initialize ::
  "u64 \<Rightarrow> (CoordinatorNodeMessage, CoordinatorNodeMessage) router
     \<Rightarrow> bool \<times> (CoordinatorNodeMessage, CoordinatorNodeMessage) router" where
  "NodeMessageRouter_Initialize now r =
     (if mr_initialized r then (True, r)
      else (True, r\<lparr>mr_handlers := (mr_handlers r)[MessageType_value SIGNING_REQUEST :=
                Some (NodeHandleSigningRequest now)], mr_initialized := True\<rparr>))"

definition MessageRouter_Initialize ::
  "u64 \<Rightarrow> (CoordinatorNodeMessage, CoordinatorNodeMessage) router
     \<Rightarrow> bool \<times> (CoordinatorNodeMessage, CoordinatorNodeMessage) router" where
  "MessageRouter_Initialize now r =
     (if mr_initialized r then (True, r)
      else (True, r\<lparr>mr_handlers := (mr_handlers r)[MessageType_value SIGNING_REQUEST :=
                Some (HandleSigningRequest now)], mr_initialized := True\<rparr>))"

definition WalletMessageRouter_Initialize ::
  "(nat \<Rightarrow> u64) \<Rightarrow> (WalletCoordinatorMessage, WalletCoordinatorMessage) router
     \<Rightarrow> bool \<times> (WalletCoordinatorMessage, WalletCoordinatorMessage) router" where
  "WalletMessageRouter_Initialize clock r =
     (if mr_initialized r then (True, r)
      else (True, r\<lparr>mr_handlers := (mr_handlers r)[WalletMessageType_value W_SIGNING_REQUEST :=
                Some (\<lambda>m. HandleWalletSigningRequest clock (Some m))], mr_initialized := True\<rparr>))"

text \<open>\<open>handlers_[index](request)\<close> after the range check, with the array's real bounds.\<close>

definition dispatch :: "('q, 'r) handler_table \<Rightarrow> int \<Rightarrow> 'q \<Rightarrow> 'r option behaviour" where
  "dispatch handlers index request =
     (if index < 0 \<or> int (length handlers) \<le> index then Undefined
      else case handlers ! nat index of
             None \<Rightarrow> Returns None
           | Some h \<Rightarrow> Returns (h request))"

definition NodeMessageRouter_ProcessMessage ::
  "(CoordinatorNodeMessage, CoordinatorNodeMessage) router \<Rightarrow> CoordinatorNodeMessage option
     \<Rightarrow> CoordinatorNodeMessage option behaviour" where
  "NodeMessageRouter_ProcessMessage r request =
     (if \<not> mr_initialized r then Returns None
      else case request of
        None \<Rightarrow> Returns None
      | Some msg \<Rightarrow>
          (let index = sint (cm_message_type msg) in
           if index \<ge> int (MessageType_value MAX_MESSAGE_TYPE) then Returns None
           else dispatch (mr_handlers r) index msg))"

definition MessageRouter_ProcessMessage ::
  "(CoordinatorNodeMessage, CoordinatorNodeMessage) router \<Rightarrow> CoordinatorNodeMessage option
     \<Rightarrow> CoordinatorNodeMessage option behaviour" where
  "MessageRouter_ProcessMessage r request =
     (if \<not> mr_initialized r then Returns None
      else case request of
        None \<Rightarrow> Undefined
      | Some msg \<Rightarrow>
          (let index = sint (cm_message_type msg) in
           if index \<ge> int (MessageType_value MAX_MESSAGE_TYPE) then Returns None
           else dispatch (mr_handlers r) index msg))"

text \<open>The wallet router reads the request's type for its log line before any check.\<close>

definition WalletMessageRouter_ProcessMessage ::
  "(WalletCoordinatorMessage, WalletCoordinatorMessage) router \<Rightarrow> WalletCoordinatorMessage option
     \<Rightarrow> WalletCoordinatorMessage option behaviour" where
  "WalletMessageRouter_ProcessMessage r request =
     (case request of
        None \<Rightarrow> Undefined
      | Some msg \<Rightarrow>
          (if \<not> mr_initialized r then Returns None
           else let index = int (unat (wm_message_type msg)) in
             if index \<ge> int (WalletMessageType_value W_MAX_MESSAGE_TYPE) then Returns None
             else dispatch (mr_handlers r) index msg))"

lemma dispatch_update:
  assumes "i < n"
  shows "dispatch ((replicate n None)[i := Some h]) j m =
    (if j < 0 \<or> int n \<le> j then Undefined else Returns (if j = int i then h m else None))"
  using assms by (auto simp: dispatch_def nth_list_update)

section \<open>What every router promises\<close>

text \<open>
  An initialised router: a message of the served type goes to its handler, every other type
  that is not negative gives no response, and initialising again changes nothing.
\<close>

locale message_router =
  fixes process :: "'s \<Rightarrow> 'q option \<Rightarrow> 'r option behaviour"
    and initialize :: "'s \<Rightarrow> bool \<times> 's"
    and fresh :: 's
    and type_of :: "'q \<Rightarrow> int"
    and served :: int
    and handler :: "'q \<Rightarrow> 'r option"
  assumes uninitialized: "process fresh (Some m) = Returns None"
    and routes: "type_of m = served \<Longrightarrow> process (snd (initialize fresh)) (Some m) = Returns (handler m)"
    and ignores: "0 \<le> type_of m \<Longrightarrow> type_of m \<noteq> served \<Longrightarrow>
          process (snd (initialize fresh)) (Some m) = Returns None"
    and again: "initialize (snd (initialize fresh)) = (True, snd (initialize fresh))"
begin

lemma defined_result:
  assumes "0 \<le> type_of m"
  shows "process (snd (initialize fresh)) (Some m) = Returns (if type_of m = served then handler m else None)"
  using routes ignores assms by simp

lemma responds_only_if_served:
  assumes "0 \<le> type_of m" and "process (snd (initialize fresh)) (Some m) = Returns (Some r)"
  shows "type_of m = served \<and> handler m = Some r"
  using defined_result [OF assms(1)] assms(2) by (auto split: if_splits)

end

interpretation node_router: message_router NodeMessageRouter_ProcessMessage
    "NodeMessageRouter_Initialize now" "router_new (MessageType_value MAX_MESSAGE_TYPE)"
    "\<lambda>m. sint (cm_message_type m)" 0 "NodeHandleSigningRequest now" for now
  by unfold_locales (auto simp: NodeMessageRouter_ProcessMessage_def NodeMessageRouter_Initialize_def
      router_new_def dispatch_def Let_def)

interpretation coordinator_router: message_router MessageRouter_ProcessMessage
    "MessageRouter_Initialize now" "router_new (MessageType_value MAX_MESSAGE_TYPE)"
    "\<lambda>m. sint (cm_message_type m)" 0 "HandleSigningRequest now" for now
  by unfold_locales (auto simp: MessageRouter_ProcessMessage_def MessageRouter_Initialize_def
      router_new_def dispatch_def Let_def)

interpretation wallet_router: message_router WalletMessageRouter_ProcessMessage
    "WalletMessageRouter_Initialize clock" "router_new (WalletMessageType_value W_MAX_MESSAGE_TYPE)"
    "\<lambda>m. int (unat (wm_message_type m))" 1001 "\<lambda>m. HandleWalletSigningRequest clock (Some m)" for clock
  by unfold_locales (simp_all add: WalletMessageRouter_ProcessMessage_def WalletMessageRouter_Initialize_def
      router_new_def dispatch_update Let_def del: of_nat_unat)

section \<open>The properties\<close>

text \<open>
  C32. The three routers on every request, with their undefined cases. An initialised router
  answers a request of its one served type with that type's handler and gives no response to
  any other type; before its initialisation it gives none at all. The index is checked only
  from above: a negative type of the node protocol is used as an index, which is undefined,
  and so is the null request for the coordinator's and the wallet's router, while the node's
  router refuses it.
\<close>

theorem router_results:
  "NodeMessageRouter_ProcessMessage (snd (NodeMessageRouter_Initialize now (router_new 1))) request =
     (case request of
        None \<Rightarrow> Returns None
      | Some m \<Rightarrow>
          (if sint (cm_message_type m) < 0 then Undefined
           else Returns (if cm_message_type m = 0 then NodeHandleSigningRequest now m else None)))
   \<and> MessageRouter_ProcessMessage (snd (MessageRouter_Initialize now (router_new 1))) request =
     (case request of
        None \<Rightarrow> Undefined
      | Some m \<Rightarrow>
          (if sint (cm_message_type m) < 0 then Undefined
           else Returns (if cm_message_type m = 0 then HandleSigningRequest now m else None)))
   \<and> WalletMessageRouter_ProcessMessage (snd (WalletMessageRouter_Initialize clock (router_new 1002))) wallet =
     (case wallet of
        None \<Rightarrow> Undefined
      | Some w \<Rightarrow>
          Returns (if wm_message_type w = 1001 then HandleWalletSigningRequest clock (Some w) else None))"
proof -
  have zero: "sint x = 0 \<longleftrightarrow> x = 0" for x :: u32
    by (rule signed_eq_0_iff)
  have node: "NodeMessageRouter_ProcessMessage (snd (NodeMessageRouter_Initialize now (router_new 1))) (Some m) =
      (if sint (cm_message_type m) < 0 then Undefined
       else Returns (if cm_message_type m = 0 then NodeHandleSigningRequest now m else None))" for m
    using dispatch_update [of 0 1 "NodeHandleSigningRequest now" "sint (cm_message_type m)" m]
    by (simp add: NodeMessageRouter_ProcessMessage_def NodeMessageRouter_Initialize_def router_new_def Let_def zero)
  have coord: "MessageRouter_ProcessMessage (snd (MessageRouter_Initialize now (router_new 1))) (Some m) =
      (if sint (cm_message_type m) < 0 then Undefined
       else Returns (if cm_message_type m = 0 then HandleSigningRequest now m else None))" for m
    using dispatch_update [of 0 1 "HandleSigningRequest now" "sint (cm_message_type m)" m]
    by (simp add: MessageRouter_ProcessMessage_def MessageRouter_Initialize_def router_new_def Let_def zero)
  have w: "int (unat x) = 1001 \<longleftrightarrow> x = 1001" for x :: u32
  proof
    assume "int (unat x) = 1001"
    then have "unat x = 1001" by linarith
    moreover have "unat (1001 :: u32) = 1001" by simp
    ultimately have "unat x = unat (1001 :: u32)" by (simp only:)
    then show "x = 1001" by (simp only: word_unat_eq_iff)
  qed simp
  have wallet: "WalletMessageRouter_ProcessMessage (snd (WalletMessageRouter_Initialize clock (router_new 1002))) (Some x) =
      Returns (if wm_message_type x = 1001 then HandleWalletSigningRequest clock (Some x) else None)" for x
    using dispatch_update [of 1001 1002 "\<lambda>m. HandleWalletSigningRequest clock (Some m)" "int (unat (wm_message_type x))" x]
      w [of "wm_message_type x"]
    by (simp add: WalletMessageRouter_ProcessMessage_def WalletMessageRouter_Initialize_def router_new_def Let_def
        del: of_nat_unat)
  show ?thesis
    using node coord wallet
    by (auto simp: NodeMessageRouter_ProcessMessage_def NodeMessageRouter_Initialize_def
        MessageRouter_ProcessMessage_def MessageRouter_Initialize_def
        WalletMessageRouter_ProcessMessage_def router_new_def split: option.splits)
qed



end
