(* ===== verification/Node_Server.thy ===== *)
theory Node_Server
  imports Node_Tcp_Server Routers
begin

text \<open>
  The node's server object, \<open>src/node/NodeServer.cpp\<close>: its configuration and lifecycle around
  the TCP server, and \<open>ProcessMessage\<close>, the handler that the TCP server calls, which parses
  the protobuf body, routes it and serialises the answer. Parsing and serialising are the
  parameters \<open>parse\<close> and \<open>serialize\<close>. The router is the singleton's state.
\<close>

section \<open>Configuration\<close>

record NodeConfig =
  nf_node_id :: string
  nf_platform_type :: PlatformType
  nf_bind_address :: string
  nf_bind_port :: u16
  nf_certificate_path :: string
  nf_private_key_id :: string

definition NodeConfig_default :: NodeConfig where
  "NodeConfig_default = \<lparr>nf_node_id = '''', nf_platform_type = LOCAL, nf_bind_address = ''127.0.0.1'',
     nf_bind_port = 8081, nf_certificate_path = '''', nf_private_key_id = ''''\<rparr>"

definition NodeConfig_IsValid :: "NodeConfig \<Rightarrow> bool" where
  "NodeConfig_IsValid c \<longleftrightarrow> nf_node_id c \<noteq> [] \<and> nf_platform_type c \<noteq> UNKNOWN
     \<and> nf_bind_port c > 0 \<and> nf_bind_address c \<noteq> []"

section \<open>Conversions\<close>

type_synonym node_router_state = "(CoordinatorNodeMessage, CoordinatorNodeMessage) router"

definition NetworkMessageToProto ::
  "(bytes \<Rightarrow> CoordinatorNodeMessage option) \<Rightarrow> NetworkMessage \<Rightarrow> CoordinatorNodeMessage option" where
  "NetworkMessageToProto parse message =
     (if nm_body message \<noteq> [] then parse (nm_body message) else Some CoordinatorNodeMessage_default)"

text \<open>The default header with type, length and checksum set, as the code fills it in.\<close>

definition proto_frame :: "u32 \<Rightarrow> string \<Rightarrow> NetworkMessage" where
  "proto_frame message_type serialized =
     (let body = bytes_of_string serialized in
      \<lparr>nm_header = MessageHeader_default\<lparr>mh_message_type := ucast message_type,
          mh_body_length := word_of_nat (length serialized), mh_checksum := ComputeChecksum body\<rparr>,
       nm_body = body\<rparr>)"

definition ProtoToNetworkMessage ::
  "(CoordinatorNodeMessage \<Rightarrow> string option) \<Rightarrow> CoordinatorNodeMessage option \<Rightarrow> exn + NetworkMessage" where
  "ProtoToNetworkMessage serialize proto_msg =
     (case proto_msg of
        None \<Rightarrow> Inl (Invalid_argument ''Proto message is null'')
      | Some m \<Rightarrow>
          (case serialize m of
             None \<Rightarrow> Inl (Runtime_error ''Failed to serialize protobuf message'')
           | Some s \<Rightarrow> Inr (proto_frame (cm_message_type m) s)))"

definition Node_CreateErrorResponse :: "u16 \<Rightarrow> string \<Rightarrow> NetworkMessage" where
  "Node_CreateErrorResponse message_type error_message =
     NetworkMessage_string message_type (''success=false|error='' @ error_message)"

text \<open>
  The text that \<open>what()\<close> adds to the error response is the exception's own.
\<close>

definition NodeServer_ProcessMessage ::
  "(bytes \<Rightarrow> CoordinatorNodeMessage option) \<Rightarrow> (CoordinatorNodeMessage \<Rightarrow> string option)
     \<Rightarrow> node_router_state \<Rightarrow> NetworkMessage \<Rightarrow> NetworkMessage behaviour" where
  "NodeServer_ProcessMessage parse serialize router message =
     (let type = mh_message_type (nm_header message) in
      case NetworkMessageToProto parse message of
        None \<Rightarrow> Returns (Node_CreateErrorResponse type ''Invalid protobuf format'')
      | Some request \<Rightarrow>
          (case NodeMessageRouter_ProcessMessage router (Some request) of
             Undefined \<Rightarrow> Undefined
           | Returns None \<Rightarrow> Returns (Node_CreateErrorResponse type ''No response generated'')
           | Returns (Some response) \<Rightarrow>
               (case ProtoToNetworkMessage serialize (Some response) of
                  Inl e \<Rightarrow> Returns (Node_CreateErrorResponse type (''Processing failed: '' @ exn_what e))
                | Inr m \<Rightarrow> Returns m)))"

section \<open>Lifecycle\<close>

record NodeServer =
  nv_config :: NodeConfig
  nv_running :: bool
  nv_initialized :: bool
  nv_start_time :: u64
  nv_tcp :: "node_server option"
  nv_router :: node_router_state

definition NodeServer_new :: "NodeConfig \<Rightarrow> u64 \<Rightarrow> node_router_state \<Rightarrow> NodeServer" where
  "NodeServer_new config now router =
     (let s = \<lparr>nv_config = NodeConfig_default, nv_running = False, nv_initialized = False,
                nv_start_time = 0, nv_tcp = None, nv_router = router\<rparr> in
      if \<not> NodeConfig_IsValid config then s
      else s\<lparr>nv_config := config, nv_start_time := now\<rparr>)"

text \<open>
  The connected and disconnected handlers that the code installs besides only write to the log.
\<close>

definition SetupCallbacks :: "message_handler \<Rightarrow> node_server option \<Rightarrow> node_server option" where
  "SetupCallbacks handler tcp_server =
     (case tcp_server of
        None \<Rightarrow> None
      | Some tcp \<Rightarrow> Some (SetMessageHandler (Some handler) tcp))"

text \<open>
  The results of the system calls inside the TCP server's own \<open>Initialize\<close> are arguments, and
  \<open>handler\<close> is the callback that \<open>SetupCallbacks\<close> installs.
\<close>

definition NodeServer_Initialize ::
  "(string \<Rightarrow> exn + u16) \<Rightarrow> tls_material \<Rightarrow> int \<Rightarrow> bool \<Rightarrow> bool \<Rightarrow> u64 \<Rightarrow> tls_env \<Rightarrow> message_handler
     \<Rightarrow> NodeServer \<Rightarrow> (exn + bool) \<times> NodeServer" where
  "NodeServer_Initialize GetUInt16 w sock address_ok bind_ok now e handler s =
     (if nv_initialized s then (Inr True, s)
      else let s1 = s\<lparr>nv_router := snd (NodeMessageRouter_Initialize now (nv_router s))\<rparr> in
        case GetUInt16 ''NODE_HANDLER_THREADS'' of
          Inl ex \<Rightarrow> (Inl ex, s1)
        | Inr threads \<Rightarrow>
            (case NodeTcpServer_new (nf_bind_address (nv_config s)) (nf_bind_port (nv_config s)) (unat threads) e of
               Inl ex \<Rightarrow> (Inl ex, s1)
             | Inr tcp \<Rightarrow>
                 (case Tcp_Initialize w (nf_certificate_path (nv_config s)) (nf_private_key_id (nv_config s))
                         sock address_ok bind_ok (GetUInt16 ''NODE_SEND_QUEUE_SIZE_PER_HANDLER_THREAD'') tcp of
                    (Inl ex, tcp') \<Rightarrow> (Inl ex, s1\<lparr>nv_tcp := Some tcp'\<rparr>)
                  | (Inr False, tcp') \<Rightarrow> (Inr False, s1\<lparr>nv_tcp := Some tcp'\<rparr>)
                  | (Inr True, tcp') \<Rightarrow>
                      (Inr True, s1\<lparr>nv_tcp := SetupCallbacks handler (Some tcp'),
                         nv_initialized := True\<rparr>))))"

definition NodeServer_Start :: "bool \<Rightarrow> NodeServer \<Rightarrow> bool \<times> NodeServer" where
  "NodeServer_Start listen_ok s =
     (if \<not> nv_initialized s \<or> nv_running s then (False, s)
      else case nv_tcp s of
        None \<Rightarrow> (False, s)
      | Some tcp \<Rightarrow>
          (case Tcp_Start listen_ok tcp of
             (False, tcp') \<Rightarrow> (False, s\<lparr>nv_tcp := Some tcp'\<rparr>)
           | (True, tcp') \<Rightarrow> (True, s\<lparr>nv_tcp := Some tcp', nv_running := True\<rparr>)))"

text \<open>\<open>Stop\<close>: the graceful part with 30 seconds, then the TCP server's own \<open>Stop\<close>.\<close>

definition NodeServer_Stop ::
  "(u32 \<times> nat) list \<Rightarrow> (node_server \<Rightarrow> node_server) \<Rightarrow> NodeServer \<Rightarrow> NodeServer option" where
  "NodeServer_Stop readings tcp_stop s =
     (if \<not> nv_running s then Some s
      else case nv_tcp s of
        None \<Rightarrow> Some (s\<lparr>nv_running := False\<rparr>)
      | Some tcp \<Rightarrow>
          (case PrepareShutdown 30000 readings tcp of
             None \<Rightarrow> None
           | Some (_, tcp') \<Rightarrow> Some (s\<lparr>nv_running := False, nv_tcp := Some (tcp_stop tcp')\<rparr>)))"

record NodeStats =
  nz_node_id :: string
  nz_platform_type :: PlatformType
  nz_status :: ConnectionStatus
  nz_total_requests :: u32
  nz_successful_requests :: u32
  nz_active_connections :: u32
  nz_uptime_seconds :: u64

definition NodeServer_IsRunning :: "NodeServer \<Rightarrow> bool" where
  "NodeServer_IsRunning s = nv_running s"

definition NodeServer_GetNodeId :: "NodeServer \<Rightarrow> string" where
  "NodeServer_GetNodeId s = nf_node_id (nv_config s)"

definition NodeServer_GetPlatformType :: "NodeServer \<Rightarrow> PlatformType" where
  "NodeServer_GetPlatformType s = nf_platform_type (nv_config s)"

definition NodeServer_GetStats :: "u64 \<Rightarrow> NodeServer \<Rightarrow> NodeStats" where
  "NodeServer_GetStats now s =
     \<lparr>nz_node_id = nf_node_id (nv_config s), nz_platform_type = nf_platform_type (nv_config s),
      nz_status = (if nv_running s then CONNECTED else DISCONNECTED),
      nz_total_requests = 0, nz_successful_requests = 0,
      nz_active_connections = (case nv_tcp s of None \<Rightarrow> 0 | Some tcp \<Rightarrow> if HasActiveConnection tcp then 1 else 0),
      nz_uptime_seconds = (now - nv_start_time s) div 1000\<rparr>"

section \<open>Answers\<close>

lemma proto_frame_valid: "length s \<le> 1024 * 1024 \<Longrightarrow> Validate (proto_frame t s) = OK"
  by (simp add: proto_frame_def Let_def Validate_OK_iff MessageHeader_default_def MessageHeader_new_def MAX_BODY_SIZE_def
      word_le_nat_alt unat_u32_of_nat)

lemma proto_frame_body: "nm_body (proto_frame t s) = bytes_of_string s"
  by (simp add: proto_frame_def Let_def)

lemma node_signing_reply:
  assumes "proto_codec serialize parse"
    and "router = snd (NodeMessageRouter_Initialize now (router_new 1))"
    and "cm_message_type request = 0" and "cm_payload request = Some (Signing_request req)"
    and "serialize request = Some body" and "body \<noteq> []" and "nm_body message = bytes_of_string body"
    and "serialize (signing_success ''NODE_MOCK_SIGNATURE_'' now req) = Some answer" and "answer \<noteq> []"
  shows "NodeServer_ProcessMessage parse serialize router message = Returns (proto_frame 0 answer)"
    and "NetworkMessageToProto parse (proto_frame 0 answer) = Some (signing_success ''NODE_MOCK_SIGNATURE_'' now req)"
proof -
  let ?answer = "signing_success ''NODE_MOCK_SIGNATURE_'' now req"
  have bne: "bytes_of_string body \<noteq> []" "bytes_of_string answer \<noteq> []"
    using assms(6,9) by (simp_all add: bytes_of_string_def)
  then have p: "NetworkMessageToProto parse message = Some request"
    using assms(1,5,7) by (simp add: NetworkMessageToProto_def proto_codecD)
  have "NodeMessageRouter_ProcessMessage router (Some request) = Returns (NodeHandleSigningRequest now request)"
    using node_router.routes [of request now] assms(2,3) by simp
  then have r: "NodeMessageRouter_ProcessMessage router (Some request) = Returns (Some ?answer)"
    using assms(4) by (simp add: NodeHandleSigningRequest_def)
  have t: "cm_message_type ?answer = 0" by (simp add: signing_success_def)
  show "NodeServer_ProcessMessage parse serialize router message = Returns (proto_frame 0 answer)"
    using p r t assms(8) by (simp add: NodeServer_ProcessMessage_def ProtoToNetworkMessage_def Let_def)
  show "NetworkMessageToProto parse (proto_frame 0 answer) = Some ?answer"
    using bne assms(1,8) by (simp add: NetworkMessageToProto_def proto_frame_body proto_codecD)
qed

text \<open>
  The node answers a signing request: when the body of a valid message is the serialised
  form of a signing request of the served type, \<open>ProcessMessage\<close> returns a message of type
  \<open>SIGNING_REQUEST\<close> whose body parses to a successful signing response for the same key and the
  same request id.
\<close>

theorem node_answers_signing_request:
  assumes "proto_codec serialize parse"
    and "router = snd (NodeMessageRouter_Initialize now (router_new 1))"
    and "cm_message_type request = 0" and "cm_payload request = Some (Signing_request req)"
    and "serialize request = Some body" and "body \<noteq> []" and "nm_body message = bytes_of_string body"
    and "serialize (signing_success ''NODE_MOCK_SIGNATURE_'' now req) = Some answer" and "answer \<noteq> []"
  shows "\<exists>reply resp h. NodeServer_ProcessMessage parse serialize router message = Returns reply
    \<and> mh_message_type (nm_header reply) = 0
    \<and> NetworkMessageToProto parse reply = Some \<lparr>cm_message_type = 0, cm_payload = Some (Signing_response resp)\<rparr>
    \<and> sr_header resp = Some h \<and> rs_success h \<and> rs_request_id h = sq_request_id req \<and> sr_key_id resp = sq_key_id req"
  using node_signing_reply [OF assms]
  by (auto simp: signing_success_def proto_frame_def Let_def)

theorem node_answers_signing_request_witness:
  "\<exists>serialize parse reply resp. NodeServer_ProcessMessage parse serialize
      (snd (NodeMessageRouter_Initialize 7 (router_new 1)))
      (proto_frame 0 ''q'') = Returns reply
    \<and> NetworkMessageToProto parse reply = Some \<lparr>cm_message_type = 0, cm_payload = Some (Signing_response resp)\<rparr>
    \<and> sr_key_id resp = ''key-1''"
proof -
  let ?req = "\<lparr>sq_header = Some \<lparr>rq_uid = ''u'', rq_send_time = ''t'', rq_request_id = 5\<rparr>, sq_key_id = ''key-1'',
      sq_transaction_data = ''tx'', sq_threshold = 2, sq_total_shards = 3\<rparr>"
  let ?request = "\<lparr>cm_message_type = 0, cm_payload = Some (Signing_request ?req)\<rparr>"
  let ?answer = "signing_success ''NODE_MOCK_SIGNATURE_'' 7 ?req"
  let ?ser = "\<lambda>m. if m = ?request then Some ''q'' else if m = ?answer then Some ''a'' else None"
  let ?parse = "\<lambda>b. if b = bytes_of_string ''q'' then Some ?request
      else if b = bytes_of_string ''a'' then Some ?answer else None"
  have ne: "bytes_of_string ''a'' \<noteq> bytes_of_string ''q''" "?answer \<noteq> ?request"
    by (simp_all add: bytes_of_string_def byte_of_char_def signing_success_def)
  then have "proto_codec ?ser ?parse" by (auto simp: proto_codec_def)
  from node_answers_signing_request [OF this refl, of ?request ?req "''q''" "proto_frame 0 ''q''" 7 "''a''"] ne
  show ?thesis by (auto simp: proto_frame_body)
qed
end
