(* ===== verification/Node_Tcp_Client.thy ===== *)
theory Node_Tcp_Client
  imports Message_Io Thread_Safe_Queue Tls_Material Proto_Messages "HOL-Library.Multiset"
begin

text \<open>
  The coordinator's client of one node,
  \<open>src/coordinator/network/node_client/src/NodeTcpClient.cpp\<close> with its \<open>NodeConnectionInfo\<close>:
  requests get an id and a promise in \<open>pending_requests\<close>, the send loop drains the send queue,
  the receive loop completes the promise that the response's id names. The threads and the
  callers are steps that interleave. A promise is its id; \<open>cl_resolved\<close> lists the promises
  that were completed with their outcome, \<open>cl_issued\<close> the ids handed out and \<open>cl_rejected\<close>
  those whose request could not be queued.
\<close>

section \<open>Connection information\<close>

record conn_info =
  ci_socket :: int
  ci_address :: string
  ci_port :: u16
  ci_node_id :: string
  ci_platform :: PlatformType
  ci_shard_index :: u32
  ci_certificate_path :: string
  ci_private_key_id :: string
  ci_status :: ConnectionStatus
  ci_attempt_time :: u64
  ci_last_comm :: u64
  ci_failed_attempts :: u32
  ci_timeout_ms :: u32
  ci_total_requests :: u32
  ci_successful :: u32
  ci_failed :: u32

definition ci_IsValid :: "conn_info \<Rightarrow> bool" where
  "ci_IsValid i \<longleftrightarrow> ci_socket i \<noteq> INVALID_SOCKET_VALUE \<and> ci_address i \<noteq> [] \<and> ci_port i > 0 \<and> ci_node_id i \<noteq> []"

definition ci_IsConnected :: "conn_info \<Rightarrow> bool" where
  "ci_IsConnected i \<longleftrightarrow> ci_status i = CONNECTED"

definition GetEndpoint :: "conn_info \<Rightarrow> string" where
  "GetEndpoint i = ci_address i @ '':'' @ to_string (unat (ci_port i))"

definition GetConnectionAge :: "u64 \<Rightarrow> conn_info \<Rightarrow> u64" where
  "GetConnectionAge now i = (if ci_attempt_time i = 0 then 0 else now - ci_attempt_time i)"

definition ci_Initialize :: "int \<Rightarrow> string \<Rightarrow> u16 \<Rightarrow> u64 \<Rightarrow> u64 \<Rightarrow> conn_info \<Rightarrow> conn_info" where
  "ci_Initialize sock addr p now1 now2 i =
     i\<lparr>ci_socket := sock, ci_address := addr, ci_port := p, ci_status := CONNECTED,
       ci_attempt_time := now1, ci_last_comm := now2, ci_failed_attempts := 0\<rparr>"

section \<open>The client\<close>

datatype outcome = Reply NetworkMessage | Failure string
datatype client_pc = T_off | T_check | T_io | T_done

record node_client =
  cl_info :: conn_info
  cl_initialized :: bool
  cl_connected :: bool
  cl_threads_running :: bool
  cl_tls :: "tls_conn option"
  cl_queue :: "NetworkMessage tsq option"
  cl_pending :: "u64 list"
  cl_next_id :: u64
  cl_last_used :: u64
  cl_send_pc :: client_pc
  cl_recv_pc :: client_pc
  cl_env :: tls_env
  cl_on_connected :: bool
  cl_on_disconnected :: bool
  cl_on_error :: bool
  cl_errors :: "(NetworkError \<times> string) list"
  cl_status_calls :: "(string \<times> ConnectionStatus) list"
  cl_closed :: "int list"
  cl_sending :: "(u64 \<times> CoordinatorNodeMessage) list"
  cl_issued :: "u64 list"
  cl_resolved :: "(u64 \<times> outcome) list"
  cl_rejected :: "u64 list"

definition NodeTcpClient_new ::
  "string \<Rightarrow> string \<Rightarrow> u16 \<Rightarrow> PlatformType \<Rightarrow> u32 \<Rightarrow> string \<Rightarrow> string \<Rightarrow> tls_env \<Rightarrow> node_client" where
  "NodeTcpClient_new node_id address port platform shard cert key e =
     \<lparr>cl_info = \<lparr>ci_socket = INVALID_SOCKET_VALUE, ci_address = address, ci_port = port, ci_node_id = node_id,
        ci_platform = platform, ci_shard_index = shard, ci_certificate_path = cert, ci_private_key_id = key,
        ci_status = DISCONNECTED, ci_attempt_time = 0, ci_last_comm = 0, ci_failed_attempts = 0,
        ci_timeout_ms = DEFAULT_TCP_TIMEOUT_MS, ci_total_requests = 0, ci_successful = 0, ci_failed = 0\<rparr>,
      cl_initialized = False, cl_connected = False, cl_threads_running = False, cl_tls = None,
      cl_queue = None, cl_pending = [], cl_next_id = 1, cl_last_used = 0, cl_send_pc = T_off,
      cl_recv_pc = T_off, cl_env = e, cl_on_connected = False, cl_on_disconnected = False, cl_on_error = False,
      cl_errors = [], cl_status_calls = [], cl_closed = [], cl_sending = [], cl_issued = [],
      cl_resolved = [], cl_rejected = []\<rparr>"

definition SetConnectedCallback :: "node_client \<Rightarrow> node_client" where
  "SetConnectedCallback s = s\<lparr>cl_on_connected := True\<rparr>"

definition SetDisconnectedCallback :: "node_client \<Rightarrow> node_client" where
  "SetDisconnectedCallback s = s\<lparr>cl_on_disconnected := True\<rparr>"

definition SetErrorCallback :: "node_client \<Rightarrow> node_client" where
  "SetErrorCallback s = s\<lparr>cl_on_error := True\<rparr>"

text \<open>A callback is called, with the arguments recorded, when it has been set.\<close>

definition NotifyError :: "NetworkError \<Rightarrow> string \<Rightarrow> node_client \<Rightarrow> node_client" where
  "NotifyError err message s = s\<lparr>cl_errors := cl_errors s @ (if cl_on_error s then [(err, message)] else [])\<rparr>"

definition status_calls :: "bool \<Rightarrow> ConnectionStatus \<Rightarrow> node_client \<Rightarrow> (string \<times> ConnectionStatus) list" where
  "status_calls is_set status s =
     cl_status_calls s @ (if is_set then [(ci_node_id (cl_info s), status)] else [])"

definition UpdateConnectionStats :: "bool \<Rightarrow> node_client \<Rightarrow> node_client" where
  "UpdateConnectionStats success s =
     (if success then s\<lparr>cl_info := (cl_info s)\<lparr>ci_successful := ci_successful (cl_info s) + 1\<rparr>\<rparr>
      else s\<lparr>cl_info := (cl_info s)\<lparr>ci_failed := ci_failed (cl_info s) + 1\<rparr>\<rparr>)"

definition Client_Initialize :: "tls_material \<Rightarrow> node_client \<Rightarrow> (exn + bool) \<times> node_client" where
  "Client_Initialize w s =
     (if cl_initialized s then (Inr True, s)
      else if \<not> Client_InitializeTlsContext w (ci_certificate_path (cl_info s)) (ci_private_key_id (cl_info s))
        then (Inr False, s)
      else case ThreadSafeQueue 100 of
             Inl e \<Rightarrow> (Inl e, s)
           | Inr q \<Rightarrow> (Inr True, s\<lparr>cl_queue := Some q, cl_initialized := True\<rparr>))"

definition CleanupSocket :: "node_client \<Rightarrow> node_client" where
  "CleanupSocket s =
     (let s1 = (case cl_tls s of
                  None \<Rightarrow> s
                | Some c \<Rightarrow> s\<lparr>cl_env := snd (Tls_Close c (cl_env s)), cl_tls := None\<rparr>) in
      if ci_socket (cl_info s) \<noteq> INVALID_SOCKET_VALUE then
        s1\<lparr>cl_closed := cl_closed s @ [ci_socket (cl_info s)],
           cl_info := (cl_info s)\<lparr>ci_socket := INVALID_SOCKET_VALUE\<rparr>\<rparr>
      else s1)"

text \<open>
  \<open>EstablishTlsConnection\<close>: the object is created first, the configuration lookups may throw
  into the handler, and a failing handshake leaves the object for the caller's clean-up.
\<close>

definition EstablishTlsConnection ::
  "(string \<Rightarrow> exn + string) \<Rightarrow> nat option \<Rightarrow> bool \<Rightarrow> bool \<Rightarrow> (ssl_error \<Rightarrow> string) \<Rightarrow> node_client
     \<Rightarrow> (bool \<times> node_client) option" where
  "EstablishTlsConnection GetString created fd_ok sni_ok err_text s =
     (let s0 = s\<lparr>cl_tls := Some TlsConnection_default\<rparr> in
      case exn_bind (GetString ''DEPLOY_ENV'') (\<lambda>_. GetString ''TLS_DOMAIN_SUFFIX'') of
        Inl _ \<Rightarrow> Some (False, s0)
      | Inr domain_suffix \<Rightarrow>
          (let cfg = \<lparr>cc_handshake_timeout_ms = 10000, cc_read_timeout_ms = 30000,
                      cc_write_timeout_ms = 30000, cc_enable_sni = True,
                      cc_sni_hostname = ci_node_id (cl_info s) @ domain_suffix\<rparr> in
           case ConnectClient created fd_ok sni_ok (ci_socket (cl_info s)) cfg TlsConnection_default (cl_env s) of
             None \<Rightarrow> None
           | Some (False, c, e) \<Rightarrow> Some (False, s0\<lparr>cl_tls := Some c, cl_env := e\<rparr>)
           | Some (True, c, e) \<Rightarrow>
               (case DoHandshake err_text c e of
                  None \<Rightarrow> None
                | Some (ok, c', e') \<Rightarrow> Some (ok, s0\<lparr>cl_tls := Some c', cl_env := e'\<rparr>))))"

definition InitializeSocket :: "int \<Rightarrow> node_client \<Rightarrow> bool \<times> node_client" where
  "InitializeSocket sock s =
     (let s1 = s\<lparr>cl_info := (cl_info s)\<lparr>ci_socket := sock\<rparr>\<rparr> in
      if sock = INVALID_SOCKET_VALUE
      then (False, NotifyError SOCKET_CREATE_ERROR ''Failed to create socket'' s1)
      else (True, s1))"

definition ConnectSocket :: "bool \<Rightarrow> bool \<Rightarrow> node_client \<Rightarrow> bool \<times> node_client" where
  "ConnectSocket address_ok connect_ok s =
     (if \<not> address_ok then (False, NotifyError INVALID_ADDRESS ''Invalid address'' s)
      else if \<not> connect_ok then (False, NotifyError CONNECTION_ERROR ''Connection failed'' s)
      else (True, s))"

definition count_failed_attempt :: "node_client \<Rightarrow> node_client" where
  "count_failed_attempt s = s\<lparr>cl_info := (cl_info s)\<lparr>ci_failed_attempts := ci_failed_attempts (cl_info s) + 1\<rparr>\<rparr>"

text \<open>\<open>Connect\<close>, under the client's mutex; the four clock readings are one argument each use.\<close>

definition Client_Connect ::
  "int \<Rightarrow> bool \<Rightarrow> bool \<Rightarrow> (string \<Rightarrow> exn + string) \<Rightarrow> nat option \<Rightarrow> bool \<Rightarrow> bool \<Rightarrow> (ssl_error \<Rightarrow> string)
     \<Rightarrow> u64 \<Rightarrow> node_client \<Rightarrow> (bool \<times> node_client) option" where
  "Client_Connect sock address_ok connect_ok GetString created fd_ok sni_ok err_text now s =
     (if cl_connected s then Some (True, s)
      else if \<not> cl_initialized s then Some (False, s)
      else let s1 = s\<lparr>cl_info := (cl_info s)\<lparr>ci_attempt_time := now\<rparr>\<rparr> in
        case InitializeSocket sock s1 of
          (False, s2) \<Rightarrow> Some (False, count_failed_attempt s2)
        | (True, s2) \<Rightarrow>
            (case ConnectSocket address_ok connect_ok s2 of
               (False, s3) \<Rightarrow> Some (False, count_failed_attempt (CleanupSocket s3))
             | (True, s3) \<Rightarrow>
                 (case EstablishTlsConnection GetString created fd_ok sni_ok err_text s3 of
                    None \<Rightarrow> None
                  | Some (False, s4) \<Rightarrow> Some (False, count_failed_attempt (CleanupSocket s4))
                  | Some (True, s4) \<Rightarrow>
                      Some (True, s4\<lparr>cl_info := (cl_info s4)\<lparr>ci_status := CONNECTED, ci_last_comm := now,
                                       ci_failed_attempts := 0\<rparr>,
                        cl_last_used := now, cl_connected := True, cl_threads_running := True,
                        cl_send_pc := T_check, cl_recv_pc := T_check,
                        cl_status_calls := status_calls (cl_on_connected s4) CONNECTED s4\<rparr>))))"

text \<open>
  \<open>Disconnect\<close>: the part under the mutex, and, once both threads have been joined, the
  failure of every pending promise.
\<close>

definition Disconnect_begin :: "node_client \<Rightarrow> bool \<times> node_client" where
  "Disconnect_begin s =
     (if \<not> cl_connected s then (False, s)
      else let s1 = s\<lparr>cl_connected := False, cl_threads_running := False,
                       cl_queue := map_option Shutdown (cl_queue s)\<rparr>;
               s2 = CleanupSocket s1
           in (True, s2\<lparr>cl_info := (cl_info s2)\<lparr>ci_status := DISCONNECTED\<rparr>\<rparr>))"

definition Disconnect_finish :: "node_client \<Rightarrow> node_client option" where
  "Disconnect_finish s =
     (if cl_threads_running s \<or> cl_send_pc s \<noteq> T_done \<or> cl_recv_pc s \<noteq> T_done then None
      else Some (s\<lparr>cl_send_pc := T_off, cl_recv_pc := T_off, cl_pending := [],
             cl_resolved := cl_resolved s @ map (\<lambda>i. (i, Failure ''Connection closed'')) (cl_pending s),
             cl_status_calls := status_calls (cl_on_disconnected s) DISCONNECTED s\<rparr>))"

section \<open>Requests\<close>

definition ConvertToNetworkMessage ::
  "(CoordinatorNodeMessage \<Rightarrow> string option) \<Rightarrow> CoordinatorNodeMessage option \<Rightarrow> exn + NetworkMessage" where
  "ConvertToNetworkMessage serialize request =
     (case request of
        None \<Rightarrow> Inl (Invalid_argument ''Request is null'')
      | Some r \<Rightarrow>
          (case serialize r of
             None \<Rightarrow> Inl (Runtime_error ''Failed to serialize protobuf message'')
           | Some s \<Rightarrow>
               (let body = bytes_of_string s in
                Inr \<lparr>nm_header = MessageHeader_default\<lparr>mh_message_type := ucast (cm_message_type r),
                       mh_body_length := word_of_nat (length s), mh_checksum := ComputeChecksum body\<rparr>,
                     nm_body = body\<rparr>)))"

definition ConvertFromNetworkMessage ::
  "(bytes \<Rightarrow> CoordinatorNodeMessage option) \<Rightarrow> NetworkMessage \<Rightarrow> CoordinatorNodeMessage option" where
  "ConvertFromNetworkMessage parse message =
     (if nm_body message \<noteq> [] then parse (nm_body message) else Some CoordinatorNodeMessage_default)"

text \<open>
  \<open>SendRequestAsync\<close> up to the registration of the promise, and from the conversion to the
  queue. An exception of the conversion leaves the promise registered.
\<close>

definition Async_register :: "CoordinatorNodeMessage option \<Rightarrow> node_client \<Rightarrow> (exn + u64) \<times> node_client" where
  "Async_register request s =
     (case request of
        None \<Rightarrow> (Inl (Invalid_argument ''Request is null''), s)
      | Some r \<Rightarrow>
          (if \<not> cl_connected s
           then (Inl (Runtime_error (''Not connected to node: '' @ ci_node_id (cl_info s))), s)
           else let req_id = cl_next_id s in
             (Inr req_id, s\<lparr>cl_next_id := req_id + 1,
                cl_pending := (if req_id \<in> set (cl_pending s) then cl_pending s else cl_pending s @ [req_id]),
                cl_issued := cl_issued s @ [req_id], cl_sending := cl_sending s @ [(req_id, r)]\<rparr>)))"

definition Async_push ::
  "(CoordinatorNodeMessage \<Rightarrow> string option) \<Rightarrow> u64 \<Rightarrow> u64 \<times> CoordinatorNodeMessage \<Rightarrow> node_client
     \<Rightarrow> ((exn + u64) \<times> node_client) option" where
  "Async_push serialize now job s =
     (let (req_id, request) = job; s0 = s\<lparr>cl_sending := remove1 job (cl_sending s)\<rparr> in
      case cl_queue s of
        None \<Rightarrow> None
      | Some q \<Rightarrow>
          (case ConvertToNetworkMessage serialize (Some request) of
             Inl ex \<Rightarrow> Some (Inl ex, s0)
           | Inr m \<Rightarrow>
               (let msg = m\<lparr>nm_header := (nm_header m)\<lparr>mh_request_id := req_id, mh_timestamp := now\<rparr>\<rparr> in
                case TryPush msg q of
                  (result, q') \<Rightarrow>
                    (if result \<noteq> SUCCESS then
                       Some (Inl (Runtime_error (''Failed to push request to queue: '' @ QueueResultToString result)),
                         s0\<lparr>cl_queue := Some q',
                            cl_pending := removeAll req_id (cl_pending s),
                            cl_rejected := (if req_id \<in> set (cl_pending s) then cl_rejected s @ [req_id]
                                            else cl_rejected s)\<rparr>)
                     else
                       Some (Inr req_id, s0\<lparr>cl_queue := Some q',
                         cl_info := (cl_info s)\<lparr>ci_total_requests := ci_total_requests (cl_info s) + 1\<rparr>\<rparr>)))))"

text \<open>Completing a promise: it is looked up by its id and erased.\<close>

definition resolve :: "u64 \<Rightarrow> outcome \<Rightarrow> node_client \<Rightarrow> node_client" where
  "resolve req_id out s =
     (if req_id \<in> set (cl_pending s) then
        s\<lparr>cl_pending := removeAll req_id (cl_pending s), cl_resolved := cl_resolved s @ [(req_id, out)]\<rparr>
      else s)"

text \<open>What \<open>SendRequest\<close> makes of its future: a timeout first fails the promise.\<close>

definition SendRequest_timeout :: "u64 \<Rightarrow> node_client \<Rightarrow> node_client" where
  "SendRequest_timeout req_id s = resolve req_id (Failure ''Request timeout'') s"

definition SendRequest_result ::
  "(bytes \<Rightarrow> CoordinatorNodeMessage option) \<Rightarrow> outcome option \<Rightarrow> CoordinatorNodeMessage option" where
  "SendRequest_result parse out =
     (case out of
        None \<Rightarrow> None
      | Some (Failure _) \<Rightarrow> None
      | Some (Reply m) \<Rightarrow> ConvertFromNetworkMessage parse m)"

text \<open>
  \<open>SendRequest\<close> up to its wait: \<open>connect\<close> is the call of \<open>Connect\<close>, and every exception of
  \<open>SendRequestAsync\<close> gives a null answer. The whole call lets everything else happen to the
  client during the wait (\<open>others\<close>), and reads the future: the outcome that was set last for its
  id.
\<close>

definition EnsureConnection ::
  "(node_client \<Rightarrow> (bool \<times> node_client) option) \<Rightarrow> node_client \<Rightarrow> (bool \<times> node_client) option" where
  "EnsureConnection connect s = (if cl_connected s then Some (True, s) else connect s)"

definition SendRequest_begin ::
  "(node_client \<Rightarrow> (bool \<times> node_client) option) \<Rightarrow> (CoordinatorNodeMessage \<Rightarrow> string option) \<Rightarrow> u64
     \<Rightarrow> CoordinatorNodeMessage option \<Rightarrow> node_client \<Rightarrow> (u64 option \<times> node_client) option" where
  "SendRequest_begin connect serialize now request s =
     (case request of
        None \<Rightarrow> Some (None, s)
      | Some r \<Rightarrow>
          (case EnsureConnection connect s of
             None \<Rightarrow> None
           | Some (False, s1) \<Rightarrow> Some (None, s1)
           | Some (True, s1) \<Rightarrow>
               (case Async_register (Some r) s1 of
                  (Inl _, s2) \<Rightarrow> Some (None, s2)
                | (Inr req_id, s2) \<Rightarrow>
                    (case Async_push serialize now (req_id, r) s2 of
                       None \<Rightarrow> None
                     | Some (Inl _, s3) \<Rightarrow> Some (None, s3)
                     | Some (Inr _, s3) \<Rightarrow> Some (Some req_id, s3)))))"

definition future_result :: "u64 \<Rightarrow> node_client \<Rightarrow> outcome option" where
  "future_result req_id s = map_of (rev (cl_resolved s)) req_id"

definition SendRequest ::
  "(node_client \<Rightarrow> (bool \<times> node_client) option) \<Rightarrow> (CoordinatorNodeMessage \<Rightarrow> string option)
     \<Rightarrow> (bytes \<Rightarrow> CoordinatorNodeMessage option) \<Rightarrow> u64 \<Rightarrow> (node_client \<Rightarrow> node_client) \<Rightarrow> bool
     \<Rightarrow> CoordinatorNodeMessage option \<Rightarrow> node_client \<Rightarrow> (CoordinatorNodeMessage option \<times> node_client) option" where
  "SendRequest connect serialize parse now others timed_out request s =
     (case SendRequest_begin connect serialize now request s of
        None \<Rightarrow> None
      | Some (None, s1) \<Rightarrow> Some (None, s1)
      | Some (Some req_id, s1) \<Rightarrow>
          (let s2 = others s1 in
           if timed_out then Some (None, SendRequest_timeout req_id s2)
           else Some (SendRequest_result parse (future_result req_id s2), s2)))"

section \<open>The two loops\<close>

text \<open>Which of the two writes failed decides the text of the notification.\<close>

definition write_failure :: "NetworkMessage \<Rightarrow> tls_conn \<Rightarrow> tls_env \<Rightarrow> string" where
  "write_failure m c e =
     (case WriteExact (header_image (nm_header m)) c e of
        Some (TlsError.NONE, _, _) \<Rightarrow> ''Failed to send body''
      | _ \<Rightarrow> ''Failed to send header'')"

definition Client_SendMessage :: "NetworkMessage \<Rightarrow> u64 \<Rightarrow> node_client \<Rightarrow> (bool \<times> node_client) option" where
  "Client_SendMessage m now s =
     (case (cl_connected s, cl_tls s) of
        (True, Some c) \<Rightarrow>
          (let s1 = s\<lparr>cl_info := (cl_info s)\<lparr>ci_total_requests := ci_total_requests (cl_info s) + 1\<rparr>\<rparr> in
           case Client_WriteMessage m c (cl_env s) of
             None \<Rightarrow> None
           | Some (ok, c', e') \<Rightarrow>
               (let s2 = s1\<lparr>cl_tls := Some c', cl_env := e'\<rparr> in
                if \<not> ok then Some (False, NotifyError SEND_ERROR (write_failure m c (cl_env s)) s2)
                else Some (True, s2\<lparr>cl_info := (cl_info s2)\<lparr>ci_last_comm := now\<rparr>\<rparr>)))
      | _ \<Rightarrow> Some (False, NotifyError CONNECTION_ERROR ''Not connected or TLS not established'' s))"

definition Client_ReceiveMessage :: "u64 \<Rightarrow> node_client \<Rightarrow> (NetworkMessage option \<times> node_client) option" where
  "Client_ReceiveMessage now s =
     (case (cl_connected s, cl_tls s) of
        (True, Some c) \<Rightarrow>
          (case ReadMessage c (cl_env s) of
             None \<Rightarrow> None
           | Some (None, c', e') \<Rightarrow> Some (None, s\<lparr>cl_tls := Some c', cl_env := e'\<rparr>)
           | Some (Some m, c', e') \<Rightarrow>
               Some (Some m, s\<lparr>cl_tls := Some c', cl_env := e',
                 cl_info := (cl_info s)\<lparr>ci_successful := ci_successful (cl_info s) + 1, ci_last_comm := now\<rparr>\<rparr>))
      | _ \<Rightarrow> Some (None, s))"

definition Client_SendLoop_step :: "u64 \<Rightarrow> node_client \<Rightarrow> node_client option" where
  "Client_SendLoop_step now s =
     (case cl_send_pc s of
        T_check \<Rightarrow> Some (s\<lparr>cl_send_pc := if cl_threads_running s then T_io else T_done\<rparr>)
      | T_io \<Rightarrow>
          (case cl_queue s of
             None \<Rightarrow> None
           | Some q \<Rightarrow>
               (case Pop q of
                  None \<Rightarrow> None
                | Some (r, item, q') \<Rightarrow>
                    (case (r, item) of
                       (SUCCESS, Some m) \<Rightarrow>
                         (case Client_SendMessage m now (s\<lparr>cl_queue := Some q'\<rparr>) of
                            None \<Rightarrow> None
                          | Some (False, s1) \<Rightarrow>
                              Some ((resolve (mh_request_id (nm_header m)) (Failure ''Send failed'') s1)
                                      \<lparr>cl_send_pc := T_done\<rparr>)
                          | Some (True, s1) \<Rightarrow>
                              Some (s1\<lparr>cl_send_pc := T_check, cl_info := (cl_info s1)\<lparr>ci_last_comm := now\<rparr>\<rparr>))
                     | _ \<Rightarrow> Some (s\<lparr>cl_send_pc := T_done\<rparr>))))
      | _ \<Rightarrow> None)"

definition Client_ReceiveLoop_step :: "u64 \<Rightarrow> node_client \<Rightarrow> node_client option" where
  "Client_ReceiveLoop_step now s =
     (case cl_recv_pc s of
        T_check \<Rightarrow> Some (s\<lparr>cl_recv_pc := if cl_threads_running s then T_io else T_done\<rparr>)
      | T_io \<Rightarrow>
          (case Client_ReceiveMessage now s of
             None \<Rightarrow> None
           | Some (None, s1) \<Rightarrow> Some (s1\<lparr>cl_recv_pc := T_done\<rparr>)
           | Some (Some m, s1) \<Rightarrow>
               (let s2 = resolve (mh_request_id (nm_header m)) (Reply m) s1 in
                Some (s2\<lparr>cl_recv_pc := T_check,
                  cl_info := (cl_info s2)\<lparr>ci_successful := ci_successful (cl_info s2) + 1, ci_last_comm := now\<rparr>\<rparr>)))
      | _ \<Rightarrow> None)"

section \<open>The client in motion\<close>

inductive client_step :: "node_client \<Rightarrow> node_client \<Rightarrow> bool" where
  cs_initialize: "Client_Initialize w s = (r, s') \<Longrightarrow> client_step s s'"
| cs_connect: "\<lbrakk>cl_send_pc s = T_off; cl_recv_pc s = T_off;
      Client_Connect sock address_ok connect_ok GetString created fd_ok sni_ok err_text now s = Some (ok, s')\<rbrakk>
      \<Longrightarrow> client_step s s'"
| cs_disconnect: "Disconnect_begin s = (r, s') \<Longrightarrow> client_step s s'"
| cs_finish: "Disconnect_finish s = Some s' \<Longrightarrow> client_step s s'"
| cs_register: "Async_register request s = (x, s') \<Longrightarrow> client_step s s'"
| cs_push: "job \<in> set (cl_sending s) \<Longrightarrow> Async_push serialize now job s = Some (x, s') \<Longrightarrow> client_step s s'"
| cs_timeout: "client_step s (SendRequest_timeout req_id s)"
| cs_send: "Client_SendLoop_step now s = Some s' \<Longrightarrow> client_step s s'"
| cs_receive: "Client_ReceiveLoop_step now s = Some s' \<Longrightarrow> client_step s s'"

inductive_cases client_stepE: "client_step s s'"

text \<open>
  The promises: every id handed out is pending, completed or rejected, each exactly once, and
  a reply completes only the promise of its own id.
\<close>

definition id_after :: "nat \<Rightarrow> u64" where "id_after n = 1 + word_of_nat n"

definition promise_inv :: "node_client \<Rightarrow> bool" where
  "promise_inv s \<longleftrightarrow>
     cl_next_id s = id_after (length (cl_issued s))
     \<and> cl_issued s = map id_after [0..<length (cl_issued s)]
     \<and> (length (cl_issued s) < 2 ^ 64 \<longrightarrow>
          mset (cl_issued s) = mset (cl_pending s) + mset (map fst (cl_resolved s)) + mset (cl_rejected s))
     \<and> (\<forall>i m. (i, Reply m) \<in> set (cl_resolved s) \<longrightarrow> mh_request_id (nm_header m) = i \<and> Validate m = OK)"

lemma id_after_inj: "\<lbrakk>i < 2 ^ 64; j < 2 ^ 64; id_after i = id_after j\<rbrakk> \<Longrightarrow> i = j"
  by (simp add: id_after_def word_of_nat_eq_iff take_bit_nat_eq_self)

lemma distinct_ids: "n \<le> 2 ^ 64 \<Longrightarrow> distinct (map id_after [0..<n])"
  by (auto simp: distinct_map inj_on_def intro: id_after_inj)

lemma promise_inv_distinct:
  assumes "promise_inv s" and "length (cl_issued s) < 2 ^ 64"
  shows "distinct (cl_issued s)" and "distinct (cl_pending s)"
    and "set (cl_pending s) \<subseteq> set (cl_issued s)"
proof -
  show d: "distinct (cl_issued s)"
    using assms distinct_ids [of "length (cl_issued s)"] by (simp add: promise_inv_def)
  have m: "mset (cl_issued s) = mset (cl_pending s) + (mset (map fst (cl_resolved s)) + mset (cl_rejected s))"
    using assms by (simp add: promise_inv_def ac_simps)
  show "distinct (cl_pending s)"
    using d m by (metis distinct_append mset_append mset_eq_imp_distinct_iff)
  show "set (cl_pending s) \<subseteq> set (cl_issued s)"
    using arg_cong [OF m, of set_mset] by auto
qed

text \<open>Everything that leaves the promises alone keeps the invariant.\<close>

definition promises ::
  "node_client \<Rightarrow> u64 \<times> u64 list \<times> u64 list \<times> (u64 \<times> outcome) list \<times> u64 list" where
  "promises s = (cl_next_id s, cl_issued s, cl_pending s, cl_resolved s, cl_rejected s)"

text \<open>\<open>SendRequest\<close> is made of the steps of the client.\<close>

lemma SendRequest_begin_steps:
  assumes "\<And>ok s1. connect s = Some (ok, s1) \<Longrightarrow> client_step\<^sup>*\<^sup>* s s1"
    and "SendRequest_begin connect serialize now request s = Some (x, s')"
  shows "client_step\<^sup>*\<^sup>* s s'"
proof (cases request)
  case None
  with assms(2) show ?thesis by (simp add: SendRequest_begin_def)
next
  case (Some r)
  with assms(2) obtain ok s1 where e: "EnsureConnection connect s = Some (ok, s1)"
    by (auto simp: SendRequest_begin_def split: option.splits)
  have c: "client_step\<^sup>*\<^sup>* s s1" using e assms(1) by (auto simp: EnsureConnection_def split: if_splits)
  obtain y s2 where g: "Async_register (Some r) s1 = (y, s2)" by fastforce
  from cs_register [OF g] c have c2: "client_step\<^sup>*\<^sup>* s s2" by simp
  show ?thesis
  proof (cases "ok \<and> \<not> isl y")
    case False
    with assms(2) Some e g c c2 show ?thesis
      by (cases y) (auto simp: SendRequest_begin_def split: bool.splits)
  next
    case True
    then obtain i where y: "ok" "y = Inr i" by (cases y) auto
    with assms(2) Some e g obtain z where p: "Async_push serialize now (i, r) s2 = Some (z, s')"
      by (auto simp: SendRequest_begin_def split: option.splits sum.splits)
    have "(i, r) \<in> set (cl_sending s2)"
      using g y(2) by (auto simp: Async_register_def Let_def split: if_splits)
    from cs_push [OF this p] c2 show ?thesis by simp
  qed
qed

lemma promise_inv_cong: "promises s = promises s' \<Longrightarrow> promise_inv s \<longleftrightarrow> promise_inv s'"
  by (simp add: promises_def promise_inv_def)

text \<open>Most operations touch neither the promises nor the queue.\<close>

definition books ::
  "node_client \<Rightarrow> (u64 \<times> u64 list \<times> u64 list \<times> (u64 \<times> outcome) list \<times> u64 list) \<times> bool \<times> NetworkMessage tsq option" where
  "books s = (promises s, cl_initialized s, cl_queue s)"

lemma books_promises: "books s = books s' \<Longrightarrow> promises s = promises s'"
  and books_queue: "books s = books s' \<Longrightarrow> cl_initialized s = cl_initialized s' \<and> cl_queue s = cl_queue s'"
  by (simp_all add: books_def)

lemmas books_defs = books_def promises_def

lemma NotifyError_books [simp]: "books (NotifyError e m s) = books s"
  by (simp add: NotifyError_def books_defs)

lemma CleanupSocket_books [simp]: "books (CleanupSocket s) = books s"
  by (simp add: CleanupSocket_def books_defs Let_def split: option.splits)

lemma count_failed_attempt_books [simp]: "books (count_failed_attempt s) = books s"
  by (simp add: count_failed_attempt_def books_defs)

lemmas CleanupSocket_promises [simp] = CleanupSocket_books [THEN books_promises]

lemma Client_Initialize_promises: "Client_Initialize w s = (r, s') \<Longrightarrow> promises s' = promises s"
  by (auto simp: Client_Initialize_def promises_def split: if_splits sum.splits)

lemma Disconnect_begin_promises: "Disconnect_begin s = (r, s') \<Longrightarrow> promises s' = promises s"
  using CleanupSocket_promises [of "s\<lparr>cl_connected := False, cl_threads_running := False,
      cl_queue := map_option Shutdown (cl_queue s)\<rparr>"]
  by (auto simp: Disconnect_begin_def promises_def Let_def split: if_splits)

lemma EstablishTls_books:
  "EstablishTlsConnection g created fd_ok sni_ok err_text s = Some (ok, s') \<Longrightarrow> books s' = books s"
  by (auto simp: EstablishTlsConnection_def books_defs Let_def
      split: sum.splits option.splits prod.splits bool.splits)

lemma InitializeSocket_books: "InitializeSocket k s = (ok, s') \<Longrightarrow> books s' = books s"
  by (auto simp: InitializeSocket_def books_defs NotifyError_def Let_def split: if_splits)

lemma ConnectSocket_books: "ConnectSocket a b s = (ok, s') \<Longrightarrow> books s' = books s"
  by (auto simp: ConnectSocket_def books_defs NotifyError_def split: if_splits)

text \<open>
  \<open>Connect\<close> as seen by any view of the client that its parts leave alone: nothing changes, or
  the connection is marked as established.
\<close>

definition mark_connected :: "u64 \<Rightarrow> node_client \<Rightarrow> node_client" where
  "mark_connected now s =
     s\<lparr>cl_info := (cl_info s)\<lparr>ci_status := CONNECTED, ci_last_comm := now, ci_failed_attempts := 0\<rparr>,
       cl_last_used := now, cl_connected := True, cl_threads_running := True,
       cl_send_pc := T_check, cl_recv_pc := T_check,
       cl_status_calls := status_calls (cl_on_connected s) CONNECTED s\<rparr>"

lemma Client_Connect_view:
  fixes view :: "node_client \<Rightarrow> 'v"
  assumes c: "Client_Connect k a b g created fd_ok sni_ok err_text now s = Some (ok, s')"
    and attempt: "\<And>s. view (s\<lparr>cl_info := (cl_info s)\<lparr>ci_attempt_time := now\<rparr>\<rparr>) = view s"
    and socket: "\<And>s ok s'. InitializeSocket k s = (ok, s') \<Longrightarrow> view s' = view s"
    and connect: "\<And>s ok s'. ConnectSocket a b s = (ok, s') \<Longrightarrow> view s' = view s"
    and tls: "\<And>s ok s'. EstablishTlsConnection g created fd_ok sni_ok err_text s = Some (ok, s') \<Longrightarrow> view s' = view s"
    and clean: "\<And>s. view (CleanupSocket s) = view s" "\<And>s. view (count_failed_attempt s) = view s"
  obtains (kept) "view s' = view s" | (established) t where "ok" "view t = view s" "s' = mark_connected now t"
proof (cases "cl_connected s \<or> \<not> cl_initialized s")
  case True
  with c show thesis by (auto simp: Client_Connect_def split: if_splits intro: kept)
next
  case False
  let ?s1 = "s\<lparr>cl_info := (cl_info s)\<lparr>ci_attempt_time := now\<rparr>\<rparr>"
  obtain ok2 t2 where i: "InitializeSocket k ?s1 = (ok2, t2)" by (cases "InitializeSocket k ?s1")
  obtain ok3 t3 where n: "ConnectSocket a b t2 = (ok3, t3)" by (cases "ConnectSocket a b t2")
  have p: "view t2 = view s" "view t3 = view s"
    using socket [OF i] connect [OF n] attempt [of s] by simp_all
  show thesis
  proof (cases "ok2 \<and> ok3")
    case no: False
    with c False i n have "s' = count_failed_attempt t2 \<or> s' = count_failed_attempt (CleanupSocket t3)"
      by (auto simp: Client_Connect_def Let_def split: bool.splits)
    with p clean show thesis by (auto intro: kept)
  next
    case yes: True
    with c False i n obtain ok4 t4 where e: "EstablishTlsConnection g created fd_ok sni_ok err_text t3 = Some (ok4, t4)"
      by (auto simp: Client_Connect_def Let_def split: option.splits)
    have here: "view t4 = view s" using tls [OF e] p by simp
    show thesis
    proof (cases ok4)
      case no4: False
      with c False yes i n e have "s' = count_failed_attempt (CleanupSocket t4)"
        by (simp add: Client_Connect_def Let_def)
      with here clean show thesis by (intro kept) simp
    next
      case True
      with c False yes i n e have "ok" "s' = mark_connected now t4"
        by (auto simp: Client_Connect_def Let_def mark_connected_def)
      with here show thesis by (intro established)
    qed
  qed
qed

lemma Client_Connect_books:
  assumes "Client_Connect k a b g created fd_ok sni_ok err_text now s = Some (ok, s')"
  shows "books s' = books s"
proof -
  have v: "books (t\<lparr>cl_info := x\<rparr>) = books t" "books (mark_connected now t) = books t" for t x
    by (simp_all add: books_defs mark_connected_def)
  show ?thesis
    by (rule Client_Connect_view [of k a b g created fd_ok sni_ok err_text now s ok s' books, OF assms])
      (simp_all add: v InitializeSocket_books ConnectSocket_books EstablishTls_books)
qed

lemma Client_SendMessage_books: "Client_SendMessage m now s = Some (ok, s') \<Longrightarrow> books s' = books s"
  by (auto simp: Client_SendMessage_def books_defs NotifyError_def Let_def
      split: option.splits bool.splits prod.splits if_splits)

lemma Client_ReceiveMessage_books: "Client_ReceiveMessage now s = Some (x, s') \<Longrightarrow> books s' = books s"
  by (auto simp: Client_ReceiveMessage_def books_defs split: option.splits bool.splits prod.splits if_splits)

lemmas Client_Connect_promises = Client_Connect_books [THEN books_promises]
  and Client_SendMessage_promises = Client_SendMessage_books [THEN books_promises]
  and Client_ReceiveMessage_promises = Client_ReceiveMessage_books [THEN books_promises]

lemma Client_ReceiveMessage_valid: "Client_ReceiveMessage now s = Some (Some m, s') \<Longrightarrow> Validate m = OK"
  by (auto simp: Client_ReceiveMessage_def dest: ReadMessage_image
      split: option.splits bool.splits prod.splits if_splits)

section \<open>Every promise exactly once\<close>

lemma Async_register_inv:
  assumes inv: "promise_inv s" and step: "Async_register request s = (x, s')"
  shows "promise_inv s'"
proof (cases x)
  case (Inl e)
  with step have "s' = s" by (auto simp: Async_register_def Let_def split: option.splits if_splits)
  with inv show ?thesis by simp
next
  case (Inr i)
  let ?n = "length (cl_issued s)"
  from step Inr obtain r where s': "s' = s\<lparr>cl_next_id := cl_next_id s + 1,
      cl_pending := (if cl_next_id s \<in> set (cl_pending s) then cl_pending s else cl_pending s @ [cl_next_id s]),
      cl_issued := cl_issued s @ [cl_next_id s], cl_sending := cl_sending s @ [(cl_next_id s, r)]\<rparr>"
    by (auto simp: Async_register_def Let_def split: option.splits if_split_asm)
  have nxt: "cl_next_id s = id_after ?n" and iss: "cl_issued s = map id_after [0..<?n]"
    using inv by (simp_all only: promise_inv_def)
  have fresh: "cl_next_id s \<notin> set (cl_pending s)" if "?n < 2 ^ 64"
  proof -
    have "id_after ?n \<notin> set (map id_after [0..<?n])"
      using distinct_ids [of "Suc ?n"] that by simp
    then have "cl_next_id s \<notin> set (cl_issued s)" using nxt iss by simp
    with promise_inv_distinct(3) [OF inv that] show ?thesis by blast
  qed
  have "id_after ?n + 1 = id_after (Suc ?n)" by (simp add: id_after_def)
  then have a: "cl_next_id s' = id_after (length (cl_issued s'))"
    and b: "cl_issued s' = map id_after [0..<length (cl_issued s')]"
    using nxt iss by (simp_all add: s')
  have c: "mset (cl_issued s') = mset (cl_pending s') + mset (map fst (cl_resolved s')) + mset (cl_rejected s')"
    if "length (cl_issued s') < 2 ^ 64"
  proof -
    have n: "?n < 2 ^ 64" using that by (simp add: s')
    then show ?thesis using inv fresh [OF n] by (simp add: s' promise_inv_def)
  qed
  have d: "\<forall>i m. (i, Reply m) \<in> set (cl_resolved s') \<longrightarrow> mh_request_id (nm_header m) = i \<and> Validate m = OK"
    using inv by (simp add: s' promise_inv_def)
  show ?thesis using a b c d unfolding promise_inv_def by blast
qed

lemma mset_removeAll_distinct:
  "distinct xs \<Longrightarrow> x \<in> set xs \<Longrightarrow> mset xs = add_mset x (mset (removeAll x xs))"
  by (metis distinct_remove1_removeAll in_multiset_in_set insert_DiffM mset_remove1)

lemma resolve_inv:
  assumes inv: "promise_inv s"
    and out: "\<And>m. out = Reply m \<Longrightarrow> mh_request_id (nm_header m) = i \<and> Validate m = OK"
  shows "promise_inv (resolve i out s)"
proof (cases "i \<in> set (cl_pending s)")
  case True
  have "mset (cl_pending s) = add_mset i (mset (removeAll i (cl_pending s)))"
    if "length (cl_issued s) < 2 ^ 64"
    using mset_removeAll_distinct [OF promise_inv_distinct(2) [OF inv that] True] .
  with True inv out show ?thesis by (auto simp: promise_inv_def resolve_def)
qed (use inv in \<open>simp add: resolve_def\<close>)

lemma resolve_sending [simp]: "cl_sending (resolve i out s) = cl_sending s"
  by (simp add: resolve_def)

lemma reject_inv:
  assumes inv: "promise_inv s"
    and s': "cl_next_id s' = cl_next_id s" "cl_issued s' = cl_issued s" "cl_resolved s' = cl_resolved s"
      "cl_pending s' = removeAll i (cl_pending s)"
      "cl_rejected s' = (if i \<in> set (cl_pending s) then cl_rejected s @ [i] else cl_rejected s)"
  shows "promise_inv s'"
proof (cases "i \<in> set (cl_pending s)")
  case True
  have "mset (cl_pending s) = add_mset i (mset (removeAll i (cl_pending s)))"
    if "length (cl_issued s) < 2 ^ 64"
    using mset_removeAll_distinct [OF promise_inv_distinct(2) [OF inv that] True] .
  with True inv s' show ?thesis by (auto simp: promise_inv_def)
qed (use inv s' in \<open>simp add: promise_inv_def\<close>)

lemma Async_push_inv:
  assumes inv: "promise_inv s" and step: "Async_push serialize now job s = Some (x, s')"
  shows "promise_inv s'"
proof -
  obtain i r where job: "job = (i, r)" by (cases job)
  from step consider "promises s' = promises s"
    | "cl_next_id s' = cl_next_id s" "cl_issued s' = cl_issued s" "cl_resolved s' = cl_resolved s"
      "cl_pending s' = removeAll i (cl_pending s)"
      "cl_rejected s' = (if i \<in> set (cl_pending s) then cl_rejected s @ [i] else cl_rejected s)"
    by (auto simp: Async_push_def job promises_def Let_def split: option.splits sum.splits prod.splits if_split_asm)
  then show ?thesis
  proof cases
    case 1
    then show ?thesis using inv promise_inv_cong by blast
  next
    case 2
    show ?thesis by (rule reject_inv [OF inv 2])
  qed
qed

lemma Disconnect_finish_inv:
  "promise_inv s \<Longrightarrow> Disconnect_finish s = Some s' \<Longrightarrow> promise_inv s'"
  by (auto simp: Disconnect_finish_def promise_inv_def comp_def multiset.map_comp split: if_split_asm)

lemma promise_inv_keeps:
  "promise_inv s \<Longrightarrow> promises s' = promises s \<Longrightarrow> promise_inv s'"
  using promise_inv_cong by blast

lemma Client_SendLoop_inv:
  assumes inv: "promise_inv s" and step: "Client_SendLoop_step now s = Some s'"
  shows "promise_inv s'"
proof -
  from step consider "promises s' = promises s"
    | i x s1 where "promises s1 = promises s" "promises s' = promises (resolve i (Failure x) s1)"
  proof -
    assume *: "promises s' = promises s \<Longrightarrow> thesis"
      "\<And>s1 i x. promises s1 = promises s \<Longrightarrow> promises s' = promises (resolve i (Failure x) s1) \<Longrightarrow> thesis"
    show thesis
    proof (cases "cl_send_pc s = T_io")
      case False
      then have "promises s' = promises s" using step
        by (auto simp: Client_SendLoop_step_def promises_def split: client_pc.splits)
      then show thesis by (rule *(1))
    next
      case io: True
      with step obtain q r item q' where q: "cl_queue s = Some q" "Pop q = Some (r, item, q')"
        by (auto simp: Client_SendLoop_step_def split: option.splits)
      show thesis
      proof (cases "\<exists>m. r = SUCCESS \<and> item = Some m")
        case False
        then have "promises s' = promises s" using step io q
          by (auto simp: Client_SendLoop_step_def promises_def split: option.splits QueueResult.splits)
        then show thesis by (rule *(1))
      next
        case True
        then obtain m where m: "r = SUCCESS" "item = Some m" by blast
        with step io q obtain ok s1 where sm: "Client_SendMessage m now (s\<lparr>cl_queue := Some q'\<rparr>) = Some (ok, s1)"
          by (auto simp: Client_SendLoop_step_def split: option.splits)
        have p: "promises s1 = promises s"
          using Client_SendMessage_promises [OF sm] by (simp add: promises_def)
        show thesis
        proof (cases ok)
          case True
          with step io q m sm have "promises s' = promises s1"
            by (auto simp: Client_SendLoop_step_def promises_def)
          with p show thesis by (intro *(1)) simp
        next
          case False
          with step io q m sm
          have "promises s' = promises (resolve (mh_request_id (nm_header m)) (Failure ''Send failed'') s1)"
            by (auto simp: Client_SendLoop_step_def promises_def)
          with p show thesis by (intro *(2))
        qed
      qed
    qed
  qed
  then show ?thesis
  proof cases
    case 1
    then show ?thesis using inv promise_inv_keeps by blast
  next
    case (2 i x s1)
    have "promise_inv s1" using inv 2 promise_inv_keeps by blast
    then have "promise_inv (resolve i (Failure x) s1)" by (rule resolve_inv) simp
    then show ?thesis using 2 promise_inv_keeps by metis
  qed
qed

lemma Client_ReceiveLoop_inv:
  assumes inv: "promise_inv s" and step: "Client_ReceiveLoop_step now s = Some s'"
  shows "promise_inv s'"
proof (cases "cl_recv_pc s = T_io")
  case False
  with step have "promises s' = promises s"
    by (auto simp: Client_ReceiveLoop_step_def promises_def split: client_pc.splits)
  then show ?thesis using inv promise_inv_keeps by blast
next
  case io: True
  with step obtain x s1 where rm: "Client_ReceiveMessage now s = Some (x, s1)"
    by (auto simp: Client_ReceiveLoop_step_def split: option.splits)
  have inv1: "promise_inv s1"
    using inv promise_inv_keeps Client_ReceiveMessage_promises [OF rm] by blast
  show ?thesis
  proof (cases x)
    case None
    with step io rm have "promises s' = promises s1"
      by (auto simp: Client_ReceiveLoop_step_def promises_def)
    then show ?thesis using inv1 promise_inv_keeps by blast
  next
    case (Some m)
    with step io rm have p: "promises s' = promises (resolve (mh_request_id (nm_header m)) (Reply m) s1)"
      by (auto simp: Client_ReceiveLoop_step_def promises_def Let_def)
    have "Validate m = OK" using rm Some Client_ReceiveMessage_valid by blast
    then have "promise_inv (resolve (mh_request_id (nm_header m)) (Reply m) s1)"
      using inv1 by (intro resolve_inv) auto
    then show ?thesis using p promise_inv_keeps by metis
  qed
qed

lemma client_step_inv: "client_step s s' \<Longrightarrow> promise_inv s \<Longrightarrow> promise_inv s'"
proof (induction rule: client_step.induct)
  case (cs_initialize w s r s')
  then show ?case using Client_Initialize_promises promise_inv_keeps by blast
next
  case (cs_connect s sock address_ok connect_ok GetString created fd_ok sni_ok err_text now ok s')
  then show ?case using Client_Connect_promises promise_inv_keeps by blast
next
  case (cs_disconnect s r s')
  then show ?case using Disconnect_begin_promises promise_inv_keeps by blast
next
  case (cs_finish s s')
  then show ?case using Disconnect_finish_inv by blast
next
  case (cs_register request s x s')
  then show ?case using Async_register_inv by blast
next
  case (cs_push job s serialize now x s')
  then show ?case using Async_push_inv by blast
next
  case (cs_timeout s req_id)
  then show ?case unfolding SendRequest_timeout_def by (intro resolve_inv) simp_all
next
  case (cs_send now s s')
  then show ?case using Client_SendLoop_inv by blast
next
  case (cs_receive now s s')
  then show ?case using Client_ReceiveLoop_inv by blast
qed

lemma promise_inv_new: "promise_inv (NodeTcpClient_new n a p t sh c k e)"
  by (simp add: promise_inv_def NodeTcpClient_new_def id_after_def)

lemma promise_inv_reachable:
  "client_step\<^sup>*\<^sup>* (NodeTcpClient_new n a p t sh c k e) s \<Longrightarrow> promise_inv s"
  by (induction rule: rtranclp_induct) (use promise_inv_new client_step_inv in blast)+

section \<open>A client at work\<close>

definition demo_material :: tls_material where
  "demo_material = \<lparr>tm_initialize = True, tm_get_string = (\<lambda>_. Inr ''/tls/''), tm_read_file = (\<lambda>_. Inr ''pem''),
     tm_get_secret = (\<lambda>_. Inr ''key''), tm_load_ca = (\<lambda>_. True), tm_load_certificate = (\<lambda>_ _. True)\<rparr>"

definition demo_reply :: NetworkMessage where
  "demo_reply = hello\<lparr>nm_header := (nm_header hello)\<lparr>mh_request_id := 1\<rparr>\<rparr>"

definition demo_client0 :: "bytes \<Rightarrow> node_client" where
  "demo_client0 input = NodeTcpClient_new ''n1'' ''10.0.0.7'' 9000 AWS 1 ''c.pem'' ''k1''
     (idle_env\<lparr>te_in := input, te_handshakes := [Progress 0, Progress 0],
        te_clock := [1, 2, 3, 4, 5, 6], te_reads := replicate 34 (Progress 63)\<rparr>)"

definition demo_connect :: "node_client \<Rightarrow> node_client" where
  "demo_connect s = snd (the (Client_Connect 7 True True (\<lambda>_. Inr '''') (Some 1) True True (\<lambda>_. []) 9 s))"

definition demo_client1 :: "bytes \<Rightarrow> node_client" where
  "demo_client1 input = demo_connect (snd (Client_Initialize demo_material (demo_client0 input)))"

definition demo_request :: CoordinatorNodeMessage where "demo_request = CoordinatorNodeMessage_default"

definition demo_client2 :: "bytes \<Rightarrow> node_client" where
  "demo_client2 input = snd (the (Async_push (\<lambda>_. Some '''') 11 (1, demo_request)
     (snd (Async_register (Some demo_request) (demo_client1 input)))))"

lemma demo_connect_step:
  assumes "cl_send_pc s = T_off" "cl_recv_pc s = T_off"
    "\<not> Option.is_none (Client_Connect 7 True True (\<lambda>_. Inr '''') (Some 1) True True (\<lambda>_. []) 9 s)"
  shows "client_step s (demo_connect s)"
proof -
  obtain ok s' where "Client_Connect 7 True True (\<lambda>_. Inr '''') (Some 1) True True (\<lambda>_. []) 9 s = Some (ok, s')"
    using assms(3) by (auto simp: Option.is_none_def)
  then show ?thesis using cs_connect [OF assms(1,2)] by (simp add: demo_connect_def)
qed

lemma snd_initialize_step: "client_step s (snd (Client_Initialize w s))"
  by (rule cs_initialize [of w s "fst (Client_Initialize w s)"]) simp

lemma snd_register_step: "client_step s (snd (Async_register r s))"
  by (rule cs_register [of r s "fst (Async_register r s)"]) simp

lemma the_push_step:
  "\<not> Option.is_none (Async_push f now job s) \<Longrightarrow> job \<in> set (cl_sending s) \<Longrightarrow>
     client_step s (snd (the (Async_push f now job s)))"
  by (rule cs_push [of job s f now "fst (the (Async_push f now job s))"])
    (auto simp: Option.is_none_def)

lemma the_send_step:
  "\<not> Option.is_none (Client_SendLoop_step now s) \<Longrightarrow> client_step s (the (Client_SendLoop_step now s))"
  by (rule cs_send [of now]) (auto simp: Option.is_none_def)

lemma the_receive_step:
  "\<not> Option.is_none (Client_ReceiveLoop_step now s) \<Longrightarrow> client_step s (the (Client_ReceiveLoop_step now s))"
  by (rule cs_receive [of now]) (auto simp: Option.is_none_def)

lemma snd_disconnect_step: "client_step s (snd (Disconnect_begin s))"
  by (rule cs_disconnect [of s "fst (Disconnect_begin s)"]) simp

lemma the_finish_step:
  "\<not> Option.is_none (Disconnect_finish s) \<Longrightarrow> client_step s (the (Disconnect_finish s))"
  by (rule cs_finish) (auto simp: Option.is_none_def)

lemma demo_client1_reachable: "client_step\<^sup>*\<^sup>* (demo_client0 input) (demo_client1 input)"
proof -
  let ?i = "snd (Client_Initialize demo_material (demo_client0 input))"
  have "client_step ?i (demo_connect ?i)"
    by (rule demo_connect_step) code_simp+
  with snd_initialize_step [of "demo_client0 input" demo_material] show ?thesis
    unfolding demo_client1_def by (metis converse_rtranclp_into_rtranclp rtranclp.rtrancl_refl)
qed

lemma demo_client2_reachable: "client_step\<^sup>*\<^sup>* (demo_client1 input) (demo_client2 input)"
proof -
  let ?i = "snd (Async_register (Some demo_request) (demo_client1 input))"
  have "client_step ?i (demo_client2 input)"
    unfolding demo_client2_def by (rule the_push_step) code_simp+
  with snd_register_step show ?thesis
    by (metis converse_rtranclp_into_rtranclp rtranclp.rtrancl_refl)
qed


section \<open>The properties\<close>

text \<open>The queue over a step: it is created once and never opened again.\<close>

definition queue_gone :: "node_client \<Rightarrow> bool" where
  "queue_gone s \<longleftrightarrow> cl_initialized s \<and> (\<exists>q. cl_queue s = Some q \<and> q_shutdown q)"

definition client_wf :: "node_client \<Rightarrow> bool" where
  "client_wf s \<longleftrightarrow> (cl_connected s \<longrightarrow> cl_initialized s) \<and> (cl_initialized s \<longrightarrow> cl_queue s \<noteq> None)"

definition queue_order :: "node_client \<Rightarrow> node_client \<Rightarrow> bool" where
  "queue_order s s' \<longleftrightarrow> (cl_initialized s \<longrightarrow> cl_initialized s')
     \<and> (cl_initialized s' \<longrightarrow> cl_initialized s \<or> cl_queue s' \<noteq> None)
     \<and> (cl_initialized s \<longrightarrow> (case cl_queue s of None \<Rightarrow> cl_queue s' = None
          | Some q \<Rightarrow> \<exists>q'. cl_queue s' = Some q' \<and> (q_shutdown q \<longrightarrow> q_shutdown q')))"

lemma queue_order_books: "books s' = books s \<Longrightarrow> queue_order s s'"
  by (drule books_queue) (auto simp: queue_order_def split: option.splits)

lemma queue_order_gone: "queue_order s s' \<Longrightarrow> queue_gone s \<Longrightarrow> queue_gone s'"
  by (auto simp: queue_order_def queue_gone_def)

lemma resolve_queue [simp]: "cl_initialized (resolve i out s) = cl_initialized s"
  "cl_queue (resolve i out s) = cl_queue s" "cl_connected (resolve i out s) = cl_connected s"
  by (simp_all add: resolve_def)

lemma pop_shutdown: "Pop q = Some (r, x, q') \<Longrightarrow> q_shutdown q' = q_shutdown q"
  by (auto simp: queue_defs split: if_split_asm list.splits)

lemma push_shutdown: "TryPush x q = (r, q') \<Longrightarrow> q_shutdown q' = q_shutdown q"
  by (auto simp: queue_defs split: if_split_asm)

lemma SendLoop_queue_order:
  assumes step: "Client_SendLoop_step now s = Some s'"
  shows "queue_order s s' \<and> cl_connected s' = cl_connected s"
proof -
  have sm: "cl_connected s1 = cl_connected t \<and> cl_initialized s1 = cl_initialized t \<and> cl_queue s1 = cl_queue t"
    if "Client_SendMessage m now t = Some (ok, s1)" for m t ok s1
    using books_queue [OF Client_SendMessage_books [OF that]] that
    by (auto simp: Client_SendMessage_def NotifyError_def Let_def
        split: option.splits bool.splits prod.splits if_splits)
  show ?thesis
  proof (cases "cl_send_pc s = T_io")
    case False
    with step show ?thesis
      by (auto simp: Client_SendLoop_step_def queue_order_def split: client_pc.splits option.splits)
  next
    case io: True
    with step obtain q r item q' where q: "cl_queue s = Some q" "Pop q = Some (r, item, q')"
      by (auto simp: Client_SendLoop_step_def split: option.splits)
    show ?thesis
    proof (cases "\<exists>m. r = SUCCESS \<and> item = Some m")
      case False
      with step io q show ?thesis
        by (auto simp: Client_SendLoop_step_def queue_order_def split: option.splits QueueResult.splits)
    next
      case True
      then obtain m where m: "r = SUCCESS" "item = Some m" by blast
      with step io q obtain ok s1 where c: "Client_SendMessage m now (s\<lparr>cl_queue := Some q'\<rparr>) = Some (ok, s1)"
        by (auto simp: Client_SendLoop_step_def split: option.splits)
      with step io q m sm [OF c] pop_shutdown [OF q(2)] show ?thesis
        by (cases ok) (auto simp: Client_SendLoop_step_def queue_order_def)
    qed
  qed
qed

lemma ReceiveLoop_queue_order:
  assumes step: "Client_ReceiveLoop_step now s = Some s'"
  shows "queue_order s s' \<and> cl_connected s' = cl_connected s"
proof (cases "cl_recv_pc s = T_io")
  case False
  with step show ?thesis
    by (auto simp: Client_ReceiveLoop_step_def queue_order_def split: client_pc.splits option.splits)
next
  case io: True
  with step obtain x s1 where rm: "Client_ReceiveMessage now s = Some (x, s1)"
    by (auto simp: Client_ReceiveLoop_step_def split: option.splits)
  have "cl_connected s1 = cl_connected s"
    using rm by (auto simp: Client_ReceiveMessage_def split: option.splits bool.splits prod.splits if_splits)
  with step io rm books_queue [OF Client_ReceiveMessage_books [OF rm]] show ?thesis
    by (cases x) (auto simp: Client_ReceiveLoop_step_def Let_def queue_order_def split: option.splits)
qed

lemma Client_Connect_keeps:
  assumes c: "Client_Connect k a b g created fd_ok sni_ok err_text now s = Some (ok, s')" and wf: "client_wf s"
  shows "client_wf s' \<and> queue_order s s'"
proof -
  have bk: "cl_initialized s' = cl_initialized s" "cl_queue s' = cl_queue s"
    using books_queue [OF Client_Connect_books [OF c]] by simp_all
  have "s' = s" if "\<not> cl_initialized s"
    using c wf that by (simp add: Client_Connect_def client_wf_def split: if_split_asm)
  with wf bk queue_order_books [OF Client_Connect_books [OF c]] show ?thesis
    by (cases "cl_initialized s") (simp_all add: client_wf_def)
qed

lemma Client_Initialize_keeps:
  assumes c: "Client_Initialize w s = (r, s')" and wf: "client_wf s"
  shows "client_wf s' \<and> queue_order s s'"
  using assms by (auto simp: Client_Initialize_def client_wf_def queue_order_def
      split: if_split_asm sum.splits option.splits)

lemma Disconnect_begin_queue:
  "Disconnect_begin s = (r, s') \<Longrightarrow>
     cl_initialized s' = cl_initialized s \<and> (cl_connected s' \<longrightarrow> cl_connected s)
     \<and> cl_queue s' = (if r then map_option Shutdown (cl_queue s) else cl_queue s)"
  by (auto simp: Disconnect_begin_def CleanupSocket_def Let_def split: if_split_asm option.splits)

lemma Disconnect_begin_keeps:
  assumes c: "Disconnect_begin s = (r, s')" and wf: "client_wf s"
  shows "client_wf s' \<and> queue_order s s'"
  using Disconnect_begin_queue [OF c] wf
  by (auto simp: client_wf_def queue_order_def Shutdown_def split: if_split_asm option.splits)

lemma Async_push_keeps:
  assumes c: "Async_push serialize now job s = Some (x, s')" and wf: "client_wf s"
  shows "client_wf s' \<and> queue_order s s'"
proof -
  obtain q where q: "cl_queue s = Some q" using c by (auto simp: Async_push_def Let_def split: option.splits prod.splits)
  have "cl_connected s' = cl_connected s \<and> cl_initialized s' = cl_initialized s
     \<and> (\<exists>q'. cl_queue s' = Some q' \<and> q_shutdown q' = q_shutdown q)"
    using c q by (cases job)
      (auto simp: Async_push_def Let_def dest!: push_shutdown split: sum.splits prod.splits if_split_asm)
  with wf q show ?thesis by (auto simp: client_wf_def queue_order_def)
qed

lemma client_step_keeps:
  assumes "client_step s s'" and "client_wf s" shows "client_wf s' \<and> queue_order s s'"
  using assms
proof (induction rule: client_step.induct)
  case (cs_initialize w s r s')
  then show ?case by (rule Client_Initialize_keeps)
next
  case (cs_connect s sock address_ok connect_ok GetString created fd_ok sni_ok err_text now ok s')
  show ?case using cs_connect(3,4) by (rule Client_Connect_keeps)
next
  case (cs_disconnect s r s')
  then show ?case by (rule Disconnect_begin_keeps)
next
  case (cs_finish s s')
  then show ?case
    by (auto simp: Disconnect_finish_def client_wf_def queue_order_def split: if_split_asm option.splits)
next
  case (cs_register request s x s')
  then show ?case
    by (auto simp: Async_register_def client_wf_def queue_order_def Let_def split: if_split_asm option.splits)
next
  case (cs_push job s serialize now x s')
  show ?case using cs_push(2,3) by (rule Async_push_keeps)
next
  case (cs_timeout s req_id)
  then show ?case
    by (auto simp: SendRequest_timeout_def client_wf_def queue_order_def split: option.splits)
next
  case (cs_send now s s')
  with SendLoop_queue_order [OF cs_send(1)] show ?case by (auto simp: client_wf_def queue_order_def)
next
  case (cs_receive now s s')
  with ReceiveLoop_queue_order [OF cs_receive(1)] show ?case by (auto simp: client_wf_def queue_order_def)
qed

lemma client_wf_reachable:
  "client_step\<^sup>*\<^sup>* (NodeTcpClient_new n a p t sh c k e) s \<Longrightarrow> client_wf s"
  by (induction rule: rtranclp_induct)
    (use client_step_keeps in \<open>auto simp: NodeTcpClient_new_def client_wf_def\<close>)

lemma queue_gone_for_ever:
  assumes "client_step\<^sup>*\<^sup>* s s'" and "client_wf s" and "queue_gone s"
  shows "client_wf s' \<and> queue_gone s'"
  using assms by (induction rule: rtranclp_induct) (use client_step_keeps queue_order_gone in blast)+

lemma Disconnect_begin_gone:
  assumes "Disconnect_begin s = (True, s')" and wf: "client_wf s"
  shows "queue_gone s'"
proof -
  have "cl_connected s" using assms(1) by (auto simp: Disconnect_begin_def split: if_split_asm)
  with wf obtain q where "cl_initialized s" "cl_queue s = Some q" by (auto simp: client_wf_def)
  with Disconnect_begin_queue [OF assms(1)] show ?thesis
    by (auto simp: queue_gone_def Shutdown_def)
qed

lemma push_when_gone:
  assumes "queue_gone s" and c: "Async_push serialize now job s = Some (x, s')"
  shows "\<exists>ex. x = Inl ex"
  using assms by (cases job)
    (auto simp: Async_push_def queue_gone_def queue_defs Let_def split: sum.splits if_split_asm)

lemma demo_new: "\<exists>e. demo_client0 input = NodeTcpClient_new ''n1'' ''10.0.0.7'' 9000 AWS 1 ''c.pem'' ''k1'' e"
  unfolding demo_client0_def by blast

text \<open>
  C4. In every run of a client, whatever the interleaving of its callers, its two loops,
  timeouts, lost connections and reconnections, the request ids are issued in order without
  repetition, and every id issued is in exactly one place: still pending, completed (with a
  response or an error), or rejected because the send queue refused it. A response completes
  only the promise of its own request id, and only after it passed validation.
\<close>

theorem promises_exactly_once:
  assumes "client_step\<^sup>*\<^sup>* (NodeTcpClient_new n a p t sh c k e) s" and "length (cl_issued s) < 2 ^ 64"
  shows "distinct (cl_issued s)
     \<and> mset (cl_issued s) = mset (cl_pending s) + mset (map fst (cl_resolved s)) + mset (cl_rejected s)
     \<and> (\<forall>i m. (i, Reply m) \<in> set (cl_resolved s) \<longrightarrow> mh_request_id (nm_header m) = i \<and> Validate m = OK)"
  using promise_inv_reachable [OF assms(1)] promise_inv_distinct(1) [OF _ assms(2)] assms(2)
  by (simp add: promise_inv_def)

lemma demo_reply_facts:
  "Validate demo_reply = OK" "well_sized demo_reply" "GetTotalSize demo_reply = 34"
  using hello_facts by (simp_all add: demo_reply_def Validate_OK_iff well_sized_def GetTotalSize_def)

definition demo_reading :: "bytes \<Rightarrow> node_client" where
  "demo_reading input = the (Client_ReceiveLoop_step 13 (demo_client2 input))"

lemma demo_reading_step: "client_step (demo_client2 input) (demo_reading input)"
  unfolding demo_reading_def by (rule the_receive_step) code_simp

lemma demo_reading_facts:
  "te_in (cl_env (demo_reading input)) = input"
  "te_reads (cl_env (demo_reading input)) = replicate 34 (Progress 63)"
  "te_selects (cl_env (demo_reading input)) = []" "cl_tls (demo_reading input) \<noteq> None"
  "tc_state (the (cl_tls (demo_reading input))) = S_CONNECTED"
  "cl_connected (demo_reading input)" "cl_recv_pc (demo_reading input) = T_io"
  "cl_pending (demo_reading input) = [1]" "cl_resolved (demo_reading input) = []"
  "cl_issued (demo_reading input) = [1]"
  by code_simp+

lemma demo_reply_received:
  "\<exists>s. client_step\<^sup>*\<^sup>* (demo_client2 (message_image demo_reply)) s
     \<and> cl_pending s = [] \<and> cl_resolved s = [(1, Reply demo_reply)] \<and> cl_issued s = [1]"
proof -
  let ?in = "message_image demo_reply"
  let ?r = "demo_reading ?in"
  note r = demo_reading_step [of ?in] and f = demo_reading_facts [of ?in]
  obtain c where c: "cl_tls ?r = Some c" "tc_state c = S_CONNECTED" using f by auto
  have count: "progress_count (replicate m (Progress k)) = m" for m k by (induction m) auto
  have ok: "healthy SSL_ERROR_WANT_READ (replicate m (Progress k)) []" for m k
    by (auto simp: healthy_def count list_all_iff)
  obtain c' e' where rm: "ReadMessage c (cl_env ?r) = Some (Some demo_reply, c', e')"
    using ReadMessage_complete [of c "cl_env ?r" demo_reply "[]"] c f
    by (auto simp: count ok demo_reply_facts)
  define s where "s = the (Client_ReceiveLoop_step 13 ?r)"
  have l: "Client_ReceiveLoop_step 13 ?r \<noteq> None" "cl_pending s = []" "cl_resolved s = [(1, Reply demo_reply)]"
    "cl_issued s = [1]"
    using c f rm
    by (simp_all add: s_def Client_ReceiveLoop_step_def Client_ReceiveMessage_def resolve_def demo_reply_def Let_def)
  have "client_step ?r s" unfolding s_def by (rule the_receive_step) (use l in \<open>simp add: Option.is_none_def\<close>)
  with r l show ?thesis by (meson converse_rtranclp_into_rtranclp rtranclp.rtrancl_refl)
qed

theorem promises_exactly_once_witness:
  "\<exists>e s. client_step\<^sup>*\<^sup>* (NodeTcpClient_new ''n1'' ''10.0.0.7'' 9000 AWS 1 ''c.pem'' ''k1'' e) s
     \<and> distinct (cl_issued s) \<and> cl_pending s = [] \<and> cl_resolved s = [(1, Reply demo_reply)]
     \<and> mh_request_id (nm_header demo_reply) = 1 \<and> Validate demo_reply = OK"
proof -
  let ?in = "message_image demo_reply"
  obtain e where e: "demo_client0 ?in = NodeTcpClient_new ''n1'' ''10.0.0.7'' 9000 AWS 1 ''c.pem'' ''k1'' e"
    using demo_new by blast
  obtain s where s: "client_step\<^sup>*\<^sup>* (demo_client2 ?in) s" "cl_pending s = []"
    "cl_resolved s = [(1, Reply demo_reply)]" "cl_issued s = [1]"
    using demo_reply_received by blast
  have r: "client_step\<^sup>*\<^sup>* (NodeTcpClient_new ''n1'' ''10.0.0.7'' 9000 AWS 1 ''c.pem'' ''k1'' e) s"
    using demo_client1_reachable demo_client2_reachable s(1) e by (metis rtranclp_trans)
  with promises_exactly_once [OF r] s show ?thesis by (intro exI [of _ e] exI [of _ s]) simp
qed

text \<open>
  C34. A client that was disconnected once never sends again: \<open>Disconnect\<close> shuts the send queue
  down and nothing reopens it, because \<open>Initialize\<close> creates the queue only the first time.
  \<open>Connect\<close> succeeds afterwards, but in whatever state the client is then, connected or not,
  every request is refused.
\<close>

theorem client_dead_after_disconnect:
  assumes "client_step\<^sup>*\<^sup>* (NodeTcpClient_new n a p t sh c k e) s" and "Disconnect_begin s = (True, s1)"
    and "client_step\<^sup>*\<^sup>* s1 s2" and "Async_push serialize now job s2 = Some (x, s3)"
  shows "\<exists>ex. x = Inl ex"
proof -
  have wf: "client_wf s" using client_wf_reachable [OF assms(1)] .
  have "client_wf s1" "queue_gone s1"
    using Disconnect_begin_keeps [OF assms(2) wf] Disconnect_begin_gone [OF assms(2) wf] by simp_all
  with queue_gone_for_ever [OF assms(3)] have "queue_gone s2" by simp
  with assms(4) show ?thesis by (rule push_when_gone [rotated])
qed

definition demo_down :: node_client where
  "demo_down = the (Disconnect_finish (the (Client_ReceiveLoop_step 14 (the (Client_SendLoop_step 14
     (snd (Disconnect_begin (demo_client1 []))))))))"

definition demo_again :: node_client where
  "demo_again = snd (Async_register (Some demo_request) (demo_connect demo_down))"

lemma demo_again_reachable: "client_step\<^sup>*\<^sup>* (snd (Disconnect_begin (demo_client1 []))) demo_again"
proof -
  let ?a = "snd (Disconnect_begin (demo_client1 []))"
  let ?b = "the (Client_SendLoop_step 14 ?a)"
  let ?c = "the (Client_ReceiveLoop_step 14 ?b)"
  have a: "client_step ?a ?b" by (rule the_send_step) code_simp
  have b: "client_step ?b ?c" by (rule the_receive_step) code_simp
  have c: "client_step ?c demo_down" unfolding demo_down_def by (rule the_finish_step) code_simp
  have d: "client_step demo_down (demo_connect demo_down)" by (rule demo_connect_step) code_simp+
  have e: "client_step (demo_connect demo_down) demo_again" unfolding demo_again_def by (rule snd_register_step)
  from a b c d e show ?thesis by (meson converse_rtranclp_into_rtranclp rtranclp.rtrancl_refl)
qed

theorem client_dead_after_disconnect_witness:
  "cl_connected demo_again \<and> cl_pending demo_again = [1]
   \<and> (\<exists>ex s3. Async_push (\<lambda>_. Some '''') 20 (1, demo_request) demo_again = Some (Inl ex, s3))"
proof -
  obtain e where e: "demo_client0 [] = NodeTcpClient_new ''n1'' ''10.0.0.7'' 9000 AWS 1 ''c.pem'' ''k1'' e"
    using demo_new by blast
  have r: "client_step\<^sup>*\<^sup>* (NodeTcpClient_new ''n1'' ''10.0.0.7'' 9000 AWS 1 ''c.pem'' ''k1'' e) (demo_client1 [])"
    using demo_client1_reachable [of "[]"] e by simp
  have "fst (Disconnect_begin (demo_client1 []))" by code_simp
  then have d: "Disconnect_begin (demo_client1 []) = (True, snd (Disconnect_begin (demo_client1 [])))"
    by (metis prod.collapse)
  have "\<not> Option.is_none (Async_push (\<lambda>_. Some '''') 20 (1, demo_request) demo_again)" by code_simp
  then obtain x s3 where p: "Async_push (\<lambda>_. Some '''') 20 (1, demo_request) demo_again = Some (x, s3)"
    by (auto simp: Option.is_none_def)
  have "cl_connected demo_again" "cl_pending demo_again = [1]" by code_simp+
  with client_dead_after_disconnect [OF r d demo_again_reachable p] p show ?thesis by auto
qed

end
