(* ===== verification/Client_Lifecycle.thy ===== *)
theory Client_Lifecycle
  imports Node_Tcp_Client
begin

text \<open>
  The client's \<open>Disconnect\<close> from its first line to its last, threads included, and the proof
  that it always returns: the part of \<open>NodeTcpClient.cpp\<close> that the coordinator's server calls
  on every node.
\<close>

section \<open>Disconnect as a whole\<close>

text \<open>
  \<open>Disconnect\<close> run to its end by itself: both loops see the closed connection and end, then the
  pending promises fail. Two steps of fuel are enough, since each loop ends in its next step.
\<close>

fun run_thread :: "nat \<Rightarrow> (node_client \<Rightarrow> node_client option) \<Rightarrow> (node_client \<Rightarrow> client_pc) \<Rightarrow> node_client \<Rightarrow> node_client option" where
  "run_thread n step pc s =
     (if pc s = T_done then Some s
      else case n of
        0 \<Rightarrow> None
      | Suc k \<Rightarrow> (case step s of None \<Rightarrow> None | Some s' \<Rightarrow> run_thread k step pc s'))"

declare run_thread.simps [simp del]

definition Client_Disconnect :: "u64 \<Rightarrow> node_client \<Rightarrow> node_client option" where
  "Client_Disconnect now s =
     (case Disconnect_begin s of
        (False, s1) \<Rightarrow> Some s1
      | (True, s1) \<Rightarrow>
          (case run_thread 2 (Client_SendLoop_step now) cl_send_pc s1 of
             None \<Rightarrow> None
           | Some s2 \<Rightarrow>
               (case run_thread 2 (Client_ReceiveLoop_step now) cl_recv_pc s2 of
                  None \<Rightarrow> None
                | Some s3 \<Rightarrow> Disconnect_finish s3)))"

definition threads_inv :: "node_client \<Rightarrow> bool" where
  "threads_inv s \<longleftrightarrow> (cl_connected s \<longrightarrow> cl_threads_running s)
     \<and> (cl_threads_running s \<longrightarrow> cl_send_pc s \<noteq> T_off \<and> cl_recv_pc s \<noteq> T_off)"

definition thread_state :: "node_client \<Rightarrow> bool \<times> bool \<times> client_pc \<times> client_pc" where
  "thread_state s = (cl_connected s, cl_threads_running s, cl_send_pc s, cl_recv_pc s)"

lemma threads_inv_cong: "thread_state s' = thread_state s \<Longrightarrow> threads_inv s \<Longrightarrow> threads_inv s'"
  by (simp add: thread_state_def threads_inv_def)

lemma thread_state_simps [simp]:
  "thread_state (NotifyError e m s) = thread_state s" "thread_state (CleanupSocket s) = thread_state s"
  "thread_state (count_failed_attempt s) = thread_state s" "thread_state (resolve i out s) = thread_state s"
  by (simp_all add: NotifyError_def CleanupSocket_def count_failed_attempt_def resolve_def thread_state_def Let_def
      split: option.splits)

lemma EstablishTls_threads:
  "EstablishTlsConnection g created fd_ok sni_ok err_text s = Some (ok, s') \<Longrightarrow> thread_state s' = thread_state s"
  by (auto simp: EstablishTlsConnection_def thread_state_def Let_def
      split: sum.splits option.splits prod.splits bool.splits)

lemma socket_threads:
  "InitializeSocket k s = (ok, s') \<Longrightarrow> thread_state s' = thread_state s"
  "ConnectSocket a b s = (ok, s') \<Longrightarrow> thread_state s' = thread_state s"
  by (auto simp: InitializeSocket_def ConnectSocket_def thread_state_def NotifyError_def Let_def split: if_splits)

lemma Client_Connect_threads:
  assumes c: "Client_Connect k a b g created fd_ok sni_ok err_text now s = Some (ok, s')"
  shows "thread_state s' = thread_state s \<or> thread_state s' = (True, True, T_check, T_check)"
proof -
  have v: "thread_state (t\<lparr>cl_info := x\<rparr>) = thread_state t"
    "thread_state (mark_connected now t) = (True, True, T_check, T_check)" for t x
    by (simp_all add: thread_state_def mark_connected_def)
  show ?thesis
    by (rule Client_Connect_view [of k a b g created fd_ok sni_ok err_text now s ok s' thread_state, OF c])
      (simp_all add: v EstablishTls_threads socket_threads)
qed

lemma io_threads:
  "Client_SendMessage m now s = Some (ok, s') \<Longrightarrow> thread_state s' = thread_state s"
  "Client_ReceiveMessage now s = Some (x, s') \<Longrightarrow> thread_state s' = thread_state s"
  by (auto simp: Client_SendMessage_def Client_ReceiveMessage_def thread_state_def NotifyError_def Let_def
      split: option.splits bool.splits prod.splits if_splits)

lemma resolve_simps [simp]:
  "cl_threads_running (resolve i out s) = cl_threads_running s" "cl_send_pc (resolve i out s) = cl_send_pc s"
  "cl_recv_pc (resolve i out s) = cl_recv_pc s"
  by (simp_all add: resolve_def)

lemma loops_threads:
  "Client_SendLoop_step now s = Some s' \<Longrightarrow> cl_connected s' = cl_connected s \<and> cl_threads_running s' = cl_threads_running s
     \<and> cl_recv_pc s' = cl_recv_pc s \<and> cl_send_pc s' \<noteq> T_off"
  "Client_ReceiveLoop_step now s = Some s' \<Longrightarrow> cl_connected s' = cl_connected s \<and> cl_threads_running s' = cl_threads_running s
     \<and> cl_send_pc s' = cl_send_pc s \<and> cl_recv_pc s' \<noteq> T_off"
  by (auto simp: Client_SendLoop_step_def Client_ReceiveLoop_step_def thread_state_def Let_def
      dest!: io_threads split: client_pc.splits option.splits prod.splits bool.splits QueueResult.splits if_split_asm)

lemma client_step_threads: "client_step s s' \<Longrightarrow> threads_inv s \<Longrightarrow> threads_inv s'"
proof (induction rule: client_step.induct)
  case (cs_connect s sock address_ok connect_ok GetString created fd_ok sni_ok err_text now ok s')
  from Client_Connect_threads [OF cs_connect(3)] cs_connect(4) show ?case
    by (auto simp: thread_state_def threads_inv_def)
next
  case (cs_send now s s')
  from loops_threads(1) [OF cs_send(1)] cs_send(2) show ?case by (auto simp: threads_inv_def)
next
  case (cs_receive now s s')
  from loops_threads(2) [OF cs_receive(1)] cs_receive(2) show ?case by (auto simp: threads_inv_def)
next
  case (cs_disconnect s r s')
  then show ?case
    by (auto simp: Disconnect_begin_def CleanupSocket_def threads_inv_def Let_def split: if_split_asm option.splits)
next
  case (cs_timeout s req_id)
  then show ?case by (simp add: SendRequest_timeout_def threads_inv_def)
qed (auto simp: Client_Initialize_def Disconnect_finish_def Async_register_def Async_push_def threads_inv_def Let_def
      split: if_split_asm sum.splits option.splits prod.splits)

lemma threads_inv_reachable:
  "client_step\<^sup>*\<^sup>* (NodeTcpClient_new n a p t sh c k e) s \<Longrightarrow> threads_inv s"
proof (induction rule: rtranclp_induct)
  case base
  show ?case by (simp add: threads_inv_def NodeTcpClient_new_def)
qed (rule client_step_threads)

text \<open>After the first part of \<open>Disconnect\<close> each loop ends in its next step.\<close>

definition fails_only :: "node_client \<Rightarrow> node_client \<Rightarrow> bool" where
  "fails_only s s' \<longleftrightarrow>
     (\<forall>i \<in> set (cl_pending s). i \<in> set (cl_pending s') \<or> (\<exists>e. (i, Failure e) \<in> set (cl_resolved s')))
     \<and> (\<forall>x \<in> set (cl_resolved s'). x \<in> set (cl_resolved s) \<or> (\<exists>i e. x = (i, Failure e)))
     \<and> set (cl_resolved s) \<subseteq> set (cl_resolved s')"

lemma fails_only_trans: "fails_only s t \<Longrightarrow> fails_only t u \<Longrightarrow> fails_only s u"
  unfolding fails_only_def by (meson subset_iff)

lemma fails_only_resolve: "promises s' = promises (resolve i (Failure e) s) \<Longrightarrow> fails_only s s'"
  by (auto simp: fails_only_def resolve_def promises_def split: if_split_asm)

lemma fails_only_same: "promises s' = promises s \<Longrightarrow> fails_only s s'"
  by (auto simp: fails_only_def promises_def)

lemma SendLoop_closed:
  assumes "cl_send_pc s \<noteq> T_off" "cl_send_pc s \<noteq> T_done" "\<not> cl_connected s" "\<not> cl_threads_running s"
    and "cl_queue s = Some q" "q_shutdown q"
  obtains s' where "Client_SendLoop_step now s = Some s'" "cl_send_pc s' = T_done" "fails_only s s'"
proof (cases "cl_send_pc s")
  case T_check
  with assms that show thesis
    by (simp add: Client_SendLoop_step_def fails_only_same promises_def)
next
  case T_io
  show thesis
  proof (cases "q_items q")
    case Nil
    with T_io assms that show thesis
      by (simp add: Client_SendLoop_step_def queue_defs fails_only_same promises_def)
  next
    case (Cons m ms)
    let ?t = "NotifyError CONNECTION_ERROR ''Not connected or TLS not established'' (s\<lparr>cl_queue := Some (q\<lparr>q_items := ms\<rparr>)\<rparr>)"
    let ?s = "(resolve (mh_request_id (nm_header m)) (Failure ''Send failed'') ?t)\<lparr>cl_send_pc := T_done\<rparr>"
    have "fails_only s ?t" by (rule fails_only_same) (simp add: NotifyError_def promises_def)
    moreover have "fails_only ?t ?s" by (rule fails_only_resolve) (simp add: promises_def)
    ultimately have "fails_only s ?s" by (rule fails_only_trans)
    moreover have "Client_SendLoop_step now s = Some ?s"
      using T_io Cons assms by (simp add: Client_SendLoop_step_def queue_defs Client_SendMessage_def)
    ultimately show thesis by (intro that) simp_all
  qed
qed (use assms in simp_all)

lemma ReceiveLoop_closed:
  assumes "cl_recv_pc s \<noteq> T_off" "cl_recv_pc s \<noteq> T_done" "\<not> cl_connected s" "\<not> cl_threads_running s"
  shows "Client_ReceiveLoop_step now s = Some (s\<lparr>cl_recv_pc := T_done\<rparr>)"
  using assms by (cases "cl_recv_pc s") (simp_all add: Client_ReceiveLoop_step_def Client_ReceiveMessage_def)

lemma run_thread_done [simp]: "pc s = T_done \<Longrightarrow> run_thread n step pc s = Some s"
  by (simp add: run_thread.simps)

lemma run_thread_once:
  "pc s \<noteq> T_done \<Longrightarrow> step s = Some s' \<Longrightarrow> pc s' = T_done \<Longrightarrow> run_thread (Suc n) step pc s = Some s'"
  by (subst run_thread.simps) simp

lemma send_thread_joins:
  assumes "cl_send_pc s \<noteq> T_off" "\<not> cl_connected s" "\<not> cl_threads_running s" "cl_queue s = Some q" "q_shutdown q"
  obtains s' where "run_thread 2 (Client_SendLoop_step now) cl_send_pc s = Some s'" "cl_send_pc s' = T_done"
    "fails_only s s'" "\<not> cl_connected s'" "\<not> cl_threads_running s'" "cl_recv_pc s' = cl_recv_pc s"
proof (cases "cl_send_pc s = T_done")
  case True
  show thesis by (rule that [of s]) (use True assms in \<open>simp_all add: fails_only_same\<close>)
next
  case no: False
  obtain s' where s': "Client_SendLoop_step now s = Some s'" "cl_send_pc s' = T_done" "fails_only s s'"
    using SendLoop_closed [OF assms(1) no assms(2-5)] by blast
  from loops_threads(1) [OF s'(1)] assms no s' show thesis
    by (intro that [of s']) (simp_all add: run_thread_once numeral_2_eq_2)
qed

lemma receive_thread_joins:
  assumes "cl_recv_pc s \<noteq> T_off" "\<not> cl_connected s" "\<not> cl_threads_running s"
  obtains s' where "run_thread 2 (Client_ReceiveLoop_step now) cl_recv_pc s = Some s'" "cl_recv_pc s' = T_done"
    "fails_only s s'" "\<not> cl_connected s'" "\<not> cl_threads_running s'" "cl_send_pc s' = cl_send_pc s"
proof (cases "cl_recv_pc s = T_done")
  case True
  show thesis by (rule that [of s]) (use True assms in \<open>simp_all add: fails_only_same\<close>)
next
  case no: False
  have "Client_ReceiveLoop_step now s = Some (s\<lparr>cl_recv_pc := T_done\<rparr>)"
    by (rule ReceiveLoop_closed) (use assms no in simp_all)
  with no assms show thesis
    by (intro that [of "s\<lparr>cl_recv_pc := T_done\<rparr>"])
      (simp_all add: run_thread_once numeral_2_eq_2 fails_only_same promises_def)
qed

lemma Disconnect_begin_state:
  assumes "Disconnect_begin s = (True, s1)"
  shows "cl_connected s" "\<not> cl_connected s1" "\<not> cl_threads_running s1"
    "cl_send_pc s1 = cl_send_pc s" "cl_recv_pc s1 = cl_recv_pc s"
  using assms by (auto simp: Disconnect_begin_def CleanupSocket_def Let_def split: if_split_asm option.splits)

lemma Disconnect_finish_fails:
  "Disconnect_finish s = Some s' \<Longrightarrow> fails_only s s' \<and> cl_pending s' = [] \<and> cl_connected s' = cl_connected s
     \<and> cl_send_pc s' = T_off \<and> cl_recv_pc s' = T_off"
  by (auto simp: Disconnect_finish_def fails_only_def image_iff split: if_split_asm)

lemma Client_Disconnect_total:
  assumes wf: "client_wf s" and tinv: "threads_inv s"
  shows "\<exists>s'. Client_Disconnect now s = Some s' \<and> \<not> cl_connected s'
     \<and> (if cl_connected s then
          cl_pending s' = [] \<and> cl_send_pc s' = T_off \<and> cl_recv_pc s' = T_off
          \<and> (\<forall>i \<in> set (cl_pending s). \<exists>err. (i, Failure err) \<in> set (cl_resolved s'))
          \<and> (\<forall>x \<in> set (cl_resolved s'). x \<in> set (cl_resolved s) \<or> (\<exists>i err. x = (i, Failure err)))
        else s' = s)"
proof (cases "Disconnect_begin s")
  case (Pair r s1)
  show ?thesis
  proof (cases r)
    case False
    with Pair show ?thesis by (auto simp: Client_Disconnect_def Disconnect_begin_def Let_def split: if_split_asm)
  next
    case True
    have b0: "Disconnect_begin s = (True, s1)" using Pair True by simp
    note b = Disconnect_begin_state [OF b0]
    have th: "cl_send_pc s1 \<noteq> T_off" "cl_recv_pc s1 \<noteq> T_off"
      using tinv b by (auto simp: threads_inv_def)
    obtain q where q: "cl_queue s1 = Some q" "q_shutdown q"
      using Disconnect_begin_gone [OF b0 wf] by (auto simp: queue_gone_def)
    have f1: "fails_only s s1" by (rule fails_only_same [OF Disconnect_begin_promises [OF b0]])
    obtain s2 where s2: "run_thread 2 (Client_SendLoop_step now) cl_send_pc s1 = Some s2" "cl_send_pc s2 = T_done"
      "fails_only s1 s2" "\<not> cl_connected s2" "\<not> cl_threads_running s2" "cl_recv_pc s2 = cl_recv_pc s1"
      using send_thread_joins [OF th(1) b(2,3) q] by blast
    obtain s3 where s3: "run_thread 2 (Client_ReceiveLoop_step now) cl_recv_pc s2 = Some s3" "cl_recv_pc s3 = T_done"
      "fails_only s2 s3" "\<not> cl_connected s3" "\<not> cl_threads_running s3" "cl_send_pc s3 = cl_send_pc s2"
      using receive_thread_joins [of s2] th(2) s2(4-6) by metis
    obtain s4 where s4: "Disconnect_finish s3 = Some s4" using s2 s3 by (simp add: Disconnect_finish_def)
    have "fails_only s s4"
      using f1 s2(3) s3(3) Disconnect_finish_fails [OF s4] fails_only_trans by blast
    with b0 b s2 s3 s4 Disconnect_finish_fails [OF s4] show ?thesis
      by (auto simp: Client_Disconnect_def fails_only_def)
  qed
qed



section \<open>What identifies a node\<close>

text \<open>The node's address, port, platform and shard are fixed when the client is built.\<close>

definition node_info :: "node_client \<Rightarrow> string \<times> u16 \<times> PlatformType \<times> u32" where
  "node_info s = (ci_address (cl_info s), ci_port (cl_info s), ci_platform (cl_info s), ci_shard_index (cl_info s))"

lemma node_info_simps [simp]:
  "node_info (NotifyError e m s) = node_info s" "node_info (CleanupSocket s) = node_info s"
  "node_info (count_failed_attempt s) = node_info s" "node_info (resolve i out s) = node_info s"
  by (simp_all add: NotifyError_def CleanupSocket_def count_failed_attempt_def resolve_def node_info_def Let_def
      split: option.splits)

lemma parts_info:
  "InitializeSocket k s = (ok, s') \<Longrightarrow> node_info s' = node_info s"
  "ConnectSocket a b s = (ok, s') \<Longrightarrow> node_info s' = node_info s"
  "EstablishTlsConnection g created fd_ok sni_ok err_text s = Some (ok, s') \<Longrightarrow> node_info s' = node_info s"
  "Client_SendMessage m now s = Some (ok, s') \<Longrightarrow> node_info s' = node_info s"
  "Client_ReceiveMessage now s = Some (x, s') \<Longrightarrow> node_info s' = node_info s"
  by (auto simp: InitializeSocket_def ConnectSocket_def EstablishTlsConnection_def Client_SendMessage_def
      Client_ReceiveMessage_def NotifyError_def node_info_def Let_def
      split: if_splits sum.splits option.splits prod.splits bool.splits)

lemma Client_Connect_info:
  assumes c: "Client_Connect k a b g created fd_ok sni_ok err_text now s = Some (ok, s')"
  shows "node_info s' = node_info s"
proof -
  have v: "node_info (t\<lparr>cl_info := (cl_info t)\<lparr>ci_attempt_time := n\<rparr>\<rparr>) = node_info t"
    "node_info (mark_connected now t) = node_info t" for t n
    by (simp_all add: node_info_def mark_connected_def)
  show ?thesis
    by (rule Client_Connect_view [of k a b g created fd_ok sni_ok err_text now s ok s' node_info, OF c])
      (simp_all add: v parts_info)
qed

lemma Client_Initialize_info: "Client_Initialize w s = (r, s') \<Longrightarrow> node_info s' = node_info s"
  by (auto simp: Client_Initialize_def node_info_def split: if_splits sum.splits)

lemma Disconnect_begin_info: "Disconnect_begin s = (r, s') \<Longrightarrow> node_info s' = node_info s"
  by (auto simp: Disconnect_begin_def CleanupSocket_def node_info_def Let_def split: if_splits option.splits)

lemma Disconnect_finish_info: "Disconnect_finish s = Some s' \<Longrightarrow> node_info s' = node_info s"
  by (auto simp: Disconnect_finish_def node_info_def split: if_splits)

lemma node_info_pc [simp]:
  "node_info (s\<lparr>cl_send_pc := p\<rparr>) = node_info s" "node_info (s\<lparr>cl_recv_pc := p\<rparr>) = node_info s"
  "node_info (s\<lparr>cl_queue := q\<rparr>) = node_info s"
  "node_info (s\<lparr>cl_send_pc := p, cl_info := (cl_info s)\<lparr>ci_last_comm := now\<rparr>\<rparr>) = node_info s"
  "node_info (s\<lparr>cl_recv_pc := p, cl_info := (cl_info s)\<lparr>ci_successful := n, ci_last_comm := now\<rparr>\<rparr>) = node_info s"
  by (simp_all add: node_info_def)

lemma loops_info:
  "Client_SendLoop_step now s = Some s' \<Longrightarrow> node_info s' = node_info s"
  "Client_ReceiveLoop_step now s = Some s' \<Longrightarrow> node_info s' = node_info s"
  by (auto simp: Client_SendLoop_step_def Client_ReceiveLoop_step_def Let_def dest!: parts_info(4,5)
      split: client_pc.splits option.splits prod.splits bool.splits QueueResult.splits if_split_asm)

lemma run_thread_info:
  assumes "run_thread n step pc s = Some s'" and "\<And>s s'. step s = Some s' \<Longrightarrow> node_info s' = node_info s"
  shows "node_info s' = node_info s"
  using assms(1)
proof (induction n arbitrary: s)
  case 0
  then show ?case by (subst (asm) run_thread.simps) (simp split: if_split_asm)
next
  case (Suc n)
  show ?case
  proof (cases "pc s = T_done")
    case True
    with Suc.prems show ?thesis by simp
  next
    case False
    with Suc.prems obtain t where "step s = Some t" "run_thread n step pc t = Some s'"
      by (subst (asm) run_thread.simps) (auto split: option.splits)
    with Suc.IH assms(2) show ?thesis by metis
  qed
qed

lemma Client_Disconnect_info:
  assumes "Client_Disconnect now s = Some s'" shows "node_info s' = node_info s"
  using assms loops_info
  by (auto simp: Client_Disconnect_def dest!: run_thread_info Disconnect_begin_info Disconnect_finish_info
      split: prod.splits bool.splits option.splits)

lemma NodeTcpClient_new_info [simp]:
  "node_info (NodeTcpClient_new n a p t sh c k e) = (a, p, t, sh)"
  by (simp add: node_info_def NodeTcpClient_new_def)

lemma run_thread_steps:
  assumes "run_thread n step pc s = Some s'" and "\<And>s s'. step s = Some s' \<Longrightarrow> client_step s s'"
  shows "client_step\<^sup>*\<^sup>* s s'"
  using assms(1)
proof (induction n arbitrary: s)
  case 0
  then show ?case by (subst (asm) run_thread.simps) (simp split: if_split_asm)
next
  case (Suc n)
  show ?case
  proof (cases "pc s = T_done")
    case True
    with Suc.prems show ?thesis by simp
  next
    case False
    with Suc.prems obtain t where "step s = Some t" "run_thread n step pc t = Some s'"
      by (subst (asm) run_thread.simps) (auto split: option.splits)
    with Suc.IH assms(2) show ?thesis by (meson converse_rtranclp_into_rtranclp)
  qed
qed

text \<open>The whole of \<open>Disconnect\<close> is a run of the client's steps.\<close>

lemma Client_Disconnect_steps:
  assumes "Client_Disconnect now s = Some s'" shows "client_step\<^sup>*\<^sup>* s s'"
proof -
  obtain r s1 where b: "Disconnect_begin s = (r, s1)" by (cases "Disconnect_begin s")
  show ?thesis
  proof (cases r)
    case False
    with assms b cs_disconnect [OF b] show ?thesis by (auto simp: Client_Disconnect_def)
  next
    case True
    with assms b obtain s2 s3 where "run_thread 2 (Client_SendLoop_step now) cl_send_pc s1 = Some s2"
      "run_thread 2 (Client_ReceiveLoop_step now) cl_recv_pc s2 = Some s3" "Disconnect_finish s3 = Some s'"
      by (auto simp: Client_Disconnect_def split: option.splits)
    then have "client_step\<^sup>*\<^sup>* s1 s2" "client_step\<^sup>*\<^sup>* s2 s3" "client_step s3 s'"
      using run_thread_steps cs_send cs_receive cs_finish by blast+
    with cs_disconnect [OF b] show ?thesis
      by (meson converse_rtranclp_into_rtranclp rtranclp.rtrancl_into_rtrancl rtranclp_trans)
  qed
qed

lemma client_steps_inv:
  "client_step\<^sup>*\<^sup>* s s' \<Longrightarrow> client_wf s \<Longrightarrow> threads_inv s \<Longrightarrow> client_wf s' \<and> threads_inv s'"
  by (induction rule: rtranclp_induct) (use client_step_keeps client_step_threads in blast)+

end
