(* ===== verification/Https_Session.thy ===== *)
theory Https_Session
  imports Routers "HOL-Library.Multiset"
begin

text \<open>
  One HTTPS connection of a wallet,
  \<open>src/coordinator/network/wallet_server/src/HttpsSession.cpp\<close>. The I/O completions (a read,
  a write), the handler tasks of the pool and the tail of \<open>OnRead\<close> that starts the write chain
  are steps that interleave, since the connection has no strand. A future is the number of its
  request; \<open>hs_received\<close> lists the parsed bodies of the requests in the order they were read
  (\<open>None\<close> for one that is not a message) and \<open>hs_written\<close> the responses handed to
  \<open>async_write\<close>. The parser and the printer of the messages are arguments, the router is the
  model's \<open>WalletMessageRouter\<close>.
\<close>

section \<open>Data\<close>

record WalletHttpResponse =
  rsp_status_code :: int
  rsp_status_text :: string
  rsp_message :: "WalletCoordinatorMessage option"

definition WalletHttpResponse_default :: WalletHttpResponse where
  "WalletHttpResponse_default = \<lparr>rsp_status_code = 200, rsp_status_text = ''OK'', rsp_message = None\<rparr>"

definition WalletCoordinatorMessage_default :: WalletCoordinatorMessage where
  "WalletCoordinatorMessage_default = \<lparr>wm_message_type = 0, wm_payload = None\<rparr>"

record wire_response =
  wr_status :: int
  wr_body :: string
  wr_keep_alive :: bool

datatype promise_state = Awaiting | Fulfilled WalletHttpResponse | Broken

datatype reader_pc = Rd_off | Rd_handshake | Rd_reading | Rd_got nat "WalletCoordinatorMessage option" | Rd_stopped

text \<open>\<open>Wr_idle\<close> is \<open>write_in_progress_ = false\<close>, every other value is \<open>true\<close>.\<close>

datatype writer_pc = Wr_idle | Wr_start | Wr_wait nat | Wr_sent bool | Wr_dead

type_synonym wallet_router = "(WalletCoordinatorMessage, WalletCoordinatorMessage) router"

record session =
  hs_active :: bool
  hs_reader :: reader_pc
  hs_writer :: writer_pc
  hs_kicks :: nat
  hs_pending :: "nat list"
  hs_promises :: "promise_state list"
  hs_jobs :: "(nat \<times> WalletCoordinatorMessage) list"
  hs_handled :: int
  hs_max_requests :: int
  hs_last_activity :: int
  hs_timeout :: int
  hs_shutdowns :: nat
  hs_received :: "WalletCoordinatorMessage option list"
  hs_written :: "(nat \<times> wire_response) list"

definition HttpsSession_new :: "int \<Rightarrow> int \<Rightarrow> int \<Rightarrow> session" where
  "HttpsSession_new max_requests timeout now =
     \<lparr>hs_active = False, hs_reader = Rd_off, hs_writer = Wr_idle, hs_kicks = 0, hs_pending = [],
      hs_promises = [], hs_jobs = [], hs_handled = 0, hs_max_requests = max_requests,
      hs_last_activity = now, hs_timeout = timeout, hs_shutdowns = 0, hs_received = [], hs_written = []\<rparr>"

section \<open>Operations\<close>

definition UpdateActivity :: "int \<Rightarrow> session \<Rightarrow> session" where
  "UpdateActivity now s = s\<lparr>hs_last_activity := now\<rparr>"

definition ShouldKeepAlive :: "int \<Rightarrow> session \<Rightarrow> bool" where
  "ShouldKeepAlive now s =
     (if hs_handled s \<ge> hs_max_requests s then False
      else if now - hs_last_activity s > hs_timeout s then False
      else True)"

definition DoClose :: "session \<Rightarrow> session" where
  "DoClose s = (if \<not> hs_active s then s else s\<lparr>hs_shutdowns := hs_shutdowns s + 1, hs_active := False\<rparr>)"

definition Session_Start :: "session \<Rightarrow> session" where
  "Session_Start s = (if hs_active s then s else s\<lparr>hs_active := True, hs_reader := Rd_handshake\<rparr>)"

definition Session_Stop :: "session \<Rightarrow> session" where
  "Session_Stop s = s\<lparr>hs_active := False\<rparr>"

definition DoRead :: "session \<Rightarrow> session" where
  "DoRead s = s\<lparr>hs_reader := if hs_active s then Rd_reading else Rd_stopped\<rparr>"

definition OnHandshake :: "bool \<Rightarrow> session \<Rightarrow> session option" where
  "OnHandshake ok s =
     (if hs_reader s \<noteq> Rd_handshake then None
      else Some (if ok then DoRead s else s\<lparr>hs_reader := Rd_stopped\<rparr>))"

text \<open>\<open>OnRead\<close> with any error code: the three branches differ in their log line only.\<close>

definition OnRead_error :: "session \<Rightarrow> session option" where
  "OnRead_error s =
     (if hs_reader s \<noteq> Rd_reading then None else Some (DoClose (s\<lparr>hs_reader := Rd_stopped\<rparr>)))"

text \<open>\<open>OnRead\<close> of a request, up to the push of its future \<dots>\<close>

definition OnRead_push :: "(string \<Rightarrow> WalletCoordinatorMessage option) \<Rightarrow> int \<Rightarrow> string \<Rightarrow> session \<Rightarrow> session option" where
  "OnRead_push parse now body s =
     (if hs_reader s \<noteq> Rd_reading then None
      else let n = length (hs_promises s) in
        Some ((UpdateActivity now s)\<lparr>hs_reader := Rd_got n (parse body),
          hs_promises := hs_promises s @ [Awaiting], hs_pending := hs_pending s @ [n],
          hs_received := hs_received s @ [parse body]\<rparr>))"

definition bad_request :: WalletHttpResponse where
  "bad_request = \<lparr>rsp_status_code = 400, rsp_status_text = ''Bad Request'',
     rsp_message = Some WalletCoordinatorMessage_default\<rparr>"

text \<open>\<dots> the answer to a body that is no message, or the submission to the pool, and the next read \<dots>\<close>

definition OnRead_dispatch :: "bool \<Rightarrow> session \<Rightarrow> session option" where
  "OnRead_dispatch submitted s =
     (case hs_reader s of
        Rd_got i None \<Rightarrow>
          (let s1 = s\<lparr>hs_promises := (hs_promises s)[i := Fulfilled bad_request],
                      hs_handled := hs_handled s + 1\<rparr>
           in Some ((DoRead s1)\<lparr>hs_kicks := hs_kicks s + 1\<rparr>))
      | Rd_got i (Some m) \<Rightarrow>
          (if \<not> submitted then
             Some (DoClose (s\<lparr>hs_promises := (hs_promises s)[i := Broken], hs_reader := Rd_stopped\<rparr>))
           else let s1 = s\<lparr>hs_jobs := hs_jobs s @ [(i, m)], hs_handled := hs_handled s + 1\<rparr>
             in Some ((DoRead s1)\<lparr>hs_kicks := hs_kicks s + 1\<rparr>))
      | _ \<Rightarrow> None)"

text \<open>\<dots> and the compare-and-exchange that starts the write chain.\<close>

definition OnRead_kick :: "session \<Rightarrow> session option" where
  "OnRead_kick s =
     (if hs_kicks s = 0 then None
      else Some (s\<lparr>hs_kicks := hs_kicks s - 1,
        hs_writer := (if hs_writer s = Wr_idle then Wr_start else hs_writer s)\<rparr>))"

text \<open>The handler task: only the promise's owner sets it, once.\<close>

definition ProcessRequest :: "wallet_router \<Rightarrow> WalletCoordinatorMessage \<Rightarrow> WalletHttpResponse behaviour" where
  "ProcessRequest router msg =
     (case WalletMessageRouter_ProcessMessage router (Some msg) of
        Undefined \<Rightarrow> Undefined
      | Returns (Some p) \<Rightarrow> Returns \<lparr>rsp_status_code = 200, rsp_status_text = ''OK'', rsp_message = Some p\<rparr>
      | Returns None \<Rightarrow> Returns \<lparr>rsp_status_code = 500, rsp_status_text = ''Internal Server Error'',
          rsp_message = None\<rparr>)"

definition pool_run :: "wallet_router \<Rightarrow> nat \<times> WalletCoordinatorMessage \<Rightarrow> session \<Rightarrow> session option" where
  "pool_run router job s =
     (if job \<notin> set (hs_jobs s) then None
      else case ProcessRequest router (snd job) of
        Undefined \<Rightarrow> None
      | Returns r \<Rightarrow> Some (s\<lparr>hs_jobs := remove1 job (hs_jobs s),
          hs_promises := (hs_promises s)[fst job := Fulfilled r]\<rparr>))"

text \<open>A task that the pool drops at its shutdown destroys its context and breaks the promise.\<close>

definition pool_drop :: "nat \<times> WalletCoordinatorMessage \<Rightarrow> session \<Rightarrow> session option" where
  "pool_drop job s =
     (if job \<notin> set (hs_jobs s) then None
      else Some (s\<lparr>hs_jobs := remove1 job (hs_jobs s), hs_promises := (hs_promises s)[fst job := Broken]\<rparr>))"

text \<open>\<open>DoWrite\<close>: the oldest future under the lock, then the wait for it and its response.\<close>

definition DoWrite_take :: "session \<Rightarrow> session option" where
  "DoWrite_take s =
     (if hs_writer s \<noteq> Wr_start then None
      else Some (case hs_pending s of
             [] \<Rightarrow> s\<lparr>hs_writer := Wr_idle\<rparr>
           | i # rest \<Rightarrow> s\<lparr>hs_pending := rest, hs_writer := Wr_wait i\<rparr>))"

definition response_body :: "(WalletCoordinatorMessage \<Rightarrow> string option) \<Rightarrow> WalletHttpResponse \<Rightarrow> string option" where
  "response_body serialize r = (case rsp_message r of None \<Rightarrow> Some [] | Some p \<Rightarrow> serialize p)"

definition DoWrite_send :: "(WalletCoordinatorMessage \<Rightarrow> string option) \<Rightarrow> int \<Rightarrow> session \<Rightarrow> session option" where
  "DoWrite_send serialize now s =
     (case hs_writer s of
        Wr_wait i \<Rightarrow>
          (case hs_promises s ! i of
             Awaiting \<Rightarrow> None
           | Broken \<Rightarrow> Some ((DoClose s)\<lparr>hs_writer := Wr_dead\<rparr>)
           | Fulfilled r \<Rightarrow>
               (case response_body serialize r of
                  None \<Rightarrow> Some ((DoClose s)\<lparr>hs_writer := Wr_dead\<rparr>)
                | Some body \<Rightarrow>
                    (let keep_alive = ShouldKeepAlive now s in
                     Some (s\<lparr>hs_writer := Wr_sent keep_alive,
                       hs_written := hs_written s @
                         [(i, \<lparr>wr_status = rsp_status_code r, wr_body = body, wr_keep_alive = keep_alive\<rparr>)]\<rparr>))))
      | _ \<Rightarrow> None)"

definition OnWrite :: "bool \<Rightarrow> int \<Rightarrow> session \<Rightarrow> session option" where
  "OnWrite failed now s =
     (case hs_writer s of
        Wr_sent keep_alive \<Rightarrow>
          (if failed then Some ((DoClose s)\<lparr>hs_writer := Wr_dead\<rparr>)
           else let s1 = UpdateActivity now s in
             if \<not> keep_alive then Some ((DoClose s1)\<lparr>hs_writer := Wr_dead\<rparr>)
             else Some (s1\<lparr>hs_writer := Wr_start\<rparr>))
      | _ \<Rightarrow> None)"

inductive session_step ::
  "(string \<Rightarrow> WalletCoordinatorMessage option) \<Rightarrow> (WalletCoordinatorMessage \<Rightarrow> string option) \<Rightarrow> wallet_router
     \<Rightarrow> session \<Rightarrow> session \<Rightarrow> bool"
  for parse serialize router where
  ss_start: "hs_reader s = Rd_off \<Longrightarrow> session_step parse serialize router s (Session_Start s)"
| ss_stop: "session_step parse serialize router s (Session_Stop s)"
| ss_handshake: "OnHandshake ok s = Some s' \<Longrightarrow> session_step parse serialize router s s'"
| ss_read_error: "OnRead_error s = Some s' \<Longrightarrow> session_step parse serialize router s s'"
| ss_push: "OnRead_push parse now body s = Some s' \<Longrightarrow> session_step parse serialize router s s'"
| ss_dispatch: "OnRead_dispatch submitted s = Some s' \<Longrightarrow> session_step parse serialize router s s'"
| ss_kick: "OnRead_kick s = Some s' \<Longrightarrow> session_step parse serialize router s s'"
| ss_run: "pool_run router job s = Some s' \<Longrightarrow> session_step parse serialize router s s'"
| ss_drop: "pool_drop job s = Some s' \<Longrightarrow> session_step parse serialize router s s'"
| ss_take: "DoWrite_take s = Some s' \<Longrightarrow> session_step parse serialize router s s'"
| ss_send: "DoWrite_send serialize now s = Some s' \<Longrightarrow> session_step parse serialize router s s'"
| ss_write: "OnWrite failed now s = Some s' \<Longrightarrow> session_step parse serialize router s s'"

inductive_cases session_stepE: "session_step parse serialize router s s'"

section \<open>Invariants\<close>

text \<open>The futures leave the queue in the order of the requests, one at a time.\<close>

definition order_inv :: "session \<Rightarrow> bool" where
  "order_inv s \<longleftrightarrow>
     (let k = length (hs_written s); n = length (hs_received s) in
      length (hs_promises s) = n \<and> map fst (hs_written s) = [0..<k] \<and> k \<le> n
      \<and> (case hs_writer s of
           Wr_wait i \<Rightarrow> i = k \<and> k < n \<and> hs_pending s = [Suc k..<n]
         | Wr_dead \<Rightarrow> True
         | _ \<Rightarrow> hs_pending s = [k..<n]))"

text \<open>Every fulfilled promise holds the answer to its own request.\<close>

definition answer_of :: "wallet_router \<Rightarrow> WalletCoordinatorMessage option \<Rightarrow> WalletHttpResponse \<Rightarrow> bool" where
  "answer_of router x r \<longleftrightarrow>
     (case x of None \<Rightarrow> r = bad_request | Some m \<Rightarrow> ProcessRequest router m = Returns r)"

definition answers_inv :: "wallet_router \<Rightarrow> session \<Rightarrow> bool" where
  "answers_inv router s \<longleftrightarrow>
     length (hs_promises s) = length (hs_received s)
     \<and> (\<forall>i r. i < length (hs_received s) \<longrightarrow> hs_promises s ! i = Fulfilled r \<longrightarrow> answer_of router (hs_received s ! i) r)
     \<and> (\<forall>(i, m) \<in> set (hs_jobs s). i < length (hs_received s) \<and> hs_received s ! i = Some m)
     \<and> (\<forall>i m. hs_reader s = Rd_got i m \<longrightarrow> i < length (hs_received s) \<and> hs_received s ! i = m)"

definition written_inv ::
  "(WalletCoordinatorMessage \<Rightarrow> string option) \<Rightarrow> wallet_router \<Rightarrow> session \<Rightarrow> bool" where
  "written_inv serialize router s \<longleftrightarrow>
     (\<forall>(i, w) \<in> set (hs_written s). \<exists>r. answer_of router (hs_received s ! i) r
        \<and> wr_status w = rsp_status_code r \<and> response_body serialize r = Some (wr_body w))"

text \<open>No future is left behind: somebody is about to start the write chain.\<close>

definition attended :: "promise_state list \<Rightarrow> (nat \<times> WalletCoordinatorMessage) list \<Rightarrow> reader_pc \<Rightarrow> bool" where
  "attended ps jobs r \<longleftrightarrow>
     (\<forall>i < length ps. ps ! i = Awaiting \<longrightarrow> (\<exists>m. (i, m) \<in> set jobs) \<or> (\<exists>m. r = Rd_got i m))"

definition wake_inv :: "session \<Rightarrow> bool" where
  "wake_inv s \<longleftrightarrow>
     (hs_active s \<and> hs_pending s \<noteq> [] \<and> hs_writer s = Wr_idle \<longrightarrow>
        hs_kicks s > 0 \<or> (\<exists>i m. hs_reader s = Rd_got i m))
     \<and> attended (hs_promises s) (hs_jobs s) (hs_reader s)
     \<and> (hs_writer s = Wr_dead \<longrightarrow> \<not> hs_active s)
     \<and> (hs_reader s = Rd_off \<longrightarrow> hs_writer s = Wr_idle \<and> hs_kicks s = 0 \<and> hs_pending s = [])"

lemmas session_op_defs = Session_Start_def Session_Stop_def OnHandshake_def OnRead_error_def OnRead_push_def
  OnRead_dispatch_def OnRead_kick_def pool_run_def pool_drop_def DoWrite_take_def DoWrite_send_def OnWrite_def
  DoRead_def DoClose_def UpdateActivity_def Let_def

lemma order_inv_keep:
  assumes "order_inv s" and "length (hs_promises s') = length (hs_promises s)"
    and "hs_received s' = hs_received s" and "hs_written s' = hs_written s" and "hs_pending s' = hs_pending s"
    and "hs_writer s' = hs_writer s \<or> hs_writer s = Wr_idle \<and> hs_writer s' = Wr_start \<or> hs_writer s' = Wr_dead"
  shows "order_inv s'"
  using assms by (cases "hs_writer s") (auto simp: order_inv_def Let_def)

lemma DoClose_simps [simp]:
  "hs_reader (DoClose s) = hs_reader s" "hs_writer (DoClose s) = hs_writer s" "hs_kicks (DoClose s) = hs_kicks s"
  "hs_pending (DoClose s) = hs_pending s" "hs_promises (DoClose s) = hs_promises s" "hs_jobs (DoClose s) = hs_jobs s"
  "hs_received (DoClose s) = hs_received s" "hs_written (DoClose s) = hs_written s" "\<not> hs_active (DoClose s)"
  "hs_handled (DoClose s) = hs_handled s" "hs_max_requests (DoClose s) = hs_max_requests s"
  by (simp_all add: DoClose_def)

text \<open>What a step can do, apart from the pushing, taking and sending of a response.\<close>

definition quiet :: "session \<Rightarrow> session \<Rightarrow> bool" where
  "quiet s s' \<longleftrightarrow> length (hs_promises s') = length (hs_promises s)
     \<and> hs_received s' = hs_received s \<and> hs_written s' = hs_written s \<and> hs_pending s' = hs_pending s
     \<and> (hs_writer s' = hs_writer s \<or> hs_writer s = Wr_idle \<and> hs_writer s' = Wr_start \<or> hs_writer s' = Wr_dead)
     \<and> (hs_reader s' = hs_reader s \<or> (\<forall>i m. hs_reader s' \<noteq> Rd_got i m))
     \<and> hs_max_requests s' = hs_max_requests s \<and> hs_handled s \<le> hs_handled s'"

lemma quiet_order: "quiet s s' \<Longrightarrow> order_inv s \<Longrightarrow> order_inv s'"
  by (rule order_inv_keep [of s]) (auto simp: quiet_def)

lemma quiet_ops:
  "quiet s (Session_Start s)" "quiet s (Session_Stop s)"
  "OnHandshake ok s = Some s' \<Longrightarrow> quiet s s'"
  "OnRead_error s = Some s' \<Longrightarrow> quiet s s'"
  "OnRead_kick s = Some s' \<Longrightarrow> quiet s s'"
  "pool_run router job s = Some s' \<Longrightarrow> quiet s s'"
  "pool_drop job s = Some s' \<Longrightarrow> quiet s s'"
  by (auto simp: quiet_def Session_Start_def Session_Stop_def OnHandshake_def DoRead_def OnRead_error_def
      OnRead_kick_def pool_run_def pool_drop_def split: if_split_asm behaviour.splits)

lemma OnRead_dispatch_quiet: "OnRead_dispatch submitted s = Some s' \<Longrightarrow> quiet s s'"
  by (cases "hs_reader s") (auto simp: quiet_def OnRead_dispatch_def DoRead_def Let_def split: if_split_asm option.splits)

lemma OnRead_push_order: "OnRead_push parse now body s = Some s' \<Longrightarrow> order_inv s \<Longrightarrow> order_inv s'"
  by (cases "hs_writer s")
    (auto simp: OnRead_push_def UpdateActivity_def order_inv_def Let_def split: if_split_asm)

lemma DoWrite_take_order: "DoWrite_take s = Some s' \<Longrightarrow> order_inv s \<Longrightarrow> order_inv s'"
  by (auto simp: DoWrite_take_def order_inv_def Let_def dest!: upt_eq_Cons_conv [THEN iffD1]
      split: if_split_asm list.splits)

lemma OnWrite_order: "OnWrite failed now s = Some s' \<Longrightarrow> order_inv s \<Longrightarrow> order_inv s'"
  by (cases "hs_writer s")
    (auto simp: OnWrite_def UpdateActivity_def order_inv_def Let_def split: if_split_asm)

text \<open>The three ways in which the wait for the oldest future ends.\<close>

lemma DoWrite_send_cases:
  assumes "DoWrite_send serialize now s = Some s'"
  obtains (dead) i where "hs_writer s = Wr_wait i" "s' = (DoClose s)\<lparr>hs_writer := Wr_dead\<rparr>"
  | (sent) i r body where "hs_writer s = Wr_wait i" "hs_promises s ! i = Fulfilled r"
      "response_body serialize r = Some body"
      "s' = s\<lparr>hs_writer := Wr_sent (ShouldKeepAlive now s),
         hs_written := hs_written s @ [(i, \<lparr>wr_status = rsp_status_code r, wr_body = body,
           wr_keep_alive = ShouldKeepAlive now s\<rparr>)]\<rparr>"
  using assms
  by (auto simp: DoWrite_send_def Let_def split: writer_pc.splits promise_state.splits option.splits)

lemma DoWrite_send_order:
  assumes "DoWrite_send serialize now s = Some s'" and "order_inv s" shows "order_inv s'"
  using assms(1)
proof (cases rule: DoWrite_send_cases)
  case (dead i)
  with assms(2) show ?thesis by (auto intro: order_inv_keep [of s])
next
  case (sent i r body)
  then show ?thesis using assms(2) by (simp add: order_inv_def Let_def)
qed

lemma session_step_order:
  "session_step parse serialize router s s' \<Longrightarrow> order_inv s \<Longrightarrow> order_inv s'"
proof (induction rule: session_step.induct)
  case (ss_push now body s s')
  then show ?case by (rule OnRead_push_order)
next
  case (ss_take s s')
  then show ?case by (rule DoWrite_take_order)
next
  case (ss_send now s s')
  then show ?case by (rule DoWrite_send_order)
next
  case (ss_write failed now s s')
  then show ?case by (rule OnWrite_order)
next
  case (ss_dispatch submitted s s')
  then show ?case using OnRead_dispatch_quiet quiet_order by blast
qed (rule quiet_order, erule quiet_ops, assumption | rule quiet_order, rule quiet_ops, assumption)+

text \<open>A step that changes at most the state of one promise, to an answer or to no value.\<close>

lemma answers_inv_keep:
  assumes "answers_inv router s" and "hs_received s' = hs_received s"
    and "hs_promises s' = hs_promises s \<or>
      (\<exists>i x. hs_promises s' = (hs_promises s)[i := x] \<and> (\<forall>r. x = Fulfilled r \<longrightarrow> answer_of router (hs_received s ! i) r))"
    and "\<And>i m. (i, m) \<in> set (hs_jobs s') \<Longrightarrow> (i, m) \<in> set (hs_jobs s) \<or> hs_reader s = Rd_got i (Some m)"
    and "hs_reader s' = hs_reader s \<or> (\<forall>i m. hs_reader s' \<noteq> Rd_got i m)"
  shows "answers_inv router s'"
proof -
  have l: "length (hs_promises s) = length (hs_received s)" using assms(1) by (simp add: answers_inv_def)
  have p: "answer_of router (hs_received s ! i) r"
    if "i < length (hs_received s)" "hs_promises s' ! i = Fulfilled r" for i r
  proof -
    have old: "answer_of router (hs_received s ! i) r" if "hs_promises s ! i = Fulfilled r"
      using assms(1) \<open>i < length (hs_received s)\<close> that by (simp add: answers_inv_def)
    from assms(3) show ?thesis
    proof (elim disjE exE conjE)
      fix k x
      assume "hs_promises s' = (hs_promises s)[k := x]"
        and "\<forall>r. x = Fulfilled r \<longrightarrow> answer_of router (hs_received s ! k) r"
      with that old l show ?thesis by (cases "k = i") simp_all
    qed (use that old in simp)
  qed
  have j: "i < length (hs_received s) \<and> hs_received s ! i = Some m" if "(i, m) \<in> set (hs_jobs s')" for i m
    using assms(4) [OF that] assms(1) by (auto simp: answers_inv_def)
  have r: "i < length (hs_received s) \<and> hs_received s ! i = m" if "hs_reader s' = Rd_got i m" for i m
    using assms(1,5) that by (metis answers_inv_def)
  have "length (hs_promises s') = length (hs_received s)" using assms(3) l by auto
  with p j r assms(2) show ?thesis by (auto simp: answers_inv_def)
qed

lemma answers_inv_set:
  assumes "answers_inv router s" and "hs_promises s' = (hs_promises s)[i := x]" and "hs_received s' = hs_received s"
    and "\<And>r. x = Fulfilled r \<Longrightarrow> answer_of router (hs_received s ! i) r"
    and "\<And>i m. (i, m) \<in> set (hs_jobs s') \<Longrightarrow> (i, m) \<in> set (hs_jobs s)"
    and "hs_reader s' = hs_reader s \<or> (\<forall>i m. hs_reader s' \<noteq> Rd_got i m)"
  shows "answers_inv router s'"
  by (rule answers_inv_keep [OF assms(1,3) _ _ assms(6)]) (use assms(2,4,5) in blast)+

lemma OnRead_dispatch_answers:
  assumes "OnRead_dispatch submitted s = Some s'" and inv: "answers_inv router s"
  shows "answers_inv router s'"
proof -
  obtain i m where r: "hs_reader s = Rd_got i m"
    using assms(1) by (auto simp: OnRead_dispatch_def split: reader_pc.splits)
  have m: "hs_received s ! i = m" using inv r by (simp add: answers_inv_def)
  show ?thesis
  proof (cases "\<exists>x. m = Some x \<and> submitted")
    case True
    with assms r show ?thesis
      by (intro answers_inv_keep [OF inv]) (auto simp: OnRead_dispatch_def DoRead_def Let_def split: if_split_asm)
  next
    case False
    define x where "x = (case m of None \<Rightarrow> Fulfilled bad_request | Some _ \<Rightarrow> Broken)"
    from False have x: "x = Broken \<or> m = None \<and> x = Fulfilled bad_request"
      "hs_promises s' = (hs_promises s)[i := x]" "hs_received s' = hs_received s" "hs_jobs s' = hs_jobs s"
      "\<forall>i m. hs_reader s' \<noteq> Rd_got i m"
      using assms(1) r
      by (auto simp: OnRead_dispatch_def DoRead_def Let_def x_def split: option.splits if_split_asm)
    show ?thesis
      by (rule answers_inv_set [OF inv x(2,3)]) (use x m in \<open>auto simp: answer_of_def\<close>)
  qed
qed

lemma OnRead_push_answers:
  assumes "OnRead_push parse now body s = Some s'" and inv: "answers_inv router s"
  shows "answers_inv router s'"
proof -
  have l: "length (hs_promises s) = length (hs_received s)" using inv by (simp add: answers_inv_def)
  have s': "hs_received s' = hs_received s @ [parse body]" "hs_promises s' = hs_promises s @ [Awaiting]"
    "hs_jobs s' = hs_jobs s" "hs_reader s' = Rd_got (length (hs_received s)) (parse body)"
    using assms(1) l by (auto simp: OnRead_push_def UpdateActivity_def Let_def split: if_split_asm)
  have "i < length (hs_received s) \<and> hs_received s ! i = Some m" if "(i, m) \<in> set (hs_jobs s)" for i m
    using inv that by (auto simp: answers_inv_def)
  with inv l show ?thesis by (fastforce simp: answers_inv_def s' nth_append less_Suc_eq)
qed

lemma pool_run_answers:
  assumes "pool_run router job s = Some s'" and inv: "answers_inv router s"
  shows "answers_inv router s'"
proof -
  obtain i m where job: "job = (i, m)" by (cases job)
  from assms(1) obtain r where r: "(i, m) \<in> set (hs_jobs s)" "ProcessRequest router m = Returns r"
    "s' = s\<lparr>hs_jobs := remove1 job (hs_jobs s), hs_promises := (hs_promises s)[i := Fulfilled r]\<rparr>"
    by (auto simp: pool_run_def job split: if_split_asm behaviour.splits)
  then have "answer_of router (hs_received s ! i) r" using inv by (auto simp: answers_inv_def answer_of_def)
  then show ?thesis
    by (intro answers_inv_set [OF inv, of s' i "Fulfilled r"])
      (use r in \<open>auto dest: set_remove1_subset [THEN subsetD]\<close>)
qed

lemma pool_drop_answers:
  assumes "pool_drop job s = Some s'" and inv: "answers_inv router s"
  shows "answers_inv router s'"
proof -
  have s': "s' = s\<lparr>hs_jobs := remove1 job (hs_jobs s), hs_promises := (hs_promises s)[fst job := Broken]\<rparr>"
    using assms(1) by (auto simp: pool_drop_def split: if_split_asm)
  show ?thesis
    by (intro answers_inv_set [OF inv, of s' "fst job" Broken])
      (auto simp: s' dest: set_remove1_subset [THEN subsetD])
qed

lemma session_step_answers:
  "session_step parse serialize router s s' \<Longrightarrow> answers_inv router s \<Longrightarrow> answers_inv router s'"
proof (induction rule: session_step.induct)
  case (ss_push now body s s')
  then show ?case by (rule OnRead_push_answers)
next
  case (ss_dispatch submitted s s')
  then show ?case by (rule OnRead_dispatch_answers)
next
  case (ss_run job s s')
  then show ?case by (rule pool_run_answers)
next
  case (ss_drop job s s')
  then show ?case by (rule pool_drop_answers)
next
  case (ss_send now s s')
  from ss_send(1) show ?case
    by (cases rule: DoWrite_send_cases) (use ss_send(2) in \<open>auto intro: answers_inv_keep\<close>)
next
  case (ss_take s s')
  then show ?case
    by (auto simp: DoWrite_take_def split: if_split_asm list.splits intro: answers_inv_keep)
next
  case (ss_write failed now s s')
  then show ?case
    by (auto simp: OnWrite_def UpdateActivity_def Let_def split: writer_pc.splits if_split_asm intro: answers_inv_keep)
next
  case (ss_handshake ok s s')
  then show ?case by (auto simp: OnHandshake_def DoRead_def split: if_split_asm intro: answers_inv_keep)
next
  case (ss_read_error s s')
  then show ?case by (auto simp: OnRead_error_def split: if_split_asm intro: answers_inv_keep)
next
  case (ss_kick s s')
  then show ?case by (auto simp: OnRead_kick_def split: if_split_asm intro: answers_inv_keep)
qed (auto simp: Session_Start_def Session_Stop_def intro: answers_inv_keep)

text \<open>What is on the wire stays there, and only the sending step adds to it.\<close>

lemma session_step_log:
  assumes "session_step parse serialize router s s'"
  obtains (same) "hs_written s' = hs_written s" "hs_received s' = hs_received s"
  | (read) m where "hs_written s' = hs_written s" "hs_received s' = hs_received s @ [m]"
  | (sent) i r w where "hs_writer s = Wr_wait i" "hs_promises s ! i = Fulfilled r"
      "hs_received s' = hs_received s" "hs_written s' = hs_written s @ [(i, w)]"
      "wr_status w = rsp_status_code r" "response_body serialize r = Some (wr_body w)"
      "hs_writer s' = Wr_sent (wr_keep_alive w)"
proof -
  from assms have "(hs_written s' = hs_written s \<and> hs_received s' = hs_received s)
     \<or> (hs_written s' = hs_written s \<and> (\<exists>m. hs_received s' = hs_received s @ [m]))
     \<or> (\<exists>i r w. hs_writer s = Wr_wait i \<and> hs_promises s ! i = Fulfilled r \<and> hs_received s' = hs_received s
          \<and> hs_written s' = hs_written s @ [(i, w)] \<and> wr_status w = rsp_status_code r
          \<and> response_body serialize r = Some (wr_body w) \<and> hs_writer s' = Wr_sent (wr_keep_alive w))"
  proof (induction rule: session_step.induct)
    case (ss_push now body s s')
    then show ?case by (auto simp: OnRead_push_def UpdateActivity_def Let_def split: if_split_asm)
  next
    case (ss_dispatch submitted s s')
    then show ?case using OnRead_dispatch_quiet by (auto simp: quiet_def)
  next
    case (ss_send now s s')
    then show ?case by (cases rule: DoWrite_send_cases) auto
  next
    case (ss_take s s')
    then show ?case by (auto simp: DoWrite_take_def split: if_split_asm list.splits)
  next
    case (ss_write failed now s s')
    then show ?case
      by (auto simp: OnWrite_def UpdateActivity_def Let_def split: writer_pc.splits if_split_asm)
  qed (use quiet_ops in \<open>simp_all add: quiet_def\<close>)
  then show thesis using same read sent by blast
qed

lemma session_step_written:
  assumes step: "session_step parse serialize router s s'"
    and o: "order_inv s" and a: "answers_inv router s" and w: "written_inv serialize router s"
  shows "written_inv serialize router s'"
proof -
  have lt: "i < length (hs_received s)" if "(i, x) \<in> set (hs_written s)" for i x
  proof -
    have "i \<in> set (map fst (hs_written s))" using that by force
    with o show ?thesis by (auto simp: order_inv_def Let_def)
  qed
  from step show ?thesis
  proof (cases rule: session_step_log)
    case same
    with w show ?thesis by (simp add: written_inv_def)
  next
    case (read m)
    with w lt show ?thesis by (fastforce simp: written_inv_def nth_append)
  next
    case (sent i r x)
    have "i < length (hs_received s)" using o sent by (simp add: order_inv_def Let_def)
    then have "answer_of router (hs_received s ! i) r" using a sent by (simp add: answers_inv_def)
    with sent w show ?thesis by (auto simp: written_inv_def)
  qed
qed

definition session_inv ::
  "(WalletCoordinatorMessage \<Rightarrow> string option) \<Rightarrow> wallet_router \<Rightarrow> session \<Rightarrow> bool" where
  "session_inv serialize router s \<longleftrightarrow>
     order_inv s \<and> answers_inv router s \<and> written_inv serialize router s"

lemma session_inv_reachable:
  assumes "(session_step parse serialize router)\<^sup>*\<^sup>* (HttpsSession_new mx timeout now) s"
  shows "session_inv serialize router s"
  using assms
proof (induction rule: rtranclp_induct)
  case base
  show ?case
    by (simp add: session_inv_def order_inv_def answers_inv_def written_inv_def HttpsSession_new_def)
next
  case (step s s')
  then show ?case
    using session_step_order session_step_answers session_step_written unfolding session_inv_def by blast
qed

section \<open>No response is left behind\<close>

lemma DoClose_inactive: "hs_active s' \<Longrightarrow> s' = (DoClose t)\<lparr>hs_writer := x\<rparr> \<Longrightarrow> False"
  by (simp add: DoClose_def split: if_split_asm)

lemma attended_reader: "attended ps jobs r \<Longrightarrow> (\<And>i m. r \<noteq> Rd_got i m) \<Longrightarrow> attended ps jobs r'"
  by (auto simp: attended_def)

lemma attended_set: "attended ps jobs (Rd_got i m) \<Longrightarrow> x \<noteq> Awaiting \<Longrightarrow> attended (ps[i := x]) jobs r"
  by (simp add: attended_def) (metis nth_list_update_eq nth_list_update_neq)

lemma attended_submit: "attended ps jobs (Rd_got i m) \<Longrightarrow> attended ps (jobs @ [(i, x)]) r"
  by (auto simp: attended_def)

lemma attended_push:
  "attended ps jobs r \<Longrightarrow> (\<And>i m. r \<noteq> Rd_got i m) \<Longrightarrow> attended (ps @ [Awaiting]) jobs (Rd_got (length ps) m)"
  by (auto simp: attended_def nth_append less_Suc_eq)

lemma attended_done:
  assumes "attended ps jobs r" and "x \<noteq> Awaiting"
  shows "attended (ps[fst job := x]) (remove1 job jobs) r"
  unfolding attended_def
proof (intro allI impI)
  fix i
  assume i: "i < length (ps[fst job := x])" "ps[fst job := x] ! i = Awaiting"
  then have n: "i \<noteq> fst job" using assms(2) by auto
  with i assms(1) have "(\<exists>m. (i, m) \<in> set jobs) \<or> (\<exists>m. r = Rd_got i m)" by (simp add: attended_def)
  with n show "(\<exists>m. (i, m) \<in> set (remove1 job jobs)) \<or> (\<exists>m. r = Rd_got i m)"
    by (metis fst_conv in_set_remove1)
qed

lemmas attended_intros = attended_set attended_submit attended_push attended_done

lemma OnRead_dispatch_wake: "OnRead_dispatch submitted s = Some s' \<Longrightarrow> wake_inv s \<Longrightarrow> wake_inv s'"
  by (cases "hs_reader s")
    (auto simp: OnRead_dispatch_def DoRead_def wake_inv_def Let_def intro: attended_intros
      split: option.splits if_split_asm)

lemma OnRead_push_wake: "OnRead_push parse now body s = Some s' \<Longrightarrow> wake_inv s \<Longrightarrow> wake_inv s'"
  by (auto simp: OnRead_push_def UpdateActivity_def wake_inv_def Let_def intro!: attended_push split: if_split_asm)

lemma OnRead_kick_wake: "OnRead_kick s = Some s' \<Longrightarrow> wake_inv s \<Longrightarrow> wake_inv s'"
  by (auto simp: OnRead_kick_def wake_inv_def split: if_split_asm)

lemma wake_inv_job_done:
  assumes "wake_inv s" and "x \<noteq> Awaiting"
  shows "wake_inv (s\<lparr>hs_jobs := remove1 job (hs_jobs s), hs_promises := (hs_promises s)[fst job := x]\<rparr>)"
  using assms by (simp add: wake_inv_def attended_done)

lemma session_step_wake:
  "session_step parse serialize router s s' \<Longrightarrow> wake_inv s \<Longrightarrow> wake_inv s'"
proof (induction rule: session_step.induct)
  case (ss_push now body s s')
  then show ?case by (rule OnRead_push_wake)
next
  case (ss_dispatch submitted s s')
  then show ?case by (rule OnRead_dispatch_wake)
next
  case (ss_kick s s')
  then show ?case by (rule OnRead_kick_wake)
next
  case (ss_run job s s')
  then show ?case
    by (auto simp: pool_run_def split: if_split_asm behaviour.splits intro!: wake_inv_job_done)
next
  case (ss_drop job s s')
  then show ?case by (auto simp: pool_drop_def split: if_split_asm intro!: wake_inv_job_done)
next
  case (ss_take s s')
  then show ?case by (auto simp: DoWrite_take_def wake_inv_def split: if_split_asm list.splits)
next
  case (ss_send now s s')
  then show ?case by (cases rule: DoWrite_send_cases) (auto simp: wake_inv_def)
next
  case (ss_write failed now s s')
  then show ?case
    by (auto simp: OnWrite_def UpdateActivity_def wake_inv_def Let_def split: writer_pc.splits if_split_asm)
next
  case (ss_handshake ok s s')
  then show ?case
    by (auto simp: OnHandshake_def DoRead_def wake_inv_def intro: attended_reader split: if_split_asm)
next
  case (ss_read_error s s')
  then show ?case
    by (auto simp: OnRead_error_def wake_inv_def intro: attended_reader split: if_split_asm)
next
  case (ss_start s)
  then show ?case
    by (auto simp: Session_Start_def wake_inv_def intro: attended_reader split: if_split_asm)
next
  case (ss_stop s)
  then show ?case by (auto simp: Session_Stop_def wake_inv_def)
qed

lemma wake_inv_reachable:
  "(session_step parse serialize router)\<^sup>*\<^sup>* (HttpsSession_new mx timeout now) s \<Longrightarrow> wake_inv s"
proof (induction rule: rtranclp_induct)
  case base
  show ?case by (simp add: wake_inv_def attended_def HttpsSession_new_def)
qed (rule session_step_wake)

text \<open>The steps that serve what has been read, and how much work they have left.\<close>

inductive service_step ::
  "(WalletCoordinatorMessage \<Rightarrow> string option) \<Rightarrow> wallet_router \<Rightarrow> session \<Rightarrow> session \<Rightarrow> bool"
  for serialize router where
  sv_dispatch: "OnRead_dispatch submitted s = Some s' \<Longrightarrow> service_step serialize router s s'"
| sv_kick: "OnRead_kick s = Some s' \<Longrightarrow> service_step serialize router s s'"
| sv_run: "pool_run router job s = Some s' \<Longrightarrow> service_step serialize router s s'"
| sv_take: "DoWrite_take s = Some s' \<Longrightarrow> service_step serialize router s s'"
| sv_send: "DoWrite_send serialize now s = Some s' \<Longrightarrow> service_step serialize router s s'"
| sv_write: "OnWrite failed now s = Some s' \<Longrightarrow> service_step serialize router s s'"

fun writer_rank :: "writer_pc \<Rightarrow> nat" where
  "writer_rank Wr_idle = 0"
| "writer_rank Wr_start = 1"
| "writer_rank (Wr_sent _) = 2"
| "writer_rank (Wr_wait _) = 3"
| "writer_rank Wr_dead = 0"

definition session_work :: "session \<Rightarrow> nat" where
  "session_work s =
     (case hs_reader s of Rd_got _ _ \<Rightarrow> 10 | _ \<Rightarrow> 0) + 5 * length (hs_pending s) + 3 * hs_kicks s
     + length (hs_jobs s) + writer_rank (hs_writer s)"

lemma service_step_work: "service_step serialize router s s' \<Longrightarrow> session_work s' < session_work s"
proof (induction rule: service_step.induct)
  case (sv_dispatch submitted s s')
  then show ?case
    by (cases "hs_reader s")
      (auto simp: OnRead_dispatch_def DoRead_def session_work_def Let_def split: option.splits if_split_asm)
next
  case (sv_kick s s')
  then show ?case by (cases "hs_writer s") (auto simp: OnRead_kick_def session_work_def split: if_split_asm)
next
  case (sv_run job s s')
  then have "length (hs_jobs s) > 0" "hs_jobs s' = remove1 job (hs_jobs s)" "job \<in> set (hs_jobs s)"
    "hs_reader s' = hs_reader s" "hs_pending s' = hs_pending s" "hs_kicks s' = hs_kicks s" "hs_writer s' = hs_writer s"
    by (auto simp: pool_run_def split: if_split_asm behaviour.splits)
  then show ?case by (simp add: session_work_def length_remove1)
next
  case (sv_take s s')
  then show ?case by (auto simp: DoWrite_take_def session_work_def split: if_split_asm list.splits)
next
  case (sv_send now s s')
  then show ?case by (cases rule: DoWrite_send_cases) (auto simp: session_work_def)
next
  case (sv_write failed now s s')
  then show ?case
    by (auto simp: OnWrite_def UpdateActivity_def session_work_def Let_def split: writer_pc.splits if_split_asm)
qed

section \<open>The properties\<close>

definition wallet_router_ready :: "(nat \<Rightarrow> u64) \<Rightarrow> wallet_router" where
  "wallet_router_ready clock =
     snd (WalletMessageRouter_Initialize clock (router_new (WalletMessageType_value W_MAX_MESSAGE_TYPE)))"

lemma ProcessRequest_defined: "\<exists>r. ProcessRequest (wallet_router_ready clock) m = Returns r"
proof -
  obtain x where "WalletMessageRouter_ProcessMessage (wallet_router_ready clock) (Some m) = Returns x"
    unfolding wallet_router_ready_def by (metis wallet_router.defined_result of_nat_0_le_iff)
  then show ?thesis by (auto simp: ProcessRequest_def split: option.splits)
qed

lemma session_order:
  assumes "session_inv serialize router s"
  shows "map fst (hs_written s) = [0..<length (hs_written s)]" "length (hs_written s) \<le> length (hs_received s)"
  using assms by (simp_all add: session_inv_def order_inv_def Let_def)

text \<open>Some step of the service is possible as long as a request of an open session is unanswered.\<close>

lemma service_progress:
  assumes inv: "session_inv serialize router s" and w: "wake_inv s" and act: "hs_active s"
    and open_req: "length (hs_written s) < length (hs_received s)"
    and def: "\<And>m. \<exists>r. ProcessRequest router m = Returns r"
  shows "\<exists>s'. service_step serialize router s s'"
proof -
  have disp: "\<exists>s'. service_step serialize router s s'" if "hs_reader s = Rd_got i m" for i m
    by (cases m) (use that in \<open>auto simp: OnRead_dispatch_def Let_def intro!: sv_dispatch [of True] exI\<close>)
  have o: "order_inv s" and a: "answers_inv router s" using inv by (simp_all add: session_inv_def)
  show ?thesis
  proof (cases "hs_writer s")
    case Wr_idle
    with o open_req have "hs_pending s \<noteq> []" by (auto simp: order_inv_def Let_def)
    with w act Wr_idle have "hs_kicks s > 0 \<or> (\<exists>i m. hs_reader s = Rd_got i m)" by (simp add: wake_inv_def)
    then show ?thesis
    proof
      assume "hs_kicks s > 0"
      then show ?thesis by (auto simp: OnRead_kick_def intro!: sv_kick exI)
    qed (use disp in blast)
  next
    case Wr_start
    then show ?thesis by (auto simp: DoWrite_take_def intro!: sv_take exI)
  next
    case (Wr_wait i)
    show ?thesis
    proof (cases "hs_promises s ! i")
      case Awaiting
      have "i < length (hs_promises s)" using o Wr_wait by (simp add: order_inv_def Let_def)
      moreover have "attended (hs_promises s) (hs_jobs s) (hs_reader s)" using w by (simp add: wake_inv_def)
      ultimately consider m where "(i, m) \<in> set (hs_jobs s)" | m where "hs_reader s = Rd_got i m"
        using Awaiting unfolding attended_def by blast
      then show ?thesis
      proof cases
        case (1 m)
        obtain r where "ProcessRequest router m = Returns r" using def by blast
        with 1 show ?thesis by (auto simp: pool_run_def intro!: sv_run [of router "(i, m)"] exI)
      qed (rule disp)
    next
      case (Fulfilled r)
      with Wr_wait have "DoWrite_send serialize 0 s \<noteq> None"
        by (simp add: DoWrite_send_def Let_def split: option.splits)
      then show ?thesis using sv_send by fastforce
    next
      case Broken
      with Wr_wait have "DoWrite_send serialize 0 s \<noteq> None" by (simp add: DoWrite_send_def)
      then show ?thesis using sv_send by fastforce
    qed
  next
    case (Wr_sent keep_alive)
    then have "OnWrite False 0 s \<noteq> None" by (simp add: OnWrite_def Let_def)
    then show ?thesis using sv_write by fastforce
  next
    case Wr_dead
    with w act show ?thesis by (simp add: wake_inv_def)
  qed
qed

text \<open>
  C5. The responses of a connection answer its requests one by one: in every interleaving of
  reads, handler tasks and writes the k-th response handed to the socket belongs to the k-th
  request, with status 400 for a body that is not a message and the router's own response
  (200 with its body, or 500) for every other, and none is answered twice.
\<close>

theorem responses_in_order:
  assumes "(session_step parse serialize router)\<^sup>*\<^sup>* (HttpsSession_new mx timeout now) s"
    and "k < length (hs_written s)"
  shows "fst (hs_written s ! k) = k \<and> k < length (hs_received s)
     \<and> (\<exists>r. (hs_received s ! k = None \<longrightarrow> r = bad_request)
          \<and> (\<forall>m. hs_received s ! k = Some m \<longrightarrow> ProcessRequest router m = Returns r)
          \<and> wr_status (snd (hs_written s ! k)) = rsp_status_code r
          \<and> response_body serialize r = Some (wr_body (snd (hs_written s ! k))))"
proof -
  have inv: "session_inv serialize router s" by (rule session_inv_reachable [OF assms(1)])
  have f: "fst (hs_written s ! k) = k"
    using session_order(1) [OF inv] assms(2) by (metis add.left_neutral nth_map nth_upt)
  obtain w where e: "hs_written s ! k = (k, w)" using f by (metis prod.collapse)
  then have "(k, w) \<in> set (hs_written s)" using assms(2) by (metis nth_mem)
  with inv obtain r where "answer_of router (hs_received s ! k) r" "wr_status w = rsp_status_code r"
    "response_body serialize r = Some (wr_body w)"
    by (auto simp: session_inv_def written_inv_def)
  with e session_order(2) [OF inv] assms(2) show ?thesis
    by (auto simp: answer_of_def split: option.splits)
qed

text \<open>
  C17. No request is forgotten: serving what has been read always comes to an end, each step
  leaving strictly less work, and when nothing more can be done on an open session every
  request that was read has its response on the wire.
\<close>

theorem session_answers_all:
  assumes "(session_step parse serialize (wallet_router_ready clock))\<^sup>*\<^sup>* (HttpsSession_new mx timeout now) s"
  shows "(service_step serialize (wallet_router_ready clock) s s' \<longrightarrow> session_work s' < session_work s)
     \<and> (hs_active s \<and> (\<nexists>t. service_step serialize (wallet_router_ready clock) s t) \<longrightarrow>
          map fst (hs_written s) = [0..<length (hs_received s)])"
proof -
  have inv: "session_inv serialize (wallet_router_ready clock) s" by (rule session_inv_reachable [OF assms])
  have "map fst (hs_written s) = [0..<length (hs_received s)]"
    if "hs_active s" "\<nexists>t. service_step serialize (wallet_router_ready clock) s t"
    using service_progress [OF inv wake_inv_reachable [OF assms] that(1)] that(2) ProcessRequest_defined
      session_order [OF inv] by (metis le_neq_implies_less)
  then show ?thesis using service_step_work by blast
qed

text \<open>What the request limit does once it is reached: the writer's next response is its last.\<close>

definition last_write :: "nat \<Rightarrow> session \<Rightarrow> bool" where
  "last_write n s \<longleftrightarrow> hs_handled s \<ge> hs_max_requests s
     \<and> (case hs_writer s of
          Wr_wait i \<Rightarrow> length (hs_written s) = n
        | Wr_sent keep_alive \<Rightarrow> \<not> keep_alive \<and> length (hs_written s) = Suc n
        | Wr_dead \<Rightarrow> length (hs_written s) \<le> Suc n
        | _ \<Rightarrow> False)"

lemma last_write_quiet: "quiet s s' \<Longrightarrow> last_write n s \<Longrightarrow> last_write n s'"
  by (cases "hs_writer s") (auto simp: quiet_def last_write_def)

lemma last_write_step: "session_step parse serialize router s s' \<Longrightarrow> last_write n s \<Longrightarrow> last_write n s'"
proof (induction rule: session_step.induct)
  case (ss_push now body s s')
  then show ?case
    by (cases "hs_writer s") (auto simp: OnRead_push_def UpdateActivity_def last_write_def Let_def split: if_split_asm)
next
  case (ss_dispatch submitted s s')
  then show ?case using OnRead_dispatch_quiet last_write_quiet by blast
next
  case (ss_take s s')
  then show ?case by (simp add: DoWrite_take_def last_write_def split: if_split_asm)
next
  case (ss_send now s s')
  then show ?case
    by (cases rule: DoWrite_send_cases) (auto simp: last_write_def ShouldKeepAlive_def)
next
  case (ss_write failed now s s')
  then show ?case
    by (cases "hs_writer s") (auto simp: OnWrite_def UpdateActivity_def last_write_def Let_def split: if_split_asm)
qed (rule last_write_quiet, erule quiet_ops, assumption | rule last_write_quiet, rule quiet_ops, assumption)+

text \<open>A connection with two requests, the first no message and the second a message.\<close>

definition demo_message :: WalletCoordinatorMessage where
  "demo_message = \<lparr>wm_message_type = 7, wm_payload = None\<rparr>"

definition demo_parse :: "string \<Rightarrow> WalletCoordinatorMessage option" where
  "demo_parse body = (if body = ''m'' then Some demo_message else None)"

definition demo_serialize :: "WalletCoordinatorMessage \<Rightarrow> string option" where
  "demo_serialize m = Some ''x''"

definition demo_session :: "string \<Rightarrow> session" where
  "demo_session body2 =
     the (OnRead_dispatch True (the (OnRead_push demo_parse 2 body2
       (the (OnRead_dispatch True (the (OnRead_push demo_parse 1 ''junk''
         (the (OnHandshake True (Session_Start (HttpsSession_new 2 60 0)))))))))))"

definition demo_waiting :: "string \<Rightarrow> session" where
  "demo_waiting body2 = the (DoWrite_take (the (OnRead_kick (demo_session body2))))"

lemma the_Some_step: "\<not> Option.is_none x \<Longrightarrow> (\<And>y. x = Some y \<Longrightarrow> P y) \<Longrightarrow> P (the x)"
  by (cases x) simp_all

lemma demo_session_reachable:
  assumes "body2 = ''m'' \<or> body2 = ''n''"
  shows "(session_step demo_parse demo_serialize router)\<^sup>*\<^sup>* (HttpsSession_new 2 60 0) (demo_session body2)"
proof -
  let ?R = "session_step demo_parse demo_serialize router"
  let ?a = "Session_Start (HttpsSession_new 2 60 0)"
  let ?b = "the (OnHandshake True ?a)"
  let ?c = "the (OnRead_push demo_parse 1 ''junk'' ?b)"
  let ?d = "the (OnRead_dispatch True ?c)"
  let ?e = "the (OnRead_push demo_parse 2 body2 ?d)"
  have "?R (HttpsSession_new 2 60 0) ?a" by (rule ss_start) code_simp
  moreover have "?R ?a ?b" by (rule the_Some_step, code_simp, erule ss_handshake)
  moreover have "?R ?b ?c" by (rule the_Some_step, code_simp, erule ss_push)
  moreover have "?R ?c ?d" by (rule the_Some_step, code_simp, erule ss_dispatch)
  moreover have "?R ?d ?e" by (rule the_Some_step, code_simp, erule ss_push)
  moreover have "?R ?e (demo_session body2)"
    unfolding demo_session_def using assms
    by (elim disjE; hypsubst) (rule the_Some_step, code_simp, erule ss_dispatch)+
  ultimately show ?thesis by (meson converse_rtranclp_into_rtranclp rtranclp.rtrancl_refl)
qed

lemma demo_waiting_reachable:
  assumes "body2 = ''m'' \<or> body2 = ''n''"
  shows "(session_step demo_parse demo_serialize router)\<^sup>*\<^sup>* (HttpsSession_new 2 60 0) (demo_waiting body2)"
proof -
  let ?R = "session_step demo_parse demo_serialize router"
  let ?a = "the (OnRead_kick (demo_session body2))"
  have "?R (demo_session body2) ?a"
    using assms by (elim disjE; hypsubst) (rule the_Some_step, code_simp, erule ss_kick)+
  moreover have "?R ?a (demo_waiting body2)"
    unfolding demo_waiting_def using assms by (elim disjE; hypsubst) (rule the_Some_step, code_simp, erule ss_take)+
  ultimately show ?thesis
    using demo_session_reachable [OF assms] by (meson rtranclp.rtrancl_into_rtrancl)
qed

definition demo_answered :: session where
  "demo_answered = the (DoWrite_send demo_serialize 3 (demo_waiting ''m''))"

lemma demo_answered_reachable:
  "(session_step demo_parse demo_serialize router)\<^sup>*\<^sup>* (HttpsSession_new 2 60 0) demo_answered"
proof -
  have "session_step demo_parse demo_serialize router (demo_waiting ''m'') demo_answered"
    unfolding demo_answered_def by (rule the_Some_step, code_simp, erule ss_send)
  then show ?thesis
    using demo_waiting_reachable [of "''m''" router] by (simp add: rtranclp.rtrancl_into_rtrancl)
qed

theorem responses_in_order_witness:
  "\<exists>w. hs_written demo_answered = [(0, w)] \<and> length (hs_received demo_answered) = 2 \<and> wr_status w = 400"
proof -
  have l: "0 < length (hs_written demo_answered)" "length (hs_written demo_answered) = 1"
    "length (hs_received demo_answered) = 2" "hs_received demo_answered ! 0 = None" by code_simp+
  obtain i w where w: "hs_written demo_answered = [(i, w)]"
    using l(2) by (cases "hs_written demo_answered") auto
  have "i = 0 \<and> wr_status w = 400"
    using responses_in_order [OF demo_answered_reachable [of "router_new 1"] l(1)] l(4) w
    by (auto simp: bad_request_def)
  with w l show ?thesis by simp
qed

theorem session_answers_all_witness:
  "(service_step demo_serialize (wallet_router_ready (\<lambda>_. 5)) (demo_session ''n'') (the (OnRead_kick (demo_session ''n'')))
    \<and> session_work (the (OnRead_kick (demo_session ''n''))) < session_work (demo_session ''n''))"
proof -
  have s: "service_step demo_serialize (wallet_router_ready (\<lambda>_. 5)) (demo_session ''n'')
      (the (OnRead_kick (demo_session ''n'')))"
    by (rule the_Some_step, code_simp, erule sv_kick)
  with session_answers_all [OF demo_session_reachable [of "''n''" "wallet_router_ready (\<lambda>_. 5)"],
      of "the (OnRead_kick (demo_session ''n''))"]
  show ?thesis by blast
qed


definition demo_closed :: session where
  "demo_closed = the (OnWrite False 4 (the (DoWrite_send demo_serialize 3 (demo_waiting ''n''))))"


end
