(* ===== verification/Https_Server.thy ===== *)
theory Https_Server
  imports Https_Session Thread_Pool Tls_Material
begin

text \<open>
  The coordinator's HTTPS server for wallets,
  \<open>src/coordinator/network/wallet_server/src/CoordinatorHttpsServer.cpp\<close>: its configuration,
  the four steps of \<open>Initialize\<close>, the accept chain and the I/O threads. Boost.Asio appears as
  what the server uses of it: an \<open>io_context\<close> that runs handlers until it is stopped (and, as
  its documentation says, runs nothing more until it is restarted), an acceptor that is open or
  closed, and the outcome of each operation.
\<close>

record HttpsServerConfig =
  hc_bind_address :: string
  hc_bind_port :: u16
  hc_max_connections :: nat
  hc_handler_threads :: nat
  hc_io_threads :: nat
  hc_max_requests_per_connection :: int
  hc_keep_alive_timeout_sec :: int
  hc_tls_cert_path :: string
  hc_tls_key_id :: string

definition HttpsServerConfig_default :: HttpsServerConfig where
  "HttpsServerConfig_default = \<lparr>hc_bind_address = ''0.0.0.0'', hc_bind_port = 9080, hc_max_connections = 1000,
     hc_handler_threads = 16, hc_io_threads = 0, hc_max_requests_per_connection = 1000,
     hc_keep_alive_timeout_sec = 60, hc_tls_cert_path = [], hc_tls_key_id = []\<rparr>"

record 'f https_server =
  hv_config :: HttpsServerConfig
  hv_initialized :: bool
  hv_running :: bool
  hv_router :: wallet_router
  hv_tls :: bool
  hv_pool :: "'f pool option"
  hv_acceptor_open :: bool
  hv_accepting :: bool
  hv_io_stopped :: bool
  hv_io_threads :: nat
  hv_sessions :: "session list"

definition CoordinatorHttpsServer_new :: "HttpsServerConfig \<Rightarrow> exn + 'f https_server" where
  "CoordinatorHttpsServer_new cfg =
     (if hc_handler_threads cfg = 0 then Inl (Invalid_argument ''handler_threads must be at least 1'')
      else if hc_max_connections cfg = 0 then Inl (Invalid_argument ''max_connections must be at least 1'')
      else Inr \<lparr>hv_config = cfg, hv_initialized = False, hv_running = False,
        hv_router = router_new (WalletMessageType_value W_MAX_MESSAGE_TYPE), hv_tls = False, hv_pool = None,
        hv_acceptor_open = False, hv_accepting = False, hv_io_stopped = False, hv_io_threads = 0,
        hv_sessions = []\<rparr>)"

section \<open>Initialisation\<close>

definition InitializeRouter :: "(nat \<Rightarrow> u64) \<Rightarrow> 'f https_server \<Rightarrow> bool \<times> 'f https_server" where
  "InitializeRouter clock s =
     (case WalletMessageRouter_Initialize clock (hv_router s) of
        (ok, r) \<Rightarrow> (ok, s\<lparr>hv_router := r\<rparr>))"

text \<open>
  \<open>InitializeTlsContext\<close>: the files are read through the resource loader only to see that they
  are not empty; the context then loads them itself. The context's operations throw.
\<close>

record ssl_operations =
  so_create :: "exn + unit"
  so_load_verify_file :: "string \<Rightarrow> exn + unit"
  so_use_certificate_chain_file :: "string \<Rightarrow> exn + unit"
  so_use_private_key :: "string \<Rightarrow> exn + unit"

definition https_tls_body :: "ssl_operations \<Rightarrow> tls_material \<Rightarrow> exn + bool" where
  "https_tls_body ops w =
     exn_bind (so_create ops) (\<lambda>_.
     exn_bind (tm_get_string w ''TLS_CERT_PATH'') (\<lambda>tls_cert_path.
     exn_bind (tm_get_string w ''TLS_CERT_CA'') (\<lambda>tls_ca.
     exn_bind (tm_get_string w ''TLS_CERT_COORDINATOR_WALLET'') (\<lambda>coordinator_cert.
     exn_bind (tm_get_string w ''TLS_KMS_COORDINATOR_WALLET_KEY_ID'') (\<lambda>coordinator_key_id.
     exn_bind (tm_read_file w (tls_cert_path @ tls_ca)) (\<lambda>ca_pem.
       if ca_pem = [] then Inr False
       else exn_bind (so_load_verify_file ops (tls_cert_path @ tls_ca)) (\<lambda>_.
         exn_bind (tm_read_file w (tls_cert_path @ coordinator_cert)) (\<lambda>certificate_pem.
           if certificate_pem = [] then Inr False
           else exn_bind (so_use_certificate_chain_file ops (tls_cert_path @ coordinator_cert)) (\<lambda>_.
             exn_bind (tm_get_secret w coordinator_key_id) (\<lambda>private_key_pem.
               if private_key_pem = [] then Inr False
               else exn_bind (so_use_private_key ops private_key_pem) (\<lambda>_. Inr True)))))))))))"

definition Https_InitializeTlsContext :: "ssl_operations \<Rightarrow> tls_material \<Rightarrow> bool" where
  "Https_InitializeTlsContext ops w = (case https_tls_body ops w of Inl _ \<Rightarrow> False | Inr ok \<Rightarrow> ok)"

definition InitializeThreadPool :: "'f https_server \<Rightarrow> bool \<times> 'f https_server" where
  "InitializeThreadPool s =
     (case ThreadPool_new (hc_handler_threads (hv_config s)) of
        Inl _ \<Rightarrow> (False, s)
      | Inr p \<Rightarrow> (True, s\<lparr>hv_pool := Some p\<rparr>))"

definition Https_Initialize ::
  "(nat \<Rightarrow> u64) \<Rightarrow> ssl_operations \<Rightarrow> tls_material \<Rightarrow> exn + unit \<Rightarrow> 'f https_server \<Rightarrow> bool \<times> 'f https_server" where
  "Https_Initialize clock ops w listening s =
     (if hv_initialized s then (True, s)
      else case InitializeRouter clock s of
        (False, s1) \<Rightarrow> (False, s1)
      | (True, s1) \<Rightarrow>
          (if \<not> Https_InitializeTlsContext ops w then (False, s1)
           else case InitializeThreadPool (s1\<lparr>hv_tls := True\<rparr>) of
             (False, s2) \<Rightarrow> (False, s2)
           | (True, s2) \<Rightarrow>
               (case listening of
                  Inl _ \<Rightarrow> (False, s2)
                | Inr _ \<Rightarrow> (True, s2\<lparr>hv_acceptor_open := True, hv_initialized := True\<rparr>))))"

section \<open>Running\<close>

definition DoAccept :: "'f https_server \<Rightarrow> 'f https_server" where
  "DoAccept s = (if \<not> hv_running s then s else s\<lparr>hv_accepting := True\<rparr>)"

text \<open>\<open>hardware_concurrency\<close> may be 0, hence the fallback.\<close>

definition io_thread_count :: "nat \<Rightarrow> HttpsServerConfig \<Rightarrow> nat" where
  "io_thread_count hardware_concurrency cfg =
     (if hc_io_threads cfg = 0 then (if hardware_concurrency = 0 then 4 else hardware_concurrency)
      else hc_io_threads cfg)"

definition Https_Start :: "nat \<Rightarrow> 'f https_server \<Rightarrow> bool \<times> 'f https_server" where
  "Https_Start hardware_concurrency s =
     (if \<not> hv_initialized s then (False, s)
      else if hv_running s then (True, s)
      else (True, (DoAccept (s\<lparr>hv_running := True\<rparr>))
        \<lparr>hv_io_threads := hv_io_threads s + io_thread_count hardware_concurrency (hv_config s)\<rparr>))"

text \<open>
  A thread's \<open>run()\<close> returns at once on a stopped context. The completion of an accept needs a
  thread that runs the context; without an open acceptor it carries an error.
\<close>

definition OnAccept :: "bool \<Rightarrow> int \<Rightarrow> 'f https_server \<Rightarrow> 'f https_server option" where
  "OnAccept error now s =
     (if \<not> hv_accepting s \<or> hv_io_stopped s \<or> hv_io_threads s = 0 then None
      else let s1 = (if error \<or> \<not> hv_acceptor_open s then s
                     else s\<lparr>hv_sessions := hv_sessions s @
                       [Session_Start (HttpsSession_new (hc_max_requests_per_connection (hv_config s))
                          (hc_keep_alive_timeout_sec (hv_config s)) now)]\<rparr>)
           in Some (if hv_running s then DoAccept (s1\<lparr>hv_accepting := False\<rparr>) else s1\<lparr>hv_accepting := False\<rparr>))"

definition Https_Stop :: "'f https_server \<Rightarrow> 'f https_server" where
  "Https_Stop s =
     (if \<not> hv_running s then s
      else s\<lparr>hv_running := False, hv_acceptor_open := False, hv_io_stopped := True, hv_io_threads := 0,
             hv_pool := map_option (\<lambda>p. Shutdown_queue (snd (Shutdown_exchange p))) (hv_pool s)\<rparr>)"

inductive https_step :: "'f https_server \<Rightarrow> 'f https_server \<Rightarrow> bool" where
  hv_initialize: "Https_Initialize clock ops w listening s = (ok, s') \<Longrightarrow> https_step s s'"
| hv_start: "Https_Start hw s = (ok, s') \<Longrightarrow> https_step s s'"
| hv_accept: "OnAccept error now s = Some s' \<Longrightarrow> https_step s s'"
| hv_stop: "https_step s (Https_Stop s)"

inductive_cases https_stepE: "https_step s s'"

section \<open>The properties\<close>

text \<open>What stays once the context has been stopped.\<close>

definition io_over :: "session list \<Rightarrow> 'f https_server \<Rightarrow> bool" where
  "io_over ss s \<longleftrightarrow> hv_initialized s \<and> hv_io_stopped s \<and> hv_sessions s = ss"

lemma io_over_step: "https_step s s' \<Longrightarrow> io_over ss s \<Longrightarrow> io_over ss s'"
proof (induction rule: https_step.induct)
  case (hv_initialize clock ops w listening s ok s')
  then show ?case by (simp add: Https_Initialize_def io_over_def)
next
  case (hv_start hw s ok s')
  then show ?case by (auto simp: Https_Start_def DoAccept_def io_over_def split: if_split_asm)
next
  case (hv_accept error now s s')
  then show ?case by (simp add: OnAccept_def io_over_def)
next
  case (hv_stop s)
  then show ?case by (simp add: Https_Stop_def io_over_def)
qed

text \<open>
  The server cannot be started again: after \<open>Stop\<close> the I/O context stays stopped, so in
  every later state \<open>Start\<close> reports success, but no connection is ever accepted.
\<close>

theorem https_dead_after_stop:
  assumes "hv_initialized s" and "hv_running s" and "https_step\<^sup>*\<^sup>* (Https_Stop s) s'"
  shows "fst (Https_Start hardware_concurrency s') \<and> hv_sessions s' = hv_sessions s"
proof -
  have "io_over (hv_sessions s) (Https_Stop s)" using assms(1,2) by (simp add: io_over_def Https_Stop_def)
  with assms(3) have "io_over (hv_sessions s) s'"
    by (induction rule: rtranclp_induct) (blast intro: io_over_step)+
  then show ?thesis by (auto simp: io_over_def Https_Start_def)
qed

definition demo_https :: "unit https_server" where
  "demo_https =
     snd (Https_Start 2 (snd (Https_Initialize (\<lambda>_. 5)
       \<lparr>so_create = Inr (), so_load_verify_file = (\<lambda>_. Inr ()), so_use_certificate_chain_file = (\<lambda>_. Inr ()),
        so_use_private_key = (\<lambda>_. Inr ())\<rparr>
       \<lparr>tm_initialize = True, tm_get_string = (\<lambda>_. Inr ''/tls/''), tm_read_file = (\<lambda>_. Inr ''pem''),
        tm_get_secret = (\<lambda>_. Inr ''key''), tm_load_ca = (\<lambda>_. True), tm_load_certificate = (\<lambda>_ _. True)\<rparr>
       (Inr ())
       \<lparr>hv_config = HttpsServerConfig_default\<lparr>hc_handler_threads := 1\<rparr>, hv_initialized = False, hv_running = False,
        hv_router = router_new (WalletMessageType_value W_MAX_MESSAGE_TYPE), hv_tls = False, hv_pool = None,
        hv_acceptor_open = False, hv_accepting = False, hv_io_stopped = False, hv_io_threads = 0,
        hv_sessions = []\<rparr>)))"

definition demo_restarted :: "unit https_server" where
  "demo_restarted = snd (Https_Start 2 (Https_Stop demo_https))"

theorem https_dead_after_stop_witness:
  "hv_running demo_restarted \<and> fst (Https_Start 2 demo_restarted) \<and> hv_sessions demo_restarted = hv_sessions demo_https"
proof -
  have f: "hv_initialized demo_https" "hv_running demo_https" "hv_running demo_restarted" by code_simp+
  have "https_step (Https_Stop demo_https) demo_restarted"
    unfolding demo_restarted_def by (rule hv_start [of 2 _ "fst (Https_Start 2 (Https_Stop demo_https))"]) simp
  then have "https_step\<^sup>*\<^sup>* (Https_Stop demo_https) demo_restarted" by blast
  with https_dead_after_stop [OF f(1,2) this, of 2] f(3) show ?thesis by simp
qed

text \<open>Any number of connections is accepted: \<open>max_connections\<close> is only checked for 0.\<close>

lemma max_connections_unused:
  assumes "hv_running s" "hv_accepting s" "hv_acceptor_open s" "\<not> hv_io_stopped s" "hv_io_threads s > 0"
  shows "\<exists>s'. https_step\<^sup>*\<^sup>* s s' \<and> hv_config s' = hv_config s
     \<and> length (hv_sessions s') = length (hv_sessions s) + n
     \<and> hv_running s' \<and> hv_accepting s' \<and> hv_acceptor_open s' \<and> \<not> hv_io_stopped s' \<and> hv_io_threads s' > 0"
proof (induction n)
  case 0
  show ?case using assms by (intro exI [of _ s]) simp
next
  case (Suc n)
  then obtain s1 where s1: "https_step\<^sup>*\<^sup>* s s1" "hv_config s1 = hv_config s"
    "length (hv_sessions s1) = length (hv_sessions s) + n" "hv_running s1" "hv_accepting s1"
    "hv_acceptor_open s1" "\<not> hv_io_stopped s1" "hv_io_threads s1 > 0" by blast
  then obtain s2 where s2: "OnAccept False 0 s1 = Some s2" by (simp add: OnAccept_def Let_def)
  then have "hv_config s2 = hv_config s \<and> length (hv_sessions s2) = length (hv_sessions s) + Suc n
     \<and> hv_running s2 \<and> hv_accepting s2 \<and> hv_acceptor_open s2 \<and> \<not> hv_io_stopped s2 \<and> hv_io_threads s2 > 0"
    using s1 by (auto simp: OnAccept_def DoAccept_def Let_def)
  then show ?case using s1(1) hv_accept [OF s2] by (meson rtranclp.rtrancl_into_rtrancl)
qed

end
