(* ===== verification/Env_Config.thy ===== *)
theory Env_Config
  imports Prelude
begin

text \<open>
  The configuration, \<open>src/common/env/EnvConfig.cpp\<close> and \<open>EnvManager.cpp\<close>: the parser of
  \<open>env/.env.<type>\<close> files, the typed readers with their exceptions, and the manager that holds
  the one loaded configuration. The file system is an argument: the text of a file, or \<open>None\<close>
  when it cannot be opened.
\<close>

section \<open>The configuration object\<close>

record env_config =
  ec_map :: "string \<rightharpoonup> string"
  ec_env_type :: string
  ec_loaded :: bool

definition EnvConfig_default :: env_config where
  "EnvConfig_default = \<lparr>ec_map = Map.empty, ec_env_type = [], ec_loaded = False\<rparr>"

definition ParseLine :: "string \<Rightarrow> env_config \<Rightarrow> bool \<times> env_config" where
  "ParseLine line s =
     (let trimmed = trim is_ws line in
      if trimmed = [] \<or> hd trimmed = CHR ''#'' then (True, s)
      else case split_first CHR ''='' trimmed of
        None \<Rightarrow> (False, s)
      | Some (k, v) \<Rightarrow>
          (let key = trim is_blank k; value = trim is_blank v in
           if key \<noteq> [] then (True, s\<lparr>ec_map := (ec_map s)(key \<mapsto> value)\<rparr>) else (False, s)))"

definition LoadFromFile :: "(string \<Rightarrow> string option) \<Rightarrow> string \<Rightarrow> env_config \<Rightarrow> bool \<times> env_config" where
  "LoadFromFile files file_path s =
     (case files file_path of
        None \<Rightarrow> (False, s)
      | Some content \<Rightarrow>
          (True, (fold (\<lambda>line t. snd (ParseLine line t)) (getlines (CHR 0x0A) content) (s\<lparr>ec_map := Map.empty\<rparr>))
             \<lparr>ec_loaded := True\<rparr>))"

definition LoadFromEnv :: "(string \<Rightarrow> string option) \<Rightarrow> string \<Rightarrow> env_config \<Rightarrow> bool \<times> env_config" where
  "LoadFromEnv files env_name s =
     LoadFromFile files (''env/.env.'' @ env_name) (s\<lparr>ec_env_type := env_name\<rparr>)"

section \<open>The typed readers\<close>


definition GetString :: "env_config \<Rightarrow> string \<Rightarrow> exn + string" where
  "GetString s key =
     (case ec_map s key of
        None \<Rightarrow> Inl (ConfigMissingException key)
      | Some v \<Rightarrow> (if v = [] then Inl (ConfigMissingException key) else Inr v))"

definition parse_u16 :: "nat \<Rightarrow> string \<Rightarrow> exn + u16" where
  "parse_u16 least value =
     exn_bind (stoul value) (\<lambda>parsed.
       if unat parsed < least \<or> unat parsed > 65535 then Inl (Out_of_range ''Value too large for uint16_t'')
       else Inr (ucast parsed))"

definition GetUInt16 :: "env_config \<Rightarrow> string \<Rightarrow> exn + u16" where
  "GetUInt16 s key =
     exn_bind (GetString s key) (\<lambda>value.
       rethrow_as (Runtime_error (''Invalid uint16 value for key '' @ quoted key @ '': '' @ value)) (parse_u16 0 value))"

definition GetUInt32 :: "env_config \<Rightarrow> string \<Rightarrow> exn + u32" where
  "GetUInt32 s key =
     exn_bind (GetString s key) (\<lambda>value.
       rethrow_as (Runtime_error (''Invalid uint32 value for key '' @ quoted key @ '': '' @ value))
         (exn_bind (stoul value) (\<lambda>parsed. Inr (ucast parsed))))"

definition tolower :: "char \<Rightarrow> char" where
  "tolower c = (let n = of_char c :: nat in if 65 \<le> n \<and> n \<le> 90 then char_of (n + 32) else c)"

definition GetBool :: "env_config \<Rightarrow> string \<Rightarrow> exn + bool" where
  "GetBool s key =
     exn_bind (GetString s key) (\<lambda>text.
       let value = map tolower text in
       if value = ''true'' \<or> value = ''1'' \<or> value = ''yes'' \<or> value = ''on'' then Inr True
       else if value = ''false'' \<or> value = ''0'' \<or> value = ''no'' \<or> value = ''off'' then Inr False
       else Inl (Runtime_error (''Invalid boolean value for key '' @ quoted key @ '': '' @ value)))"

definition GetStringArray :: "env_config \<Rightarrow> string \<Rightarrow> exn + string list" where
  "GetStringArray s key =
     exn_bind (GetString s key) (\<lambda>value.
       let result = filter (\<lambda>item. item \<noteq> []) (map (trim is_blank) (getlines CHR '','' value)) in
       if result = [] then Inl (ConfigMissingException (key @ '' (array is empty)'')) else Inr result)"

definition GetUInt16Array :: "env_config \<Rightarrow> string \<Rightarrow> exn + u16 list" where
  "GetUInt16Array s key =
     exn_bind (GetStringArray s key)
       (exn_map (\<lambda>str. rethrow_as (Runtime_error (''Invalid uint16 value in array '' @ quoted key @ '': '' @ str))
         (parse_u16 0 str)))"

definition parse_endpoint :: "string \<Rightarrow> string \<Rightarrow> exn + string \<times> u16" where
  "parse_endpoint key endpoint =
     (case split_first CHR '':'' endpoint of
        None \<Rightarrow> Inl (Runtime_error (''Invalid endpoint format in '' @ quoted key @ '': '' @ endpoint @ '' (expected host:port)''))
      | Some (h, p) \<Rightarrow>
          (let host = trim is_blank h; port_str = trim is_blank p in
           if host = [] then Inl (Runtime_error (''Empty host in endpoint '' @ quoted key @ '': '' @ endpoint))
           else rethrow_as (Runtime_error (''Invalid port in endpoint '' @ quoted key @ '': '' @ endpoint))
             (exn_bind (parse_u16 1 port_str) (\<lambda>port. Inr (host, port)))))"

definition GetNodeEndpoints :: "env_config \<Rightarrow> string \<Rightarrow> exn + (string \<times> u16) list" where
  "GetNodeEndpoints s key = exn_bind (GetStringArray s key) (exn_map (parse_endpoint key))"

definition HasKey :: "env_config \<Rightarrow> string \<Rightarrow> bool" where
  "HasKey s key \<longleftrightarrow> ec_map s key \<noteq> None"

fun comma_separated :: "string list \<Rightarrow> string" where
  "comma_separated [] = []"
| "comma_separated [k] = k"
| "comma_separated (k # ks) = k @ '', '' @ comma_separated ks"

definition ValidateRequired :: "env_config \<Rightarrow> string list \<Rightarrow> exn + unit" where
  "ValidateRequired s required_keys =
     (let missing_keys = filter (\<lambda>key. \<not> HasKey s key \<or> ec_map s key = Some []) required_keys in
      if missing_keys \<noteq> []
      then Inl (Runtime_error (''Missing required configuration keys: '' @ comma_separated missing_keys))
      else Inr ())"

section \<open>The manager\<close>

record env_manager =
  em_config :: "env_config option"
  em_initialized :: bool

definition EnvManager_default :: env_manager where
  "EnvManager_default = \<lparr>em_config = None, em_initialized = False\<rparr>"

definition Manager_Initialize :: "(string \<Rightarrow> string option) \<Rightarrow> string \<Rightarrow> env_manager \<Rightarrow> bool \<times> env_manager" where
  "Manager_Initialize files env_type m =
     (if em_initialized m
      then (map_option ec_env_type (em_config m) = Some env_type, m)
      else case LoadFromEnv files env_type EnvConfig_default of
        (False, _) \<Rightarrow> (False, m\<lparr>em_config := None\<rparr>)
      | (True, c) \<Rightarrow> (True, m\<lparr>em_config := Some c, em_initialized := True\<rparr>))"

definition GetConfig :: "env_manager \<Rightarrow> exn + env_config" where
  "GetConfig m =
     (case (em_initialized m, em_config m) of
        (True, Some c) \<Rightarrow> Inr c
      | _ \<Rightarrow> Inl (Runtime_error
          ''EnvManager not initialized. Call EnvManager::Instance().Initialize(env_type) first.''))"

text \<open>The manager's readers all have the shape \<open>GetConfig().reader(key)\<close>.\<close>

definition Manager_read :: "(env_config \<Rightarrow> string \<Rightarrow> exn + 'a) \<Rightarrow> env_manager \<Rightarrow> string \<Rightarrow> exn + 'a" where
  "Manager_read reader m key = exn_bind (GetConfig m) (\<lambda>c. reader c key)"

definition Manager_IsInitialized :: "env_manager \<Rightarrow> bool" where
  "Manager_IsInitialized m = em_initialized m"

text \<open>The one instance of the program, made by its first use.\<close>

definition EnvManager_Instance :: "env_manager option \<Rightarrow> env_manager \<times> env_manager option" where
  "EnvManager_Instance instance =
     (case instance of None \<Rightarrow> (EnvManager_default, Some EnvManager_default) | Some m \<Rightarrow> (m, Some m))"

text \<open>
  The readers of the namespace \<open>Config\<close> go through that instance, which they make themselves when
  nothing has used it before; they then fail, since nothing has initialised it either.
\<close>

definition Config_read ::
  "(env_config \<Rightarrow> string \<Rightarrow> exn + 'a) \<Rightarrow> env_manager option \<Rightarrow> string \<Rightarrow> (exn + 'a) \<times> env_manager option" where
  "Config_read reader instance key =
     (case EnvManager_Instance instance of (m, instance') \<Rightarrow> (Manager_read reader m key, instance'))"

lemma Config_read_cases:
  "fst (Config_read reader None key) = Inl (Runtime_error
     ''EnvManager not initialized. Call EnvManager::Instance().Initialize(env_type) first.'')"
  "Config_read reader (Some m) key = (Manager_read reader m key, Some m)"
  by (simp_all add: Config_read_def EnvManager_Instance_def EnvManager_default_def Manager_read_def
      GetConfig_def)

definition Manager_HasKey :: "env_manager \<Rightarrow> string \<Rightarrow> exn + bool" where
  "Manager_HasKey m key = exn_bind (GetConfig m) (\<lambda>c. Inr (HasKey c key))"

definition Manager_GetEnvType :: "env_manager \<Rightarrow> exn + string" where
  "Manager_GetEnvType m = exn_bind (GetConfig m) (\<lambda>c. Inr (ec_env_type c))"

definition Manager_ValidateRequired :: "env_manager \<Rightarrow> string list \<Rightarrow> exn + unit" where
  "Manager_ValidateRequired m keys = exn_bind (GetConfig m) (\<lambda>c. ValidateRequired c keys)"

definition Reload :: "(string \<Rightarrow> string option) \<Rightarrow> env_manager \<Rightarrow> bool \<times> env_manager" where
  "Reload files m =
     (case (em_initialized m, em_config m) of
        (True, Some c) \<Rightarrow>
          (case LoadFromEnv files (ec_env_type c) EnvConfig_default of
             (False, _) \<Rightarrow> (False, m\<lparr>em_config := None, em_initialized := False\<rparr>)
           | (True, c') \<Rightarrow> (True, m\<lparr>em_config := Some c'\<rparr>))
      | _ \<Rightarrow> (False, m))"

lemmas reader_defs = GetString_def GetUInt16_def GetUInt32_def GetStringArray_def GetUInt16Array_def GetNodeEndpoints_def
  parse_u16_def parse_endpoint_def

section \<open>Files\<close>

text \<open>A line of a file: an entry, or text that the parser skips.\<close>

datatype file_line = Entry string string | Skipped string

fun line_text :: "file_line \<Rightarrow> string" where
  "line_text (Entry k v) = k @ ''='' @ v"
| "line_text (Skipped l) = l"

fun line_ok :: "file_line \<Rightarrow> bool" where
  "line_ok (Entry k v) \<longleftrightarrow> k \<noteq> [] \<and> trimmed is_ws k \<and> trimmed is_ws v \<and> hd k \<noteq> CHR ''#''
     \<and> CHR ''='' \<notin> set k \<and> CHR 0x0A \<notin> set k \<and> CHR 0x0A \<notin> set v"
| "line_ok (Skipped l) \<longleftrightarrow> (trim is_ws l = [] \<or> hd (trim is_ws l) = CHR ''#'') \<and> CHR 0x0A \<notin> set l"

fun line_entry :: "file_line \<Rightarrow> (string \<times> string) list" where
  "line_entry (Entry k v) = [(k, v)]"
| "line_entry (Skipped l) = []"

lemma trimmed_blank: "trimmed is_ws s \<Longrightarrow> trimmed is_blank s"
  by (auto simp: trimmed_def is_ws_def is_blank_def)

lemma ParseLine_entry:
  assumes "line_ok (Entry k v)"
  shows "ParseLine (line_text (Entry k v)) s = (True, s\<lparr>ec_map := (ec_map s)(k \<mapsto> v)\<rparr>)"
proof -
  have "trimmed is_ws (k @ ''='' @ v)"
    using assms by (cases "v = []") (auto simp: trimmed_def is_ws_def)
  then have "trim is_ws (k @ ''='' @ v) = k @ CHR ''='' # v" by (simp add: trim_trimmed)
  then show ?thesis using assms
    by (auto simp: ParseLine_def split_first_append trim_trimmed trimmed_blank)
qed

lemma ParseLine_line:
  assumes "line_ok l"
  shows "ec_map (snd (ParseLine (line_text l) s)) = ec_map s ++ map_of (line_entry l)
     \<and> ec_env_type (snd (ParseLine (line_text l) s)) = ec_env_type s"
proof (cases l)
  case (Entry k v)
  with assms ParseLine_entry [of k v s] show ?thesis by simp
next
  case (Skipped t)
  with assms show ?thesis by (auto simp: ParseLine_def Let_def)
qed

lemma ParseLine_lines:
  assumes "list_all line_ok ls"
  shows "ec_map (fold (\<lambda>line t. snd (ParseLine line t)) (map line_text ls) s) =
       ec_map s ++ map_of (rev (concat (map line_entry ls)))
     \<and> ec_env_type (fold (\<lambda>line t. snd (ParseLine line t)) (map line_text ls) s) = ec_env_type s"
  using assms
proof (induction ls arbitrary: s)
  case (Cons l ls)
  have "map_of (rev (line_entry l)) = map_of (line_entry l)" by (cases l) simp_all
  with Cons ParseLine_line [of l s] show ?case by (simp add: map_add_assoc)
qed simp

text \<open>
  C37. A configuration file is read back as it was written: whatever comments and blank lines
  stand between the entries, the loaded map holds the value of every key, the last one when a
  key is repeated, and nothing else; what was loaded before is gone.
\<close>

theorem config_file_roundtrip:
  assumes "list_all line_ok ls" and "files (''env/.env.'' @ env) = Some (join_lines (CHR 0x0A) (map line_text ls))"
  shows "\<exists>s'. LoadFromEnv files env s = (True, s') \<and> ec_map s' = map_of (rev (concat (map line_entry ls)))
     \<and> ec_env_type s' = env \<and> ec_loaded s'"
proof -
  have "CHR 0x0A \<notin> set (line_text l)" if "l \<in> set ls" for l
    using assms(1) that by (cases l) (auto simp: list_all_iff)
  then have g: "getlines (CHR 0x0A) (join_lines (CHR 0x0A) (map line_text ls)) = map line_text ls"
    by (intro getlines_join_lines) auto
  show ?thesis
    unfolding LoadFromEnv_def LoadFromFile_def assms(2) option.case g
    using ParseLine_lines [OF assms(1), of "s\<lparr>ec_env_type := env, ec_map := Map.empty\<rparr>"] by simp
qed

theorem config_file_roundtrip_witness:
  "\<exists>s'. LoadFromEnv [''env/.env.local'' \<mapsto> join_lines (CHR 0x0A) [''A=1'', ''# c'', ''B=x y'', ''A=2'']] ''local''
      EnvConfig_default = (True, s') \<and> ec_map s' ''A'' = Some ''2'' \<and> ec_map s' ''B'' = Some ''x y''"
proof -
  have "list_all line_ok [Entry ''A'' ''1'', Skipped ''# c'', Entry ''B'' ''x y'', Entry ''A'' ''2'']"
    by (simp add: trimmed_def is_ws_def trim_def)
  from config_file_roundtrip [OF this,
      of "[''env/.env.local'' \<mapsto> join_lines (CHR 0x0A) [''A=1'', ''# c'', ''B=x y'', ''A=2'']]" "''local''" EnvConfig_default]
  show ?thesis by auto
qed

section \<open>Numbers\<close>

lemma GetUInt32_text:
  assumes "n < 2 ^ 64" and "ec_map s key = Some (to_string n)"
  shows "GetUInt32 s key = Inr (word_of_nat n)"
proof -
  have "(ucast (word_of_nat n :: u64) :: u32) = word_of_nat n" by (transfer, simp add: take_bit_of_nat)
  with assms show ?thesis by (simp add: reader_defs stoul_to_string)
qed

text \<open>
  C38. The 16-bit reader refuses what it cannot represent, the 32-bit reader does not: a
  decimal number above the range is an error for \<open>GetUInt16\<close>, while \<open>GetUInt32\<close> returns it
  modulo \<open>2 ^ 32\<close>; a number with a minus sign is accepted as its negation modulo \<open>2 ^ 32\<close>.
\<close>

theorem config_numbers:
  assumes "n < 2 ^ 64"
  shows "(ec_map s key = Some (to_string n) \<longrightarrow>
       GetUInt16 s key = (if n \<le> 65535 then Inr (word_of_nat n)
          else Inl (Runtime_error (''Invalid uint16 value for key '' @ quoted key @ '': '' @ to_string n)))
       \<and> GetUInt32 s key = Inr (word_of_nat n))
   \<and> (ec_map s key = Some (CHR ''-'' # to_string n) \<longrightarrow> GetUInt32 s key = Inr (- word_of_nat n))"
proof -
  have u: "unat (word_of_nat n :: u64) = n" using assms by (simp add: unsigned_of_nat take_bit_nat_eq_self)
  have p: "stoul (to_string n) = Inr (word_of_nat n)" using assms by (rule stoul_to_string)
  have tw: "takeWhile is_digit (to_string n) = to_string n"
    by (rule takeWhile_eq_all_conv [THEN iffD2]) (use to_string_digits in blast)
  have m: "stoul (CHR ''-'' # to_string n) = Inr (- word_of_nat n)"
    using assms by (simp add: stoul_def split_sign_def is_space_def Let_def tw)
  have c16: "(ucast (word_of_nat n :: u64) :: u16) = word_of_nat n" by (transfer, simp add: take_bit_of_nat)
  have c32': "(ucast (- word_of_nat n :: u64) :: u32) = - word_of_nat n" by (transfer, simp add: take_bit_minus)
  show ?thesis
  proof (intro conjI impI)
    assume "ec_map s key = Some (to_string n)"
    then show "GetUInt16 s key = (if n \<le> 65535 then Inr (word_of_nat n)
          else Inl (Runtime_error (''Invalid uint16 value for key '' @ quoted key @ '': '' @ to_string n)))"
      and "GetUInt32 s key = Inr (word_of_nat n)"
      using p u c16 GetUInt32_text [OF assms] by (simp_all add: reader_defs)
  next
    assume "ec_map s key = Some (CHR ''-'' # to_string n)"
    then show "GetUInt32 s key = Inr (- word_of_nat n)"
      using m c32' by (simp add: reader_defs)
  qed
qed

theorem config_numbers_witness:
  "GetUInt32 (EnvConfig_default\<lparr>ec_map := [''P'' \<mapsto> to_string 4294967297]\<rparr>) ''P'' = Inr 1
   \<and> (\<exists>e. GetUInt16 (EnvConfig_default\<lparr>ec_map := [''P'' \<mapsto> to_string 4294967297]\<rparr>) ''P'' = Inl e)"
proof -
  have n: "(4294967297 :: nat) < 2 ^ 64" by simp
  have w: "(word_of_nat 4294967297 :: u32) = 1" by simp
  show ?thesis
    using config_numbers [OF n, of "EnvConfig_default\<lparr>ec_map := [''P'' \<mapsto> to_string 4294967297]\<rparr>" "''P''"]
    by (simp add: w)
qed

section \<open>Lists of endpoints\<close>

definition endpoint_text :: "string \<times> u16 \<Rightarrow> string" where
  "endpoint_text e = fst e @ '':'' @ to_string (unat (snd e))"

definition endpoint_ok :: "string \<times> u16 \<Rightarrow> bool" where
  "endpoint_ok e \<longleftrightarrow> fst e \<noteq> [] \<and> trimmed is_blank (fst e) \<and> CHR '':'' \<notin> set (fst e) \<and> CHR '','' \<notin> set (fst e) \<and> snd e \<noteq> 0"

lemma digit_not: "is_digit c \<Longrightarrow> c \<noteq> CHR '','' \<and> c \<noteq> CHR '':'' \<and> \<not> is_blank c"
  by (auto simp: is_digit_def is_blank_def)

lemma to_string_plain:
  "CHR '','' \<notin> set (to_string n)" "trimmed is_blank (to_string n)"
proof -
  have d: "c \<noteq> CHR '','' \<and> \<not> is_blank c" if "c \<in> set (to_string n)" for c
    using digit_not [OF to_string_digits [OF that]] by blast
  then show "CHR '','' \<notin> set (to_string n)" by blast
  show "trimmed is_blank (to_string n)"
    using d [OF hd_in_set] d [OF last_in_set] by (simp add: trimmed_def)
qed

lemma parse_u16_text: "unat (x :: u16) \<ge> least \<Longrightarrow> parse_u16 least (to_string (unat x)) = Inr x"
proof -
  assume l: "unat x \<ge> least"
  have n: "unat x < 65536" using unsigned_less [of x] by simp
  then have u: "unat (word_of_nat (unat x) :: u64) = unat x"
    by (simp only: unsigned_of_nat) (simp add: take_bit_nat_eq_self)
  have "(ucast (word_of_nat (unat x) :: u64) :: u16) = word_of_nat (unat x)" by (transfer, simp add: take_bit_of_nat)
  with n u l show ?thesis by (simp add: parse_u16_def stoul_to_string)
qed

lemma parse_endpoint_text: "endpoint_ok e \<Longrightarrow> parse_endpoint key (endpoint_text e) = Inr e"
proof -
  assume ok: "endpoint_ok e"
  have "split_first CHR '':'' (endpoint_text e) = Some (fst e, to_string (unat (snd e)))"
    using ok split_first_append [of "CHR '':''" "fst e"] by (simp add: endpoint_text_def endpoint_ok_def)
  moreover have "unat (snd e) \<ge> 1" using ok by (simp add: endpoint_ok_def Suc_le_eq unat_gt_0)
  ultimately show ?thesis
    using ok by (simp add: parse_endpoint_def endpoint_ok_def trim_trimmed to_string_plain parse_u16_text)
qed

lemma endpoint_text_plain: "endpoint_ok e \<Longrightarrow> CHR '','' \<notin> set (endpoint_text e) \<and> endpoint_text e \<noteq> [] \<and> trimmed is_blank (endpoint_text e)"
  using to_string_plain [of "unat (snd e)"] by (auto simp: endpoint_text_def endpoint_ok_def trimmed_def)

lemma parse_u16_range: "parse_u16 least v = Inr p \<Longrightarrow> least \<le> unat p"
  by (auto simp: parse_u16_def exn_bind_eq_Inr unsigned_ucast_eq take_bit_nat_eq_self split: if_splits)

lemma GetNodeEndpoints_text:
  assumes "es \<noteq> []" and ok: "\<And>e. e \<in> set es \<Longrightarrow> endpoint_ok e"
    and v: "ec_map s key = Some (join_with CHR '','' (map endpoint_text es))"
  shows "GetNodeEndpoints s key = Inr es"
proof -
  let ?ts = "map endpoint_text es"
  have g: "getlines CHR '','' (join_with CHR '','' ?ts) = ?ts"
    by (rule getlines_join_with) (use ok endpoint_text_plain in auto)
  have t: "map (trim is_blank) ?ts = ?ts" "filter (\<lambda>item. item \<noteq> []) ?ts = ?ts"
    using ok endpoint_text_plain by (auto simp: trim_trimmed filter_id_conv)
  have "join_with CHR '','' ?ts \<noteq> []" using assms(1) g by (metis Nil_is_map_conv getlines_Nil)
  then have "GetStringArray s key = Inr ?ts"
    using assms(1) v g t by (simp add: GetStringArray_def GetString_def del: map_map)
  moreover have "exn_map (parse_endpoint key) ?ts = Inr es"
    by (simp add: exn_map_Inr_iff list_all2_map1 list_all2_same ok parse_endpoint_text)
  ultimately show ?thesis by (simp add: GetNodeEndpoints_def)
qed

text \<open>
  The endpoints of the nodes: a printed list is read back unchanged, and whatever the text,
  every endpoint that is accepted has a host, free of blanks around it, and a port between 1
  and 65535.
\<close>

theorem endpoints_roundtrip:
  "(es \<noteq> [] \<and> list_all endpoint_ok es \<and> ec_map s key = Some (join_with CHR '','' (map endpoint_text es)) \<longrightarrow>
      GetNodeEndpoints s key = Inr es)
   \<and> (GetNodeEndpoints s key = Inr rs \<longrightarrow> rs \<noteq> [] \<and> (\<forall>(h, p) \<in> set rs. h \<noteq> [] \<and> trimmed is_blank h \<and> 1 \<le> unat p))"
proof (intro conjI impI)
  assume a: "es \<noteq> [] \<and> list_all endpoint_ok es \<and> ec_map s key = Some (join_with CHR '','' (map endpoint_text es))"
  then show "GetNodeEndpoints s key = Inr es"
    by (intro GetNodeEndpoints_text) (auto simp: list_all_iff)
next
  assume "GetNodeEndpoints s key = Inr rs"
  then obtain ts where ts: "GetStringArray s key = Inr ts" "list_all2 (\<lambda>t r. parse_endpoint key t = Inr r) ts rs"
    by (auto simp: GetNodeEndpoints_def exn_bind_eq_Inr exn_map_Inr_iff)
  then have "ts \<noteq> []" by (auto simp: GetStringArray_def exn_bind_eq_Inr Let_def split: if_splits)
  with ts(2) show "rs \<noteq> []" by auto
  have "h \<noteq> [] \<and> trimmed is_blank h \<and> 1 \<le> unat p" if "parse_endpoint key t = Inr (h, p)" for t h p
    using that by (auto simp: parse_endpoint_def Let_def exn_bind_eq_Inr dest: parse_u16_range split: option.splits if_splits)
  with ts(2) show "\<forall>(h, p) \<in> set rs. h \<noteq> [] \<and> trimmed is_blank h \<and> 1 \<le> unat p"
    by (induction rule: list_all2_induct) auto
qed

theorem endpoints_roundtrip_witness:
  "GetNodeEndpoints (EnvConfig_default\<lparr>ec_map := [''N'' \<mapsto> ''10.0.0.7:9000,h:1'']\<rparr>) ''N'' =
     Inr [(''10.0.0.7'', 9000), (''h'', 1)]"
proof -
  have t: "to_string 9000 = ''9000''" "to_string (Suc 0) = ''1''" by (simp_all add: to_string.simps digit_char_def char_of_eq_iff take_bit_eq_mod)
  have "join_with CHR '','' (map endpoint_text [(''10.0.0.7'', 9000), (''h'', 1)]) = ''10.0.0.7:9000,h:1''"
    by (simp add: endpoint_text_def t)
  then show ?thesis
    using endpoints_roundtrip [of "[(''10.0.0.7'', 9000), (''h'', 1)]"
        "EnvConfig_default\<lparr>ec_map := [''N'' \<mapsto> ''10.0.0.7:9000,h:1'']\<rparr>" "''N''"]
    by (simp add: endpoint_ok_def trimmed_def is_blank_def)
qed

end
