(* ===== verification/Coordinator_Server.thy ===== *)
theory Coordinator_Server
  imports Client_Lifecycle Https_Server Env_Config
begin

text \<open>
  The coordinator, \<open>src/coordinator/CoordinatorServer.cpp\<close>: its life cycle, the registry of
  the nodes with one client each, the broadcast and the queries, and the management of its HTTPS
  server. The registry is an association list without repeated keys; the iteration order of the
  \<open>unordered_map\<close>, which the code does not rely on, is the order of registration. The other
  components appear as their own models: \<open>NodeTcpClient\<close>, \<open>CoordinatorHttpsServer\<close>, \<open>EnvManager\<close>.
\<close>

record 'f coordinator =
  co_nodes :: "(string \<times> node_client) list"
  co_https :: "'f https_server option"
  co_running :: bool
  co_initialized :: bool
  co_start_time :: u64

definition CoordinatorServer_new :: "u64 \<Rightarrow> 'f coordinator" where
  "CoordinatorServer_new now =
     \<lparr>co_nodes = [], co_https = None, co_running = False, co_initialized = False, co_start_time = now\<rparr>"

section \<open>The registry\<close>

definition FindNodeClientInternal :: "string \<Rightarrow> 'f coordinator \<Rightarrow> node_client option" where
  "FindNodeClientInternal node_id s = map_of (co_nodes s) node_id"

definition HasNode :: "string \<Rightarrow> 'f coordinator \<Rightarrow> bool" where
  "HasNode node_id s \<longleftrightarrow> map_of (co_nodes s) node_id \<noteq> None"

text \<open>The loop over the node ids: the first index with this id at which both other arrays reach.\<close>

fun find_certificate :: "nat \<Rightarrow> string list \<Rightarrow> string list \<Rightarrow> string list \<Rightarrow> string \<Rightarrow> (string \<times> string) option" where
  "find_certificate i [] cert_paths key_ids node_id = None"
| "find_certificate i (x # xs) cert_paths key_ids node_id =
     (if x = node_id \<and> i < length cert_paths \<and> i < length key_ids then Some (cert_paths ! i, key_ids ! i)
      else find_certificate (Suc i) xs cert_paths key_ids node_id)"

definition RegisterNode ::
  "env_manager \<Rightarrow> tls_material \<Rightarrow> tls_env \<Rightarrow> string \<Rightarrow> PlatformType \<Rightarrow> string \<Rightarrow> u16 \<Rightarrow> u32 \<Rightarrow> 'f coordinator
     \<Rightarrow> (exn + bool) \<times> 'f coordinator" where
  "RegisterNode config w e node_id platform address port shard_index s =
     (if node_id = [] \<or> address = [] \<or> port = 0 then (Inr False, s)
      else if HasNode node_id s then (Inr False, s)
      else case exn_bind (Manager_read GetStringArray config ''NODE_IDS'') (\<lambda>node_ids.
             exn_bind (Manager_read GetStringArray config ''TLS_CERT_PATHS'') (\<lambda>tls_cert_paths.
             exn_bind (Manager_read GetStringArray config ''TLS_KMS_NODES_COORDINATOR_KEY_IDS'') (\<lambda>key_ids.
               Inr (find_certificate 0 node_ids tls_cert_paths key_ids node_id)))) of
        Inl ex \<Rightarrow> (Inl ex, s)
      | Inr None \<Rightarrow> (Inr False, s)
      | Inr (Some (certificate_path, private_key_id)) \<Rightarrow>
          (case Client_Initialize w (NodeTcpClient_new node_id address port platform shard_index
                  certificate_path private_key_id e) of
             (Inl ex, _) \<Rightarrow> (Inl ex, s)
           | (Inr False, _) \<Rightarrow> (Inr False, s)
           | (Inr True, client) \<Rightarrow> (Inr True,
               s\<lparr>co_nodes := co_nodes s @ [(node_id, SetDisconnectedCallback (SetConnectedCallback client))]\<rparr>)))"

definition put_client :: "string \<Rightarrow> node_client \<Rightarrow> 'f coordinator \<Rightarrow> 'f coordinator" where
  "put_client node_id client s =
     s\<lparr>co_nodes := map (\<lambda>(k, c). if k = node_id then (k, client) else (k, c)) (co_nodes s)\<rparr>"

text \<open>\<open>Disconnect\<close> returns (\<open>disconnect_completes\<close>), so the operations that call it do.\<close>

definition UnregisterNode :: "u64 \<Rightarrow> string \<Rightarrow> 'f coordinator \<Rightarrow> 'f coordinator option" where
  "UnregisterNode now node_id s =
     (case FindNodeClientInternal node_id s of
        None \<Rightarrow> Some s
      | Some client \<Rightarrow>
          (case Client_Disconnect now client of
             None \<Rightarrow> None
           | Some _ \<Rightarrow> Some (s\<lparr>co_nodes := filter (\<lambda>(k, c). k \<noteq> node_id) (co_nodes s)\<rparr>)))"

section \<open>Connections\<close>

definition ConnectToNode ::
  "string \<Rightarrow> (node_client \<Rightarrow> (bool \<times> node_client) option) \<Rightarrow> 'f coordinator \<Rightarrow> (bool \<times> 'f coordinator) option" where
  "ConnectToNode node_id connect s =
     (case FindNodeClientInternal node_id s of
        None \<Rightarrow> Some (False, s)
      | Some client \<Rightarrow>
          (case connect client of
             None \<Rightarrow> None
           | Some (ok, client') \<Rightarrow> Some (ok, put_client node_id client' s)))"

definition DisconnectFromNode :: "u64 \<Rightarrow> string \<Rightarrow> 'f coordinator \<Rightarrow> 'f coordinator option" where
  "DisconnectFromNode now node_id s =
     (case FindNodeClientInternal node_id s of
        None \<Rightarrow> Some s
      | Some client \<Rightarrow> map_option (\<lambda>client'. put_client node_id client' s) (Client_Disconnect now client))"

definition IsNodeConnected :: "string \<Rightarrow> 'f coordinator \<Rightarrow> bool" where
  "IsNodeConnected node_id s =
     (case FindNodeClientInternal node_id s of None \<Rightarrow> False | Some client \<Rightarrow> cl_connected client)"

fun disconnect_each :: "u64 \<Rightarrow> (string \<times> node_client) list \<Rightarrow> (string \<times> node_client) list option" where
  "disconnect_each now [] = Some []"
| "disconnect_each now ((k, c) # ncs) =
     (case Client_Disconnect now c of
        None \<Rightarrow> None
      | Some c' \<Rightarrow> map_option ((#) (k, c')) (disconnect_each now ncs))"

definition DisconnectAllNodes :: "u64 \<Rightarrow> 'f coordinator \<Rightarrow> 'f coordinator option" where
  "DisconnectAllNodes now s = map_option (\<lambda>ncs. s\<lparr>co_nodes := ncs\<rparr>) (disconnect_each now (co_nodes s))"

section \<open>Messages\<close>

text \<open>
  \<open>SendToNode\<close> with the client's \<open>SendRequest\<close> as a function of the client, which returns the
  client it leaves; and what the broadcast makes of one node's future: the 35 s may pass first,
  the task may throw.
\<close>

definition SendToNode ::
  "(node_client \<Rightarrow> (CoordinatorNodeMessage option \<times> node_client) option) \<Rightarrow> string \<Rightarrow> 'f coordinator
     \<Rightarrow> (CoordinatorNodeMessage option \<times> 'f coordinator) option" where
  "SendToNode send_request node_id s =
     (case FindNodeClientInternal node_id s of
        None \<Rightarrow> Some (None, s)
      | Some client \<Rightarrow>
          (case send_request client of
             None \<Rightarrow> None
           | Some (response, client') \<Rightarrow> Some (response, put_client node_id client' s)))"

datatype wait_result = Wait_timeout | Wait_throws | Wait_ready

definition signing_failed :: "CoordinatorNodeMessage \<Rightarrow> bool" where
  "signing_failed m =
     (case cm_payload m of
        Some (Signing_response r) \<Rightarrow> (case sr_header r of None \<Rightarrow> True | Some h \<Rightarrow> \<not> rs_success h)
      | _ \<Rightarrow> False)"

definition node_succeeded :: "wait_result \<Rightarrow> CoordinatorNodeMessage option \<Rightarrow> bool" where
  "node_succeeded waited response =
     (case waited of
        Wait_timeout \<Rightarrow> False
      | Wait_throws \<Rightarrow> False
      | Wait_ready \<Rightarrow> (case response of None \<Rightarrow> False | Some m \<Rightarrow> \<not> signing_failed m))"

fun collect_results :: "(wait_result \<times> CoordinatorNodeMessage option) list \<Rightarrow> bool \<Rightarrow> bool" where
  "collect_results [] all_success = all_success"
| "collect_results ((waited, response) # rest) all_success =
     collect_results rest (if node_succeeded waited response then all_success else False)"

text \<open>
  The asynchronous tasks of a broadcast, one per named node, each on the client of its own node:
  they run in threads of their own, and are listed here in the order of the names. The future of
  a task is destroyed only when the task has ended, so the broadcast returns when all have,
  however short it waits for their results.
\<close>

fun broadcast_tasks ::
  "(string \<Rightarrow> node_client \<Rightarrow> (CoordinatorNodeMessage option \<times> node_client) option) \<Rightarrow> string list
     \<Rightarrow> 'f coordinator \<Rightarrow> (CoordinatorNodeMessage option list \<times> 'f coordinator) option" where
  "broadcast_tasks send_request [] s = Some ([], s)"
| "broadcast_tasks send_request (n # ns) s =
     (case SendToNode (send_request n) n s of
        None \<Rightarrow> None
      | Some (response, s1) \<Rightarrow>
          map_option (\<lambda>(responses, s2). (response # responses, s2)) (broadcast_tasks send_request ns s1))"

definition BroadcastToNodes ::
  "(string \<Rightarrow> wait_result) \<Rightarrow> (string \<Rightarrow> node_client \<Rightarrow> (CoordinatorNodeMessage option \<times> node_client) option)
     \<Rightarrow> string list \<Rightarrow> 'f coordinator \<Rightarrow> (bool \<times> 'f coordinator) option" where
  "BroadcastToNodes waits send_request node_ids s =
     (if node_ids = [] then Some (True, s)
      else map_option (\<lambda>(responses, s'). (collect_results (zip (map waits node_ids) responses) True, s'))
             (broadcast_tasks send_request node_ids s))"

section \<open>Queries\<close>

definition GetConnectedNodeIds :: "'f coordinator \<Rightarrow> string list" where
  "GetConnectedNodeIds s = map fst (filter (\<lambda>(k, c). cl_connected c) (co_nodes s))"

definition GetReadyNodeIds :: "'f coordinator \<Rightarrow> string list" where
  "GetReadyNodeIds s = GetConnectedNodeIds s"

definition BroadcastToAllConnectedNodes ::
  "(string \<Rightarrow> wait_result) \<Rightarrow> (string \<Rightarrow> node_client \<Rightarrow> (CoordinatorNodeMessage option \<times> node_client) option)
     \<Rightarrow> 'f coordinator \<Rightarrow> (bool \<times> 'f coordinator) option" where
  "BroadcastToAllConnectedNodes waits send_request s =
     BroadcastToNodes waits send_request (GetConnectedNodeIds s) s"

definition GetAllNodeIds :: "'f coordinator \<Rightarrow> string list" where
  "GetAllNodeIds s = map fst (co_nodes s)"

definition GetNodeStatus :: "string \<Rightarrow> 'f coordinator \<Rightarrow> ConnectionStatus" where
  "GetNodeStatus node_id s =
     (case FindNodeClientInternal node_id s of None \<Rightarrow> DISCONNECTED | Some c \<Rightarrow> ci_status (cl_info c))"

definition GetConnectedNodeCount :: "'f coordinator \<Rightarrow> nat" where
  "GetConnectedNodeCount s = length (GetConnectedNodeIds s)"

definition GetTotalNodeCount :: "'f coordinator \<Rightarrow> nat" where
  "GetTotalNodeCount s = length (co_nodes s)"

definition GetNodeAddress :: "string \<Rightarrow> 'f coordinator \<Rightarrow> string" where
  "GetNodeAddress node_id s =
     (case FindNodeClientInternal node_id s of None \<Rightarrow> [] | Some c \<Rightarrow> ci_address (cl_info c))"

definition GetNodePlatform :: "string \<Rightarrow> 'f coordinator \<Rightarrow> PlatformType" where
  "GetNodePlatform node_id s =
     (case FindNodeClientInternal node_id s of None \<Rightarrow> UNKNOWN | Some c \<Rightarrow> ci_platform (cl_info c))"

definition GetNodeShardIndex :: "string \<Rightarrow> 'f coordinator \<Rightarrow> u32" where
  "GetNodeShardIndex node_id s =
     (case FindNodeClientInternal node_id s of None \<Rightarrow> 0 | Some c \<Rightarrow> ci_shard_index (cl_info c))"

definition GetNodeEndpoint :: "string \<Rightarrow> 'f coordinator \<Rightarrow> string" where
  "GetNodeEndpoint node_id s =
     (case FindNodeClientInternal node_id s of None \<Rightarrow> [] | Some c \<Rightarrow> GetEndpoint (cl_info c))"

definition nodes_where :: "(node_client \<Rightarrow> bool) \<Rightarrow> 'f coordinator \<Rightarrow> string list" where
  "nodes_where p s = map fst (filter (\<lambda>(k, c). p c) (co_nodes s))"

definition GetNodesByPlatform :: "PlatformType \<Rightarrow> 'f coordinator \<Rightarrow> string list" where
  "GetNodesByPlatform platform s = nodes_where (\<lambda>c. ci_platform (cl_info c) = platform) s"

definition GetNodesByStatus :: "ConnectionStatus \<Rightarrow> 'f coordinator \<Rightarrow> string list" where
  "GetNodesByStatus status s = nodes_where (\<lambda>c. ci_status (cl_info c) = status) s"

definition GetNodesByShardIndex :: "u32 \<Rightarrow> 'f coordinator \<Rightarrow> string list" where
  "GetNodesByShardIndex shard_index s = nodes_where (\<lambda>c. ci_shard_index (cl_info c) = shard_index) s"

record CoordinatorStats =
  cs_total_nodes :: u32
  cs_connected_nodes :: u32
  cs_ready_nodes :: u32
  cs_error_nodes :: u32
  cs_uptime_seconds :: u64
  cs_last_update_time :: u64

definition Coordinator_GetStats :: "u64 \<Rightarrow> u64 \<Rightarrow> 'f coordinator \<Rightarrow> CoordinatorStats" where
  "Coordinator_GetStats now1 now2 s =
     (let n = word_of_nat (length (filter (\<lambda>(k, c). cl_connected c) (co_nodes s))) in
      \<lparr>cs_total_nodes = word_of_nat (length (co_nodes s)), cs_connected_nodes = n, cs_ready_nodes = n,
       cs_error_nodes = 0, cs_uptime_seconds = (now1 - co_start_time s) div 1000, cs_last_update_time = now2\<rparr>)"

section \<open>The HTTPS server and the life cycle\<close>

definition https_config :: "env_manager \<Rightarrow> exn + HttpsServerConfig" where
  "https_config m =
     exn_bind (Manager_read GetString m ''COORDINATOR_HTTPS_BIND'') (\<lambda>bind_address.
     exn_bind (Manager_read GetUInt16 m ''COORDINATOR_HTTPS_PORT'') (\<lambda>bind_port.
     exn_bind (Manager_read GetUInt32 m ''COORDINATOR_HTTPS_MAX_CONNECTIONS'') (\<lambda>max_connections.
     exn_bind (Manager_read GetUInt32 m ''COORDINATOR_HTTPS_HANDLER_THREADS'') (\<lambda>handler_threads.
     exn_bind (Manager_read GetString m ''TLS_CERT_COORDINATOR_WALLET'') (\<lambda>tls_cert_path.
     exn_bind (Manager_read GetString m ''TLS_KMS_COORDINATOR_WALLET_KEY_ID'') (\<lambda>tls_key_id.
       Inr (HttpsServerConfig_default\<lparr>hc_bind_address := bind_address, hc_bind_port := bind_port,
         hc_max_connections := unat max_connections, hc_handler_threads := unat handler_threads,
         hc_tls_cert_path := tls_cert_path, hc_tls_key_id := tls_key_id\<rparr>)))))))"

text \<open>The server object is assigned before its initialisation, and stays when that fails.\<close>

definition InitializeHttpsServer ::
  "env_manager \<Rightarrow> (nat \<Rightarrow> u64) \<Rightarrow> ssl_operations \<Rightarrow> tls_material \<Rightarrow> exn + unit \<Rightarrow> 'f coordinator \<Rightarrow> bool \<times> 'f coordinator" where
  "InitializeHttpsServer m clock ops w listening s =
     (case https_config m of
        Inl _ \<Rightarrow> (False, s)
      | Inr cfg \<Rightarrow>
          (if hc_tls_cert_path cfg = [] \<or> hc_tls_key_id cfg = [] then (False, s)
           else case CoordinatorHttpsServer_new cfg of
             Inl _ \<Rightarrow> (False, s)
           | Inr h \<Rightarrow> (case Https_Initialize clock ops w listening h of
                         (ok, h') \<Rightarrow> (ok, s\<lparr>co_https := Some h'\<rparr>))))"

definition StartHttpsServer :: "nat \<Rightarrow> 'f coordinator \<Rightarrow> bool \<times> 'f coordinator" where
  "StartHttpsServer hw s =
     (case co_https s of
        None \<Rightarrow> (False, s)
      | Some h \<Rightarrow> (case Https_Start hw h of (ok, h') \<Rightarrow> (ok, s\<lparr>co_https := Some h'\<rparr>)))"

definition StopHttpsServer :: "'f coordinator \<Rightarrow> 'f coordinator" where
  "StopHttpsServer s = s\<lparr>co_https := map_option Https_Stop (co_https s)\<rparr>"

definition IsHttpsServerRunning :: "'f coordinator \<Rightarrow> bool" where
  "IsHttpsServerRunning s = (case co_https s of None \<Rightarrow> False | Some h \<Rightarrow> hv_running h)"

definition Coordinator_Initialize :: "'f coordinator \<Rightarrow> bool \<times> 'f coordinator" where
  "Coordinator_Initialize s = (if co_initialized s then (True, s) else (True, s\<lparr>co_initialized := True\<rparr>))"

definition Coordinator_Start :: "'f coordinator \<Rightarrow> bool \<times> 'f coordinator" where
  "Coordinator_Start s =
     (if \<not> co_initialized s \<or> co_running s then (False, s) else (True, s\<lparr>co_running := True\<rparr>))"

definition Coordinator_IsRunning :: "'f coordinator \<Rightarrow> bool" where
  "Coordinator_IsRunning s = co_running s"

definition Coordinator_Stop :: "u64 \<Rightarrow> 'f coordinator \<Rightarrow> 'f coordinator option" where
  "Coordinator_Stop now s =
     (if \<not> co_running s then Some s
      else DisconnectAllNodes now (StopHttpsServer (s\<lparr>co_running := False\<rparr>)))"

section \<open>The registry as a map\<close>

text \<open>The abstract registry: what is known of each node.\<close>

definition registry :: "'f coordinator \<Rightarrow> string \<rightharpoonup> string \<times> u16 \<times> PlatformType \<times> u32" where
  "registry s = (\<lambda>k. map_option node_info (map_of (co_nodes s) k))"

definition keys_distinct :: "'f coordinator \<Rightarrow> bool" where
  "keys_distinct s \<longleftrightarrow> distinct (map fst (co_nodes s))"

text \<open>
  The contract of a store with keys and a count over an abstract map: the keys are the map's
  domain, each once. The facts that the queries need follow from it.
\<close>

locale keyed_store =
  fixes entries :: "'s \<Rightarrow> 'k \<rightharpoonup> 'v" and keys :: "'s \<Rightarrow> 'k list" and wf :: "'s \<Rightarrow> bool"
  assumes keys_dom: "wf s \<Longrightarrow> set (keys s) = dom (entries s)"
    and keys_once: "wf s \<Longrightarrow> distinct (keys s)"
begin

lemma count: "wf s \<Longrightarrow> length (keys s) = card (dom (entries s))"
  using keys_dom keys_once by (metis distinct_card)

lemma finite_entries: "wf s \<Longrightarrow> finite (dom (entries s))"
  using keys_dom by (metis List.finite_set)

lemma member: "wf s \<Longrightarrow> k \<in> set (keys s) \<longleftrightarrow> entries s k \<noteq> None"
  using keys_dom by auto

end

interpretation node_store: keyed_store registry GetAllNodeIds keys_distinct
  by unfold_locales (auto simp: registry_def GetAllNodeIds_def keys_distinct_def dom_def
      dest: map_of_SomeD weak_map_of_SomeI image_eqI [of _ fst] intro: rev_image_eqI)

lemma registry_put:
  assumes "FindNodeClientInternal n s = Some c" and "node_info c' = node_info c"
  shows "registry (put_client n c' s) = registry s" "GetAllNodeIds (put_client n c' s) = GetAllNodeIds s"
proof -
  have "map_of (map (\<lambda>(k, c). if k = n then (k, c') else (k, c)) xs) k =
      (if k = n then map_option (\<lambda>_. c') (map_of xs k) else map_of xs k)" for xs k
    by (induction xs) auto
  then show "registry (put_client n c' s) = registry s"
    using assms by (auto simp: registry_def put_client_def FindNodeClientInternal_def)
  show "GetAllNodeIds (put_client n c' s) = GetAllNodeIds s"
    by (auto simp: GetAllNodeIds_def put_client_def split_def)
qed

lemma callbacks_keep:
  "node_info (SetDisconnectedCallback (SetConnectedCallback c)) = node_info c"
  "client_wf (SetDisconnectedCallback (SetConnectedCallback c)) \<longleftrightarrow> client_wf c"
  "threads_inv (SetDisconnectedCallback (SetConnectedCallback c)) \<longleftrightarrow> threads_inv c"
  by (simp_all add: SetDisconnectedCallback_def SetConnectedCallback_def node_info_def client_wf_def threads_inv_def)

lemma RegisterNode_cases:
  assumes "RegisterNode config w e n p a port sh s = (r, s')"
  obtains (refused) "r \<noteq> Inr True" "s' = s"
  | (registered) c where "r = Inr True" "n \<noteq> []" "a \<noteq> []" "port \<noteq> 0" "\<not> HasNode n s"
      "s' = s\<lparr>co_nodes := co_nodes s @ [(n, c)]\<rparr>" "node_info c = (a, port, p, sh)" "client_wf c" "threads_inv c"
proof -
  have new: "client_wf (NodeTcpClient_new n a port p sh cert key e)"
    "threads_inv (NodeTcpClient_new n a port p sh cert key e)" for cert key
    using client_wf_reachable threads_inv_reachable by blast+
  have init: "client_wf c \<and> threads_inv c \<and> node_info c = node_info c0"
    if "Client_Initialize w c0 = (x, c)" "client_wf c0" "threads_inv c0" for c0 x c
    using Client_Initialize_keeps [OF that(1,2)] client_step_threads [OF cs_initialize [OF that(1)] that(3)]
      Client_Initialize_info [OF that(1)] by simp
  show thesis
  proof (cases "r = Inr True")
    case True
    with assms obtain cert key c where "n \<noteq> []" "a \<noteq> []" "port \<noteq> 0" "\<not> HasNode n s"
      "Client_Initialize w (NodeTcpClient_new n a port p sh cert key e) = (Inr True, c)"
      "s' = s\<lparr>co_nodes := co_nodes s @ [(n, SetDisconnectedCallback (SetConnectedCallback c))]\<rparr>"
      by (auto simp: RegisterNode_def split: if_split_asm sum.splits option.splits prod.splits bool.splits)
    with True init [OF this(5) new] show thesis by (intro registered) (auto simp: callbacks_keep)
  next
    case False
    with assms have "s' = s"
      by (auto simp: RegisterNode_def split: if_split_asm sum.splits option.splits prod.splits bool.splits)
    with False show thesis by (rule refused)
  qed
qed

lemma disconnect_each_registry:
  "disconnect_each now ncs = Some ncs' \<Longrightarrow>
     map (\<lambda>(k, c). (k, node_info c)) ncs' = map (\<lambda>(k, c). (k, node_info c)) ncs"
proof (induction ncs arbitrary: ncs')
  case (Cons x xs)
  then show ?case by (cases x) (auto dest: Client_Disconnect_info split: option.splits)
qed simp

lemma registry_eq_map: "registry s = map_of (map (\<lambda>(k, c). (k, node_info c)) (co_nodes s))"
  by (simp add: registry_def map_of_map comp_def)

lemma DisconnectAll_registry:
  assumes "DisconnectAllNodes now s = Some t"
  shows "registry t = registry s" "GetAllNodeIds t = GetAllNodeIds s"
proof -
  obtain ncs where ncs: "disconnect_each now (co_nodes s) = Some ncs" "t = s\<lparr>co_nodes := ncs\<rparr>"
    using assms by (auto simp: DisconnectAllNodes_def)
  note m = disconnect_each_registry [OF ncs(1)]
  then show "registry t = registry s" by (simp add: registry_eq_map ncs(2))
  have "map fst (map (\<lambda>(k, c). (k, node_info c)) ncs) = map fst (map (\<lambda>(k, c). (k, node_info c)) (co_nodes s))"
    using m by (rule arg_cong)
  then show "GetAllNodeIds t = GetAllNodeIds s" by (simp add: GetAllNodeIds_def ncs(2) comp_def split_def)
qed

lemma Unregister_registry:
  assumes "UnregisterNode now n s = Some t" and "keys_distinct s"
  shows "registry t = (registry s)(n := None) \<and> keys_distinct t"
proof -
  have m: "map_of (filter (\<lambda>(k, c). k \<noteq> n) xs) = (map_of xs)(n := None)" for xs :: "(string \<times> node_client) list"
    by (induction xs) auto
  have d: "distinct (map fst xs) \<Longrightarrow> distinct (map fst (filter (\<lambda>(k, c). k \<noteq> n) xs))"
    for xs :: "(string \<times> node_client) list"
    by (rule distinct_map_filter)
  from assms show ?thesis
    by (auto simp: UnregisterNode_def FindNodeClientInternal_def registry_def keys_distinct_def m fun_eq_iff
        intro: d split: option.splits)
qed

text \<open>
  C9. The registry of nodes is a finite map from node ids to address, port, platform and shard:
  registering adds exactly the new node and only under an id that is free and with valid
  parameters, a refused registration changes nothing, unregistering removes exactly that node,
  connecting and disconnecting leave the map alone, and the queries answer from the map.
\<close>

theorem registry_refines_map:
  assumes "keys_distinct s"
  shows "(RegisterNode config w e n p a port sh s = (r, s1) \<longrightarrow>
        keys_distinct s1 \<and> registry s1 = (if r = Inr True then (registry s)(n \<mapsto> (a, port, p, sh)) else registry s)
        \<and> (r = Inr True \<longrightarrow> registry s n = None \<and> n \<noteq> [] \<and> a \<noteq> [] \<and> port \<noteq> 0))
    \<and> (UnregisterNode now n s = Some s2 \<longrightarrow> keys_distinct s2 \<and> registry s2 = (registry s)(n := None))
    \<and> (ConnectToNode n (Client_Connect k x y g created fd_ok sni_ok err_text now) s = Some (ok, s3) \<longrightarrow>
        keys_distinct s3 \<and> registry s3 = registry s)
    \<and> (DisconnectFromNode now n s = Some s4 \<longrightarrow> keys_distinct s4 \<and> registry s4 = registry s)
    \<and> (DisconnectAllNodes now s = Some s5 \<longrightarrow> keys_distinct s5 \<and> registry s5 = registry s)
    \<and> (HasNode n s \<longleftrightarrow> n \<in> dom (registry s)) \<and> set (GetAllNodeIds s) = dom (registry s)
    \<and> GetTotalNodeCount s = card (dom (registry s))
    \<and> GetNodeAddress n s = (case registry s n of None \<Rightarrow> [] | Some (a', _) \<Rightarrow> a')
    \<and> GetNodeShardIndex n s = (case registry s n of None \<Rightarrow> 0 | Some (_, _, _, sh') \<Rightarrow> sh')"
proof (intro conjI impI)
  assume "RegisterNode config w e n p a port sh s = (r, s1)"
  then have "keys_distinct s1 \<and> registry s1 = (if r = Inr True then (registry s)(n \<mapsto> (a, port, p, sh)) else registry s)
      \<and> (r = Inr True \<longrightarrow> registry s n = None \<and> n \<noteq> [] \<and> a \<noteq> [] \<and> port \<noteq> 0)"
    using assms
    by (cases rule: RegisterNode_cases)
      (auto simp: registry_def keys_distinct_def HasNode_def map_add_def fun_eq_iff map_of_eq_None_iff
        simp: image_iff Bex_def split: option.splits)
  then show "keys_distinct s1" and "registry s1 = (if r = Inr True then (registry s)(n \<mapsto> (a, port, p, sh)) else registry s)"
    and "r = Inr True \<Longrightarrow> registry s n = None" "r = Inr True \<Longrightarrow> n \<noteq> []" "r = Inr True \<Longrightarrow> a \<noteq> []"
      "r = Inr True \<Longrightarrow> port \<noteq> 0"
    by simp_all
next
  assume "UnregisterNode now n s = Some s2"
  then show "keys_distinct s2" "registry s2 = (registry s)(n := None)"
    using Unregister_registry assms by blast+
next
  assume "ConnectToNode n (Client_Connect k x y g created fd_ok sni_ok err_text now) s = Some (ok, s3)"
  then have "registry s3 = registry s \<and> GetAllNodeIds s3 = GetAllNodeIds s"
    using registry_put Client_Connect_info by (fastforce simp: ConnectToNode_def split: option.splits prod.splits)
  then show "keys_distinct s3" "registry s3 = registry s"
    using assms by (simp_all add: keys_distinct_def GetAllNodeIds_def)
next
  assume "DisconnectFromNode now n s = Some s4"
  then have "registry s4 = registry s \<and> GetAllNodeIds s4 = GetAllNodeIds s"
    using registry_put Client_Disconnect_info by (fastforce simp: DisconnectFromNode_def split: option.splits)
  then show "keys_distinct s4" "registry s4 = registry s"
    using assms by (simp_all add: keys_distinct_def GetAllNodeIds_def)
next
  assume "DisconnectAllNodes now s = Some s5"
  note d = DisconnectAll_registry [OF this]
  then show "registry s5 = registry s" "keys_distinct s5"
    using assms by (simp_all add: keys_distinct_def GetAllNodeIds_def)
next
  show "HasNode n s \<longleftrightarrow> n \<in> dom (registry s)"
    using node_store.member [OF assms] by (simp add: HasNode_def registry_def dom_def)
  show "set (GetAllNodeIds s) = dom (registry s)" by (rule node_store.keys_dom [OF assms])
  show "GetTotalNodeCount s = card (dom (registry s))"
    using node_store.count [OF assms] by (simp add: GetTotalNodeCount_def GetAllNodeIds_def)
  show "GetNodeAddress n s = (case registry s n of None \<Rightarrow> [] | Some (a', _) \<Rightarrow> a')"
    "GetNodeShardIndex n s = (case registry s n of None \<Rightarrow> 0 | Some (_, _, _, sh') \<Rightarrow> sh')"
    by (auto simp: GetNodeAddress_def GetNodeShardIndex_def FindNodeClientInternal_def registry_def node_info_def
        split: option.splits)
qed

definition demo_config :: env_manager where
  "demo_config = \<lparr>em_config = Some (EnvConfig_default\<lparr>ec_map := [''NODE_IDS'' \<mapsto> ''n0,n1'',
     ''TLS_CERT_PATHS'' \<mapsto> ''a.pem,b.pem'', ''TLS_KMS_NODES_COORDINATOR_KEY_IDS'' \<mapsto> ''k0,k1'']\<rparr>), em_initialized = True\<rparr>"

definition demo_register :: "string \<Rightarrow> unit coordinator \<Rightarrow> (exn + bool) \<times> unit coordinator" where
  "demo_register n s = RegisterNode demo_config demo_material idle_env n AWS ''10.0.0.7'' 9000 1 s"

theorem registry_refines_map_witness:
  "\<exists>s1 :: unit coordinator. demo_register ''n1'' (CoordinatorServer_new 0) = (Inr True, s1)
     \<and> registry s1 = [''n1'' \<mapsto> (''10.0.0.7'', 9000, AWS, 1)] \<and> GetTotalNodeCount s1 = 1"
proof -
  let ?s = "CoordinatorServer_new 0 :: unit coordinator"
  have r: "fst (demo_register ''n1'' ?s) = Inr True" by code_simp
  then obtain s1 where s1: "demo_register ''n1'' ?s = (Inr True, s1)" by (cases "demo_register ''n1'' ?s") auto
  have d: "keys_distinct ?s" and e: "registry ?s = Map.empty"
    by (simp_all add: keys_distinct_def CoordinatorServer_new_def registry_def)
  have "keys_distinct s1 \<and> registry s1 = [''n1'' \<mapsto> (''10.0.0.7'', 9000, AWS, 1)]"
    using registry_refines_map [OF d] s1 e unfolding demo_register_def by force
  moreover from this have "GetTotalNodeCount s1 = 1"
    using node_store.count [of s1] by (simp add: GetTotalNodeCount_def GetAllNodeIds_def)
  ultimately show ?thesis using s1 by blast
qed

section \<open>Broadcasts\<close>

lemma collect_results_iff:
  "collect_results xs b \<longleftrightarrow> b \<and> (\<forall>(w, x) \<in> set xs. node_succeeded w x)"
  by (induction xs b rule: collect_results.induct) auto

lemma map_of_put_client:
  "map_of (co_nodes (put_client n c' s)) k =
     (if k = n then map_option (\<lambda>_. c') (map_of (co_nodes s) k) else map_of (co_nodes s) k)"
proof -
  have "map_of (map (\<lambda>(k, c). if k = n then (k, c') else (k, c)) xs) k =
      (if k = n then map_option (\<lambda>_. c') (map_of xs k) else map_of xs k)" for xs
    by (induction xs) auto
  then show ?thesis by (simp add: put_client_def)
qed

text \<open>Tasks on different nodes do not meet: each sees the client as the broadcast found it.\<close>

definition task_result ::
  "(string \<Rightarrow> node_client \<Rightarrow> (CoordinatorNodeMessage option \<times> node_client) option) \<Rightarrow> 'f coordinator \<Rightarrow> string
     \<Rightarrow> CoordinatorNodeMessage option" where
  "task_result send s n = (case map_of (co_nodes s) n of None \<Rightarrow> None | Some c \<Rightarrow> fst (the (send n c)))"

lemma broadcast_tasks_distinct:
  assumes "distinct ns"
  shows "broadcast_tasks send ns s = None \<longleftrightarrow> (\<exists>n \<in> set ns. \<exists>c. map_of (co_nodes s) n = Some c \<and> send n c = None)" (is ?none)
    and "broadcast_tasks send ns s = Some (rs, s') \<Longrightarrow> rs = map (task_result send s) ns
      \<and> (\<forall>k. map_of (co_nodes s') k =
           (if k \<in> set ns then map_option (\<lambda>c. snd (the (send k c))) (map_of (co_nodes s) k) else map_of (co_nodes s) k))"
  using assms
proof (induction ns arbitrary: s rs s')
  case (Cons n ns)
  {
    case 1
    show ?case
    proof (cases "map_of (co_nodes s) n")
      case None
      with Cons 1 show ?thesis by (simp add: SendToNode_def FindNodeClientInternal_def)
    next
      case (Some c)
      have "map_of (co_nodes (put_client n c' s)) k = map_of (co_nodes s) k" if "k \<in> set ns" for k c'
        using that 1 by (auto simp: map_of_put_client)
      then have "broadcast_tasks send ns (put_client n c' s) = None \<longleftrightarrow>
          (\<exists>n \<in> set ns. \<exists>c. map_of (co_nodes s) n = Some c \<and> send n c = None)" for c'
        using Cons(1) [of "put_client n c' s"] 1 by simp
      with Some show ?thesis
        by (cases "send n c") (auto simp: SendToNode_def FindNodeClientInternal_def, blast+)
    qed
  next
    case 2
    show ?case
    proof (cases "map_of (co_nodes s) n")
      case None
      with Cons(2) 2 show ?thesis
        by (auto simp: SendToNode_def FindNodeClientInternal_def task_result_def)
    next
      case (Some c)
      with 2 obtain x c' where c': "send n c = Some (x, c')"
        by (auto simp: SendToNode_def FindNodeClientInternal_def split: option.splits)
      let ?t = "put_client n c' s"
      from 2(1) Some c' obtain rs2 where b: "broadcast_tasks send ns ?t = Some (rs2, s')" "rs = x # rs2"
        by (auto simp: SendToNode_def FindNodeClientInternal_def)
      have "task_result send ?t k = task_result send s k" if "k \<in> set ns" for k
        using that 2(2) by (auto simp: task_result_def map_of_put_client)
      with Cons(2) [OF b(1)] 2(2) b(2) Some c' show ?thesis
        by (auto simp: map_of_put_client task_result_def)
    qed
  }
qed simp_all

lemma broadcast_returns:
  "distinct ns \<Longrightarrow> BroadcastToNodes waits send ns s = None \<longleftrightarrow>
     (\<exists>n \<in> set ns. \<exists>c. map_of (co_nodes s) n = Some c \<and> send n c = None)"
  using broadcast_tasks_distinct(1) [of ns send s] by (simp add: BroadcastToNodes_def)

lemma broadcast_outcome:
  assumes "distinct ns" and "BroadcastToNodes waits send ns s = Some (ok, s')"
  shows "ok \<longleftrightarrow> (\<forall>n \<in> set ns. waits n = Wait_ready
      \<and> (\<exists>c m c'. map_of (co_nodes s) n = Some c \<and> send n c = Some (Some m, c') \<and> \<not> signing_failed m))" (is ?ok)
    and "map_of (co_nodes s') k =
      (if k \<in> set ns then map_option (\<lambda>c. snd (the (send k c))) (map_of (co_nodes s) k) else map_of (co_nodes s) k)" (is ?state)
proof -
  from assms(2) obtain rs where b: "broadcast_tasks send ns s = Some (rs, s')"
      "ok \<longleftrightarrow> collect_results (zip (map waits ns) rs) True"
    by (auto simp: BroadcastToNodes_def split: if_splits)
  note t = broadcast_tasks_distinct(2) [OF assms(1) b(1)]
  then show ?state by blast
  have total: "send n c \<noteq> None" if "n \<in> set ns" "map_of (co_nodes s) n = Some c" for n c
    using broadcast_returns [OF assms(1), of waits send s] assms(2) that by auto
  have "ok \<longleftrightarrow> (\<forall>n \<in> set ns. node_succeeded (waits n) (task_result send s n))"
    using b(2) t by (simp add: collect_results_iff zip_map_map zip_same_conv_map)
  moreover have "node_succeeded (waits n) (task_result send s n) \<longleftrightarrow> waits n = Wait_ready
      \<and> (\<exists>c m c'. map_of (co_nodes s) n = Some c \<and> send n c = Some (Some m, c') \<and> \<not> signing_failed m)"
    if "n \<in> set ns" for n
    using total [OF that]
    by (auto simp: node_succeeded_def task_result_def split: wait_result.splits option.splits)
  ultimately show ?ok by simp
qed

text \<open>
  C11. A broadcast to different nodes returns exactly when every call of a client returns; it
  succeeds exactly when every node it names is registered and answered in time with a message
  that is not a failed signing response, and it leaves every node alone that it does not name.
  Naming no node at all is a success, so a broadcast to all connected nodes succeeds when no
  node is connected.
\<close>

theorem broadcast_result:
  assumes "distinct ns"
  shows "(BroadcastToNodes waits send ns s = None \<longleftrightarrow>
        (\<exists>n \<in> set ns. \<exists>c. map_of (co_nodes s) n = Some c \<and> send n c = None))
    \<and> (BroadcastToNodes waits send ns s = Some (ok, s') \<longrightarrow>
        (ok \<longleftrightarrow> (\<forall>n \<in> set ns. waits n = Wait_ready
           \<and> (\<exists>c m c'. map_of (co_nodes s) n = Some c \<and> send n c = Some (Some m, c') \<and> \<not> signing_failed m)))
        \<and> (\<forall>k. map_of (co_nodes s') k =
             (if k \<in> set ns then map_option (\<lambda>c. snd (the (send k c))) (map_of (co_nodes s) k)
              else map_of (co_nodes s) k)))
    \<and> (GetConnectedNodeIds s = [] \<longrightarrow> BroadcastToAllConnectedNodes waits send s = Some (True, s))"
proof (intro conjI impI allI)
  show "GetConnectedNodeIds s = [] \<Longrightarrow> BroadcastToAllConnectedNodes waits send s = Some (True, s)"
    by (simp add: BroadcastToAllConnectedNodes_def BroadcastToNodes_def)
qed (rule broadcast_returns [OF assms] broadcast_outcome [OF assms], assumption?)+

theorem broadcast_result_witness:
  "\<exists>s' :: unit coordinator.
     BroadcastToNodes (\<lambda>_. Wait_ready) (\<lambda>_ c. Some (None, c)) [''n1'']
       (snd (demo_register ''n1'' (CoordinatorServer_new 0))) = Some (False, s')
   \<and> BroadcastToAllConnectedNodes (\<lambda>_. Wait_timeout) (\<lambda>_ _. None)
       (snd (demo_register ''n1'' (CoordinatorServer_new 0)) :: unit coordinator)
     = Some (True, snd (demo_register ''n1'' (CoordinatorServer_new 0)))"
proof -
  let ?s = "snd (demo_register ''n1'' (CoordinatorServer_new 0)) :: unit coordinator"
  let ?send = "\<lambda>(_ :: string) c :: node_client. Some (None :: CoordinatorNodeMessage option, c)"
  have "GetConnectedNodeIds ?s = []" by code_simp
  then have a: "BroadcastToAllConnectedNodes (\<lambda>_. Wait_timeout) (\<lambda>_ _. None) ?s = Some (True, ?s)"
    using broadcast_result [of "[]" "\<lambda>_. Wait_timeout" "\<lambda>_ _. None" ?s] by simp
  have "BroadcastToNodes (\<lambda>_. Wait_ready) ?send [''n1''] ?s \<noteq> None"
    using broadcast_result [of "[''n1'']" "\<lambda>_. Wait_ready" ?send ?s] by simp
  then obtain ok s' where b: "BroadcastToNodes (\<lambda>_. Wait_ready) ?send [''n1''] ?s = Some (ok, s')" by auto
  then have "\<not> ok" using broadcast_result [of "[''n1'']" "\<lambda>_. Wait_ready" ?send ?s ok s'] by simp
  with a b show ?thesis by auto
qed

section \<open>The coordinator in motion\<close>

inductive coordinator_step :: "'f coordinator \<Rightarrow> 'f coordinator \<Rightarrow> bool" where
  ks_initialize: "Coordinator_Initialize s = (r, s') \<Longrightarrow> coordinator_step s s'"
| ks_start: "Coordinator_Start s = (r, s') \<Longrightarrow> coordinator_step s s'"
| ks_stop: "Coordinator_Stop now s = Some s' \<Longrightarrow> coordinator_step s s'"
| ks_register: "RegisterNode config w e n p a port sh s = (x, s') \<Longrightarrow> coordinator_step s s'"
| ks_unregister: "UnregisterNode now n s = Some s' \<Longrightarrow> coordinator_step s s'"
| ks_disconnect: "DisconnectFromNode now n s = Some s' \<Longrightarrow> coordinator_step s s'"
| ks_client: "map_of (co_nodes s) n = Some c \<Longrightarrow> client_step c c' \<Longrightarrow> coordinator_step s (put_client n c' s)"
| ks_https_new: "InitializeHttpsServer m clock ops w listening s = (r, s') \<Longrightarrow> coordinator_step s s'"
| ks_https: "co_https s = Some h \<Longrightarrow> https_step h h' \<Longrightarrow> coordinator_step s (s\<lparr>co_https := Some h'\<rparr>)"

inductive_cases coordinator_stepE: "coordinator_step s s'"

definition clients_inv :: "(string \<times> node_client) list \<Rightarrow> bool" where
  "clients_inv ncs \<longleftrightarrow> (\<forall>(k, c) \<in> set ncs. client_wf c \<and> threads_inv c)"

lemma disconnect_each_total:
  "clients_inv ncs \<Longrightarrow> \<exists>ncs'. disconnect_each now ncs = Some ncs' \<and> clients_inv ncs'
     \<and> (\<forall>(k, c) \<in> set ncs'. \<not> cl_connected c)"
proof (induction ncs)
  case Nil
  then show ?case by (simp add: clients_inv_def)
next
  case (Cons x ncs)
  obtain k c where x: "x = (k, c)" by (cases x)
  from Cons.prems have c: "client_wf c" "threads_inv c" and rest: "clients_inv ncs"
    by (auto simp: clients_inv_def x)
  obtain c' where c': "Client_Disconnect now c = Some c'" "\<not> cl_connected c'"
    using Client_Disconnect_total [OF c, of now] by blast
  have "client_wf c' \<and> threads_inv c'" by (rule client_steps_inv [OF Client_Disconnect_steps [OF c'(1)] c])
  with Cons.IH [OF rest] c' show ?case by (auto simp: x clients_inv_def)
qed

lemma clients_inv_put: "clients_inv (co_nodes s) \<Longrightarrow> client_wf c \<Longrightarrow> threads_inv c \<Longrightarrow> clients_inv (co_nodes (put_client n c s))"
  by (auto simp: clients_inv_def put_client_def split: if_split_asm)

lemma clients_inv_find: "clients_inv (co_nodes s) \<Longrightarrow> map_of (co_nodes s) n = Some c \<Longrightarrow> client_wf c \<and> threads_inv c"
  by (auto simp: clients_inv_def dest!: map_of_SomeD)

lemma Coordinator_Stop_total:
  assumes "clients_inv (co_nodes s)" and "co_running s"
  shows "\<exists>s'. Coordinator_Stop now s = Some s' \<and> \<not> co_running s' \<and> GetConnectedNodeIds s' = []
     \<and> \<not> IsHttpsServerRunning s' \<and> clients_inv (co_nodes s')"
proof -
  let ?t = "StopHttpsServer (s\<lparr>co_running := False\<rparr>)"
  obtain ncs where ncs: "disconnect_each now (co_nodes s) = Some ncs" "clients_inv ncs"
    "\<forall>(k, c) \<in> set ncs. \<not> cl_connected c"
    using disconnect_each_total [OF assms(1), of now] by blast
  have h: "\<not> IsHttpsServerRunning ?t"
    by (auto simp: IsHttpsServerRunning_def StopHttpsServer_def Https_Stop_def split: option.splits)
  have "Coordinator_Stop now s = Some (?t\<lparr>co_nodes := ncs\<rparr>)"
    using ncs(1) assms(2) by (simp add: Coordinator_Stop_def DisconnectAllNodes_def StopHttpsServer_def)
  with ncs h show ?thesis
    by (auto simp: GetConnectedNodeIds_def IsHttpsServerRunning_def StopHttpsServer_def filter_empty_conv)
qed

lemma coordinator_step_inv: "coordinator_step s s' \<Longrightarrow> clients_inv (co_nodes s) \<Longrightarrow> clients_inv (co_nodes s')"
proof (induction rule: coordinator_step.induct)
  case (ks_stop now s s')
  then show ?case
    using Coordinator_Stop_total [of s now] by (cases "co_running s") (auto simp: Coordinator_Stop_def)
next
  case (ks_register config w e n p a port sh s x s')
  from ks_register(1) show ?case
    by (cases rule: RegisterNode_cases) (use ks_register(2) in \<open>auto simp: clients_inv_def\<close>)
next
  case (ks_unregister now n s s')
  then show ?case by (auto simp: UnregisterNode_def clients_inv_def split: option.splits)
next
  case (ks_disconnect now n s s')
  then show ?case
    using client_steps_inv [OF Client_Disconnect_steps] clients_inv_find clients_inv_put
    by (fastforce simp: DisconnectFromNode_def FindNodeClientInternal_def split: option.splits)
next
  case (ks_client s n c c')
  then show ?case
    using client_steps_inv [OF r_into_rtranclp [of client_step]] clients_inv_find clients_inv_put by blast
qed (auto simp: Coordinator_Initialize_def Coordinator_Start_def InitializeHttpsServer_def
    split: if_split_asm sum.splits prod.splits)



end
