(* ===== verification/Tls_Context.thy ===== *)
theory Tls_Context
  imports Tls_Material
begin

text \<open>
  \<open>TlsContext\<close> (\<open>TlsContext.hpp\<close>, \<open>TlsContext.cpp\<close>): the owner of one OpenSSL context, from
  \<open>Initialize\<close> through the certificates it is given to the connections it creates. OpenSSL is
  not part of the repository: it is the argument \<open>ssl\<close>, which answers every call from the
  calls made so far and says what a PEM text holds; the model keeps the log of all calls, so
  that what was set on a context, and when, can be read from it.
\<close>

section \<open>The configuration\<close>

datatype TlsMode = CLIENT | SERVER
datatype TlsVersion = TLS_1_2 | TLS_1_3

record CertificateData =
  certificate_pem :: string
  private_key_pem :: string
  ca_chain_pem :: string

definition CertificateData_IsValid :: "CertificateData \<Rightarrow> bool" where
  "CertificateData_IsValid d \<longleftrightarrow> certificate_pem d \<noteq> [] \<and> private_key_pem d \<noteq> []"

record TlsConfig =
  tcf_mode :: TlsMode
  tcf_min_version :: TlsVersion
  tcf_cipher_list :: string
  tcf_cipher_suites :: string
  tcf_enable_session_cache :: bool
  tcf_verify_depth :: int

definition TlsConfig_default :: TlsConfig where
  "TlsConfig_default =
     \<lparr>tcf_mode = CLIENT, tcf_min_version = TLS_1_2, tcf_cipher_list = [], tcf_cipher_suites = [],
      tcf_enable_session_cache = True, tcf_verify_depth = 10\<rparr>"

definition STRONG_TLS_1_2 :: string where
  "STRONG_TLS_1_2 =
     ''ECDHE-ECDSA-AES256-GCM-SHA384:'' @ ''ECDHE-RSA-AES256-GCM-SHA384:'' @
     ''ECDHE-ECDSA-AES128-GCM-SHA256:'' @ ''ECDHE-RSA-AES128-GCM-SHA256''"

definition STRONG_TLS_1_3 :: string where
  "STRONG_TLS_1_3 =
     ''TLS_AES_256_GCM_SHA384:'' @ ''TLS_AES_128_GCM_SHA256:'' @ ''TLS_CHACHA20_POLY1305_SHA256''"

definition CreateSecureClientConfig :: TlsConfig where
  "CreateSecureClientConfig =
     TlsConfig_default\<lparr>tcf_mode := CLIENT, tcf_min_version := TLS_1_2,
       tcf_cipher_list := STRONG_TLS_1_2, tcf_cipher_suites := STRONG_TLS_1_3\<rparr>"

definition CreateSecureServerConfig :: TlsConfig where
  "CreateSecureServerConfig =
     TlsConfig_default\<lparr>tcf_mode := SERVER, tcf_min_version := TLS_1_2,
       tcf_cipher_list := STRONG_TLS_1_2, tcf_cipher_suites := STRONG_TLS_1_3\<rparr>"

section \<open>OpenSSL\<close>

text \<open>
  The calls, each with the context it is made on. A context is named by the length of the log
  when it was created, so no two are named alike. \<open>Bio_new\<close> is \<open>BIO_new_mem_buf\<close> on a text
  and \<open>Get_cert_store\<close> the lookup of the trust store to which \<open>Store_add\<close> adds.
\<close>

datatype ssl_call =
    Library_init | Load_error_strings | Add_all_algorithms | Evp_cleanup | Err_free_strings
  | Ctx_new nat TlsMode
  | Ctx_free nat
  | Set_min_version nat TlsVersion
  | Set_cipher_list nat string
  | Set_ciphersuites nat string
  | Set_verify nat int
  | Set_verify_depth nat int
  | Set_cache_server nat
  | Use_certificate nat string
  | Use_private_key nat string
  | Check_private_key nat
  | Bio_new string
  | Get_cert_store nat
  | Store_add nat string
  | Ssl_new nat

type_synonym ssl_log = "(ssl_call \<times> bool) list"

record openssl =
  ssl_answer :: "ssl_log \<Rightarrow> ssl_call \<Rightarrow> bool"
  pem_certificates :: "string \<Rightarrow> string list"
  pem_private_key :: "string \<Rightarrow> string option"

definition invoke :: "openssl \<Rightarrow> ssl_call \<Rightarrow> ssl_log \<Rightarrow> bool \<times> ssl_log" where
  "invoke ssl c log = (let r = ssl_answer ssl log c in (r, (c, r) # log))"

definition perform :: "ssl_call \<Rightarrow> ssl_log \<Rightarrow> ssl_log" where
  "perform c log = (c, True) # log"

text \<open>\<open>SSL_VERIFY_PEER\<close> and \<open>SSL_VERIFY_FAIL_IF_NO_PEER_CERT\<close>, the flags of \<open>SSL_CTX_set_verify\<close>.\<close>

definition SSL_VERIFY_PEER :: int where "SSL_VERIFY_PEER = 1"
definition SSL_VERIFY_FAIL_IF_NO_PEER_CERT :: int where "SSL_VERIFY_FAIL_IF_NO_PEER_CERT = 2"

section \<open>The context\<close>

record TlsContext =
  tcx_ctx :: "nat option"
  tcx_config :: TlsConfig
  tcx_is_initialized :: bool
  tcx_has_certificate :: bool
  tcx_has_ca :: bool

definition TlsContext_default :: TlsContext where
  "TlsContext_default =
     \<lparr>tcx_ctx = None, tcx_config = TlsConfig_default, tcx_is_initialized = False,
      tcx_has_certificate = False, tcx_has_ca = False\<rparr>"

text \<open>The destructor and the moves; \<open>cfg\<close> is the configuration that a move leaves behind.\<close>

definition free_ctx :: "nat option \<Rightarrow> ssl_log \<Rightarrow> ssl_log" where
  "free_ctx h log = (case h of None \<Rightarrow> log | Some c \<Rightarrow> perform (Ctx_free c) log)"

definition TlsContext_destroy :: "TlsContext \<Rightarrow> ssl_log \<Rightarrow> TlsContext \<times> ssl_log" where
  "TlsContext_destroy t log = (t\<lparr>tcx_ctx := None\<rparr>, free_ctx (tcx_ctx t) log)"

definition moved_from :: "TlsConfig \<Rightarrow> TlsContext \<Rightarrow> TlsContext" where
  "moved_from cfg other =
     other\<lparr>tcx_ctx := None, tcx_config := cfg, tcx_is_initialized := False,
       tcx_has_certificate := False, tcx_has_ca := False\<rparr>"

definition TlsContext_move :: "TlsConfig \<Rightarrow> TlsContext \<Rightarrow> TlsContext \<times> TlsContext" where
  "TlsContext_move cfg other =
     (\<lparr>tcx_ctx = tcx_ctx other, tcx_config = tcx_config other,
       tcx_is_initialized = tcx_is_initialized other,
       tcx_has_certificate = tcx_has_certificate other, tcx_has_ca = tcx_has_ca other\<rparr>,
      moved_from cfg other)"

definition TlsContext_move_assign ::
  "TlsConfig \<Rightarrow> TlsContext \<Rightarrow> TlsContext \<Rightarrow> ssl_log \<Rightarrow> TlsContext \<times> TlsContext \<times> ssl_log" where
  "TlsContext_move_assign cfg this other log =
     (let log = free_ctx (tcx_ctx this) log;
          this = this\<lparr>tcx_ctx := tcx_ctx other, tcx_config := tcx_config other,
                   tcx_is_initialized := tcx_is_initialized other,
                   tcx_has_certificate := tcx_has_certificate other,
                   tcx_has_ca := tcx_has_ca other\<rparr>
      in (this, moved_from cfg other, log))"

section \<open>Initialisation\<close>

definition InitializeClientContext :: "openssl \<Rightarrow> TlsContext \<Rightarrow> ssl_log \<Rightarrow> bool \<times> TlsContext \<times> ssl_log" where
  "InitializeClientContext ssl t log =
     (let h = length log; (ok, log) = invoke ssl (Ctx_new h CLIENT) log
      in if ok then (True, t\<lparr>tcx_ctx := Some h\<rparr>, log) else (False, t\<lparr>tcx_ctx := None\<rparr>, log))"

definition InitializeServerContext :: "openssl \<Rightarrow> TlsContext \<Rightarrow> ssl_log \<Rightarrow> bool \<times> TlsContext \<times> ssl_log" where
  "InitializeServerContext ssl t log =
     (let h = length log; (ok, log) = invoke ssl (Ctx_new h SERVER) log
      in if ok then (True, t\<lparr>tcx_ctx := Some h\<rparr>, log) else (False, t\<lparr>tcx_ctx := None\<rparr>, log))"

definition SetTlsVersion :: "openssl \<Rightarrow> nat \<Rightarrow> TlsConfig \<Rightarrow> ssl_log \<Rightarrow> bool \<times> ssl_log" where
  "SetTlsVersion ssl h cfg log =
     (let min_version = (if tcf_min_version cfg = TLS_1_3 then TLS_1_3 else TLS_1_2)
      in invoke ssl (Set_min_version h min_version) log)"

definition SetCipherList :: "openssl \<Rightarrow> nat \<Rightarrow> TlsConfig \<Rightarrow> ssl_log \<Rightarrow> bool \<times> ssl_log" where
  "SetCipherList ssl h cfg log =
     (let (ok, log) = (if tcf_cipher_list cfg \<noteq> [] then invoke ssl (Set_cipher_list h (tcf_cipher_list cfg)) log
                       else (True, log))
      in if \<not> ok then (False, log)
         else if tcf_cipher_suites cfg \<noteq> [] then invoke ssl (Set_ciphersuites h (tcf_cipher_suites cfg)) log
         else (True, log))"

definition verify_flags :: "TlsConfig \<Rightarrow> int" where
  "verify_flags cfg =
     (if tcf_mode cfg = SERVER then SSL_VERIFY_PEER OR SSL_VERIFY_FAIL_IF_NO_PEER_CERT
      else SSL_VERIFY_PEER)"

definition ConfigureVerification :: "nat \<Rightarrow> TlsConfig \<Rightarrow> ssl_log \<Rightarrow> bool \<times> ssl_log" where
  "ConfigureVerification h cfg log =
     (True, perform (Set_verify_depth h (tcf_verify_depth cfg)) (perform (Set_verify h (verify_flags cfg)) log))"

definition ConfigureSessionCache :: "nat \<Rightarrow> ssl_log \<Rightarrow> bool \<times> ssl_log" where
  "ConfigureSessionCache h log = (True, perform (Set_cache_server h) log)"

text \<open>The steps after the creation of the context, in order, the first failure ending them.\<close>

definition configure_ctx :: "openssl \<Rightarrow> nat \<Rightarrow> TlsConfig \<Rightarrow> ssl_log \<Rightarrow> bool \<times> ssl_log" where
  "configure_ctx ssl h cfg log =
     (let (ok, log) = SetTlsVersion ssl h cfg log
      in if \<not> ok then (False, log) else
      let (ok, log) = SetCipherList ssl h cfg log
      in if \<not> ok then (False, log) else
      let (ok, log) = ConfigureVerification h cfg log
      in if \<not> ok then (False, log)
         else if tcf_enable_session_cache cfg then ConfigureSessionCache h log
         else (True, log))"

definition Ctx_Initialize :: "openssl \<Rightarrow> TlsConfig \<Rightarrow> TlsContext \<Rightarrow> ssl_log \<Rightarrow> bool \<times> TlsContext \<times> ssl_log" where
  "Ctx_Initialize ssl cfg t log =
     (if tcx_is_initialized t then (False, t, log)
      else
        let t = t\<lparr>tcx_config := cfg\<rparr>;
            (success, t, log) = (if tcf_mode cfg = CLIENT then InitializeClientContext ssl t log
                                 else InitializeServerContext ssl t log)
        in case tcx_ctx t of
             None \<Rightarrow> (False, t, log)
           | Some h \<Rightarrow>
               if \<not> success then (False, t, log)
               else let (ok, log) = configure_ctx ssl h cfg log
                    in if \<not> ok then (False, t\<lparr>tcx_ctx := None\<rparr>, perform (Ctx_free h) log)
                       else (True, t\<lparr>tcx_is_initialized := True\<rparr>, log))"

section \<open>Certificates\<close>

text \<open>
  The certificate is the first one of the text; the reference the caller holds is dropped after
  \<open>use\<close>, so the context keeps its own.
\<close>

definition LoadCertificateFromMemory :: "openssl \<Rightarrow> nat \<Rightarrow> string \<Rightarrow> ssl_log \<Rightarrow> bool \<times> ssl_log" where
  "LoadCertificateFromMemory ssl h cert_pem log =
     (let (bio, log) = invoke ssl (Bio_new cert_pem) log
      in if \<not> bio then (False, log)
         else case pem_certificates ssl cert_pem of
                [] \<Rightarrow> (False, log)
              | cert # _ \<Rightarrow> invoke ssl (Use_certificate h cert) log)"

definition LoadPrivateKeyFromMemory :: "openssl \<Rightarrow> nat \<Rightarrow> string \<Rightarrow> ssl_log \<Rightarrow> bool \<times> ssl_log" where
  "LoadPrivateKeyFromMemory ssl h key_pem log =
     (let (bio, log) = invoke ssl (Bio_new key_pem) log
      in if \<not> bio then (False, log)
         else case pem_private_key ssl key_pem of
                None \<Rightarrow> (False, log)
              | Some pkey \<Rightarrow> invoke ssl (Use_private_key h pkey) log)"

text \<open>The loop over the certificates of a CA text, counting those that the store accepts.\<close>

fun add_certificates :: "openssl \<Rightarrow> nat \<Rightarrow> string list \<Rightarrow> nat \<Rightarrow> ssl_log \<Rightarrow> nat \<times> ssl_log" where
  "add_certificates ssl h [] count log = (count, log)"
| "add_certificates ssl h (c # cs) count log =
     (let (ok, log) = invoke ssl (Store_add h c) log
      in add_certificates ssl h cs (if ok then count + 1 else count) log)"

definition LoadCAFromMemory :: "openssl \<Rightarrow> nat \<Rightarrow> string \<Rightarrow> ssl_log \<Rightarrow> bool \<times> ssl_log" where
  "LoadCAFromMemory ssl h ca_pem log =
     (let (bio, log) = invoke ssl (Bio_new ca_pem) log
      in if \<not> bio then (False, log) else
      let (store, log) = invoke ssl (Get_cert_store h) log
      in if \<not> store then (False, log) else
      let (count, log) = add_certificates ssl h (pem_certificates ssl ca_pem) 0 log
      in (count \<noteq> 0, log))"

text \<open>
  The public operations. \<open>tcx_ctx\<close> is not null once the object is initialised; the null case of
  the model stands for the call on a null context that the code would then make.
\<close>

definition LoadCertificate ::
  "openssl \<Rightarrow> CertificateData \<Rightarrow> TlsContext \<Rightarrow> ssl_log \<Rightarrow> (bool \<times> TlsContext \<times> ssl_log) option" where
  "LoadCertificate ssl cert_data t log =
     (if \<not> tcx_is_initialized t then Some (False, t, log)
      else if \<not> CertificateData_IsValid cert_data then Some (False, t, log)
      else case tcx_ctx t of
        None \<Rightarrow> None
      | Some h \<Rightarrow> Some (
          let (ok, log) = LoadCertificateFromMemory ssl h (certificate_pem cert_data) log
          in if \<not> ok then (False, t, log) else
          let (ok, log) = LoadPrivateKeyFromMemory ssl h (private_key_pem cert_data) log
          in if \<not> ok then (False, t, log) else
          let (ok, log) = invoke ssl (Check_private_key h) log
          in if \<not> ok then (False, t, log) else
          let log = (if ca_chain_pem cert_data \<noteq> []
                     then snd (LoadCAFromMemory ssl h (ca_chain_pem cert_data) log) else log)
          in (True, t\<lparr>tcx_has_certificate := True\<rparr>, log)))"

definition LoadCA ::
  "openssl \<Rightarrow> string \<Rightarrow> TlsContext \<Rightarrow> ssl_log \<Rightarrow> (bool \<times> TlsContext \<times> ssl_log) option" where
  "LoadCA ssl ca_pem t log =
     (if \<not> tcx_is_initialized t then Some (False, t, log)
      else if ca_pem = [] then Some (False, t, log)
      else case tcx_ctx t of
        None \<Rightarrow> None
      | Some h \<Rightarrow> Some (
          let (ok, log) = LoadCAFromMemory ssl h ca_pem log
          in if \<not> ok then (False, t, log) else (True, t\<lparr>tcx_has_ca := True\<rparr>, log)))"

fun load_ca_each :: "openssl \<Rightarrow> nat \<Rightarrow> string list \<Rightarrow> ssl_log \<Rightarrow> bool \<times> ssl_log" where
  "load_ca_each ssl h [] log = (True, log)"
| "load_ca_each ssl h (ca # cas) log =
     (let (ok, log) = LoadCAFromMemory ssl h ca log
      in if \<not> ok then (False, log) else load_ca_each ssl h cas log)"

definition LoadCAChain ::
  "openssl \<Rightarrow> string list \<Rightarrow> TlsContext \<Rightarrow> ssl_log \<Rightarrow> (bool \<times> TlsContext \<times> ssl_log) option" where
  "LoadCAChain ssl ca_chain t log =
     (if \<not> tcx_is_initialized t then Some (False, t, log)
      else case tcx_ctx t of
        None \<Rightarrow> None
      | Some h \<Rightarrow> Some (
          let (ok, log) = load_ca_each ssl h ca_chain log
          in if \<not> ok then (False, t, log) else (True, t\<lparr>tcx_has_ca := True\<rparr>, log)))"

definition CreateSSL :: "openssl \<Rightarrow> TlsContext \<Rightarrow> ssl_log \<Rightarrow> bool \<times> ssl_log" where
  "CreateSSL ssl t log =
     (case tcx_ctx t of
        None \<Rightarrow> (False, log)
      | Some h \<Rightarrow>
          if \<not> tcx_is_initialized t then (False, log)
          else if tcf_mode (tcx_config t) = SERVER \<and> \<not> tcx_has_certificate t then (False, log)
          else if \<not> tcx_has_ca t then (False, log)
          else invoke ssl (Ssl_new h) log)"

text \<open>The remaining members.\<close>

definition IsInitialized :: "TlsContext \<Rightarrow> bool" where "IsInitialized t = tcx_is_initialized t"
definition HasCertificate :: "TlsContext \<Rightarrow> bool" where "HasCertificate t = tcx_has_certificate t"
definition HasCA :: "TlsContext \<Rightarrow> bool" where "HasCA t = tcx_has_ca t"
definition GetContext :: "TlsContext \<Rightarrow> nat option" where "GetContext t = tcx_ctx t"
definition TlsContext_GetConfig :: "TlsContext \<Rightarrow> TlsConfig" where "TlsContext_GetConfig t = tcx_config t"

text \<open>\<open>ERR_error_string_n\<close> writes at most 255 characters of the text and its end mark.\<close>

definition GetLastError :: "string \<Rightarrow> string" where
  "GetLastError error_text = take 255 (takeWhile (\<lambda>c. c \<noteq> CHR 0x00) error_text)"

definition GlobalInit :: "ssl_log \<Rightarrow> ssl_log" where
  "GlobalInit log = perform Add_all_algorithms (perform Load_error_strings (perform Library_init log))"

definition GlobalCleanup :: "ssl_log \<Rightarrow> ssl_log" where
  "GlobalCleanup log = perform Err_free_strings (perform Evp_cleanup log)"

text \<open>The verdict of OpenSSL is handed back as it is: the callback only prints.\<close>

definition VerifyCallback :: "int \<Rightarrow> int" where
  "VerifyCallback preverify_ok = preverify_ok"

section \<open>Programs\<close>

text \<open>
  A program works on numbered objects. A step on an object that does not exist, or that would
  construct one that does, is not a program step and changes nothing. A null dereference ends
  the run with \<open>None\<close>.
\<close>

datatype ctx_op =
    Op_construct nat
  | Op_destroy nat
  | Op_move TlsConfig nat nat
  | Op_move_assign TlsConfig nat nat
  | Op_initialize nat TlsConfig
  | Op_load_certificate nat CertificateData
  | Op_load_ca nat string
  | Op_load_ca_chain nat "string list"
  | Op_create_ssl nat

type_synonym ctx_world = "(nat \<rightharpoonup> TlsContext) \<times> ssl_log"

definition on_object ::
  "nat \<Rightarrow> (TlsContext \<Rightarrow> ssl_log \<Rightarrow> (bool \<times> TlsContext \<times> ssl_log) option) \<Rightarrow> ctx_world \<Rightarrow> ctx_world option" where
  "on_object i f w =
     (case fst w i of
        None \<Rightarrow> Some w
      | Some t \<Rightarrow> (case f t (snd w) of
                    None \<Rightarrow> None
                  | Some (_, t', log) \<Rightarrow> Some ((fst w)(i \<mapsto> t'), log)))"

fun ctx_step :: "openssl \<Rightarrow> ctx_op \<Rightarrow> ctx_world \<Rightarrow> ctx_world option" where
  "ctx_step ssl (Op_construct i) w =
     (case fst w i of None \<Rightarrow> Some ((fst w)(i \<mapsto> TlsContext_default), snd w) | Some _ \<Rightarrow> Some w)"
| "ctx_step ssl (Op_destroy i) w =
     (case fst w i of
        None \<Rightarrow> Some w
      | Some t \<Rightarrow> Some ((fst w)(i := None), snd (TlsContext_destroy t (snd w))))"
| "ctx_step ssl (Op_move cfg i j) w =
     (case (fst w i, fst w j) of
        (None, Some other) \<Rightarrow>
          let (t, other') = TlsContext_move cfg other in Some ((fst w)(i \<mapsto> t, j \<mapsto> other'), snd w)
      | _ \<Rightarrow> Some w)"
| "ctx_step ssl (Op_move_assign cfg i j) w =
     (case (fst w i, fst w j) of
        (Some this, Some other) \<Rightarrow>
          if i = j then Some w
          else let (t, other', log) = TlsContext_move_assign cfg this other (snd w)
               in Some ((fst w)(i \<mapsto> t, j \<mapsto> other'), log)
      | _ \<Rightarrow> Some w)"
| "ctx_step ssl (Op_initialize i cfg) w = on_object i (\<lambda>t log. Some (Ctx_Initialize ssl cfg t log)) w"
| "ctx_step ssl (Op_load_certificate i d) w = on_object i (LoadCertificate ssl d) w"
| "ctx_step ssl (Op_load_ca i pem) w = on_object i (LoadCA ssl pem) w"
| "ctx_step ssl (Op_load_ca_chain i chain) w = on_object i (LoadCAChain ssl chain) w"
| "ctx_step ssl (Op_create_ssl i) w =
     on_object i (\<lambda>t log. let (ok, log) = CreateSSL ssl t log in Some (ok, t, log)) w"

fun ctx_run :: "openssl \<Rightarrow> ctx_op list \<Rightarrow> ctx_world \<Rightarrow> ctx_world option" where
  "ctx_run ssl [] w = Some w"
| "ctx_run ssl (op # ops) w =
     (case ctx_step ssl op w of None \<Rightarrow> None | Some w' \<Rightarrow> ctx_run ssl ops w')"

section \<open>The contract on the log\<close>

text \<open>
  \<open>live\<close>: the context was created and has not been freed. \<open>secured\<close>: what a context must have
  been given before a connection is created on it; \<open>e\<close> lifts the demand for an accepted CA.
  \<open>admissible\<close> says which call may follow which log: no call on a context that does not exist
  any more, the peer is always verified, and a client's certificate is demanded by a server.
\<close>

definition live :: "ssl_log \<Rightarrow> nat \<Rightarrow> bool" where
  "live log h \<longleftrightarrow> (\<exists>m. (Ctx_new h m, True) \<in> set log) \<and> (Ctx_free h, True) \<notin> set log"

definition mode_flags :: "TlsMode \<Rightarrow> int" where
  "mode_flags m = (if m = SERVER then 3 else 1)"

definition has_identity :: "ssl_log \<Rightarrow> nat \<Rightarrow> bool" where
  "has_identity log h \<longleftrightarrow>
     (\<exists>cert key. (Use_certificate h cert, True) \<in> set log \<and> (Use_private_key h key, True) \<in> set log \<and>
        (Check_private_key h, True) \<in> set log)"

definition trusts_someone :: "ssl_log \<Rightarrow> nat \<Rightarrow> bool" where
  "trusts_someone log h \<longleftrightarrow> (\<exists>cert. (Store_add h cert, True) \<in> set log)"

definition configured :: "ssl_log \<Rightarrow> nat \<Rightarrow> TlsMode \<Rightarrow> bool" where
  "configured log h m \<longleftrightarrow>
     (Ctx_new h m, True) \<in> set log \<and> (\<exists>v. (Set_min_version h v, True) \<in> set log) \<and>
     (Set_verify h (mode_flags m), True) \<in> set log"

definition secured :: "bool \<Rightarrow> ssl_log \<Rightarrow> nat \<Rightarrow> bool" where
  "secured e log h \<longleftrightarrow>
     (\<exists>m. configured log h m \<and> (m = SERVER \<longrightarrow> has_identity log h)) \<and> (e \<or> trusts_someone log h)"

fun admissible :: "bool \<Rightarrow> ssl_log \<Rightarrow> ssl_call \<Rightarrow> bool" where
  "admissible e log (Ctx_new h m) \<longleftrightarrow> h = length log"
| "admissible e log (Set_verify h f) \<longleftrightarrow> live log h \<and> (\<exists>m. (Ctx_new h m, True) \<in> set log \<and> f = mode_flags m)"
| "admissible e log (Ssl_new h) \<longleftrightarrow> live log h \<and> secured e log h"
| "admissible e log (Ctx_free h) \<longleftrightarrow> live log h"
| "admissible e log (Set_min_version h v) \<longleftrightarrow> live log h"
| "admissible e log (Set_cipher_list h s) \<longleftrightarrow> live log h"
| "admissible e log (Set_ciphersuites h s) \<longleftrightarrow> live log h"
| "admissible e log (Set_verify_depth h d) \<longleftrightarrow> live log h"
| "admissible e log (Set_cache_server h) \<longleftrightarrow> live log h"
| "admissible e log (Use_certificate h s) \<longleftrightarrow> live log h"
| "admissible e log (Use_private_key h s) \<longleftrightarrow> live log h"
| "admissible e log (Check_private_key h) \<longleftrightarrow> live log h"
| "admissible e log (Get_cert_store h) \<longleftrightarrow> live log h"
| "admissible e log (Store_add h s) \<longleftrightarrow> live log h"
| "admissible e log _ \<longleftrightarrow> True"

fun log_safe :: "bool \<Rightarrow> ssl_log \<Rightarrow> bool" where
  "log_safe e [] \<longleftrightarrow> True"
| "log_safe e ((c, r) # log) \<longleftrightarrow> admissible e log c \<and> log_safe e log"

lemma verify_flags_mode: "verify_flags cfg = mode_flags (tcf_mode cfg)"
  by (simp add: verify_flags_def mode_flags_def SSL_VERIFY_PEER_def SSL_VERIFY_FAIL_IF_NO_PEER_CERT_def)

text \<open>Contexts are named apart: every name in a safe log is below its length.\<close>

lemma Ctx_new_below: "log_safe e log \<Longrightarrow> (Ctx_new h m, r) \<in> set log \<Longrightarrow> h < length log"
  by (induction log) (auto simp: less_Suc_eq)

lemma Ctx_free_below: "log_safe e log \<Longrightarrow> (Ctx_free h, r) \<in> set log \<Longrightarrow> h < length log"
proof (induction log)
  case (Cons x log)
  obtain c r' where x: "x = (c, r')" by (cases x)
  show ?case
  proof (cases "(Ctx_free h, r) = (c, r')")
    case True
    with Cons.prems x have "live log h" and "log_safe e log" by auto
    then show ?thesis using Ctx_new_below less_SucI by (fastforce simp: live_def)
  next
    case False
    with Cons.prems x have "(Ctx_free h, r) \<in> set log" and "log_safe e log" by auto
    with Cons.IH show ?thesis by simp
  qed
qed simp

lemma live_below: "log_safe e log \<Longrightarrow> live log h \<Longrightarrow> h < length log"
  by (auto simp: live_def dest: Ctx_new_below)

text \<open>The ordinary calls on one context, and what a run of them keeps and adds.\<close>

fun use_of :: "nat \<Rightarrow> ssl_call \<Rightarrow> bool" where
  "use_of h (Set_min_version k v) \<longleftrightarrow> k = h"
| "use_of h (Set_cipher_list k s) \<longleftrightarrow> k = h"
| "use_of h (Set_ciphersuites k s) \<longleftrightarrow> k = h"
| "use_of h (Set_verify_depth k d) \<longleftrightarrow> k = h"
| "use_of h (Set_cache_server k) \<longleftrightarrow> k = h"
| "use_of h (Use_certificate k s) \<longleftrightarrow> k = h"
| "use_of h (Use_private_key k s) \<longleftrightarrow> k = h"
| "use_of h (Check_private_key k) \<longleftrightarrow> k = h"
| "use_of h (Get_cert_store k) \<longleftrightarrow> k = h"
| "use_of h (Store_add k s) \<longleftrightarrow> k = h"
| "use_of h (Bio_new s) \<longleftrightarrow> True"
| "use_of h _ \<longleftrightarrow> False"

inductive uses :: "nat \<Rightarrow> ssl_log \<Rightarrow> ssl_log \<Rightarrow> bool" where
  uses_refl: "uses h log log"
| uses_call: "uses h log log' \<Longrightarrow> use_of h c \<Longrightarrow> uses h log ((c, r) # log')"

lemma uses_trans: "uses h log' log'' \<Longrightarrow> uses h log log' \<Longrightarrow> uses h log log''"
  by (induction rule: uses.induct) (auto intro: uses.intros)

lemma use_of_admissible: "use_of h c \<Longrightarrow> live log h \<Longrightarrow> admissible e log c"
  by (cases c) auto

lemma use_of_live: "use_of h c \<Longrightarrow> live ((c, r) # log) k = live log k"
  by (cases c) (auto simp: live_def)

lemma uses_live: "uses h log log' \<Longrightarrow> live log' k = live log k"
  by (induction rule: uses.induct) (auto simp: use_of_live)

lemma uses_safe: "uses h log log' \<Longrightarrow> live log h \<Longrightarrow> log_safe e log \<Longrightarrow> log_safe e log'"
  by (induction rule: uses.induct) (auto simp: use_of_admissible uses_live)

lemma uses_subset: "uses h log log' \<Longrightarrow> set log \<subseteq> set log'"
  by (induction rule: uses.induct) auto

text \<open>The facts about a context only grow with the log.\<close>

lemma log_facts_mono:
  assumes "set log \<subseteq> set log'"
  shows configured_mono: "configured log h m \<Longrightarrow> configured log' h m"
    and has_identity_mono: "has_identity log h \<Longrightarrow> has_identity log' h"
    and trusts_someone_mono: "trusts_someone log h \<Longrightarrow> trusts_someone log' h"
  using assms unfolding configured_def has_identity_def trusts_someone_def by blast+

lemma invoke_eq: "invoke ssl c log = (ok, log') \<longleftrightarrow> ok = ssl_answer ssl log c \<and> log' = (c, ok) # log"
  by (auto simp: invoke_def Let_def)

lemma invoke_uses: "invoke ssl c log = (ok, log') \<Longrightarrow> use_of h c \<Longrightarrow> uses h log log'"
  by (auto simp: invoke_eq intro: uses.intros)

lemma invoke_in: "invoke ssl c log = (True, log') \<Longrightarrow> (c, True) \<in> set log'"
  by (auto simp: invoke_eq)

lemma LoadCertificateFromMemory_uses:
  "LoadCertificateFromMemory ssl h pem log = (ok, log') \<Longrightarrow> uses h log log'"
  by (auto simp: LoadCertificateFromMemory_def invoke_eq Let_def intro!: uses.intros
        split: if_splits list.splits prod.splits)

lemma LoadCertificateFromMemory_True:
  "LoadCertificateFromMemory ssl h pem log = (True, log') \<Longrightarrow> \<exists>cert. (Use_certificate h cert, True) \<in> set log'"
  by (auto simp: LoadCertificateFromMemory_def invoke_eq split: if_splits list.splits prod.splits)

lemma LoadPrivateKeyFromMemory_uses:
  "LoadPrivateKeyFromMemory ssl h pem log = (ok, log') \<Longrightarrow> uses h log log'"
  by (auto simp: LoadPrivateKeyFromMemory_def invoke_eq Let_def intro!: uses.intros
        split: if_splits option.splits prod.splits)

lemma LoadPrivateKeyFromMemory_True:
  "LoadPrivateKeyFromMemory ssl h pem log = (True, log') \<Longrightarrow> \<exists>key. (Use_private_key h key, True) \<in> set log'"
  by (auto simp: LoadPrivateKeyFromMemory_def invoke_eq split: if_splits option.splits prod.splits)

lemma add_certificates_uses: "add_certificates ssl h cs n log = (n', log') \<Longrightarrow> uses h log log'"
proof (induction cs arbitrary: n log)
  case (Cons c cs)
  obtain ok log1 where i: "invoke ssl (Store_add h c) log = (ok, log1)" by fastforce
  with Cons.prems have "uses h log1 log'" by (auto intro: Cons.IH)
  moreover from i have "uses h log log1" by (rule invoke_uses) simp
  ultimately show ?case by (rule uses_trans)
qed (auto intro: uses.intros)

lemma add_certificates_count:
  "add_certificates ssl h cs n log = (n', log') \<Longrightarrow> n < n' \<Longrightarrow> trusts_someone log' h"
proof (induction cs arbitrary: n log)
  case (Cons c cs)
  obtain ok log1 where i: "invoke ssl (Store_add h c) log = (ok, log1)" by fastforce
  with Cons.prems have r: "add_certificates ssl h cs (if ok then n + 1 else n) log1 = (n', log')" by simp
  show ?case
  proof (cases ok)
    case True
    from i True have "trusts_someone log1 h" by (auto simp: trusts_someone_def dest!: invoke_in)
    then show ?thesis
      using uses_subset [OF add_certificates_uses [OF r]] by (rule trusts_someone_mono [rotated])
  next
    case False
    then show ?thesis using Cons.IH [OF r] Cons.prems(2) by simp
  qed
qed simp

lemma LoadCAFromMemory_facts:
  assumes "LoadCAFromMemory ssl h pem log = (ok, log')"
  shows "uses h log log' \<and> (ok \<longrightarrow> trusts_someone log' h)"
proof -
  obtain bio log1 where b: "invoke ssl (Bio_new pem) log = (bio, log1)" by fastforce
  then have u1: "uses h log log1" by (rule invoke_uses) simp
  obtain store log2 where g: "invoke ssl (Get_cert_store h) log1 = (store, log2)" by fastforce
  then have u2: "uses h log1 log2" by (rule invoke_uses) simp
  obtain n log3 where a: "add_certificates ssl h (pem_certificates ssl pem) 0 log2 = (n, log3)" by fastforce
  note u3 = add_certificates_uses [OF a]
  have "uses h log log2" using u2 u1 by (rule uses_trans)
  moreover from u3 this have "uses h log log3" by (rule uses_trans)
  moreover have "n \<noteq> 0 \<Longrightarrow> trusts_someone log3 h" using add_certificates_count [OF a] by simp
  ultimately show ?thesis
    using assms b g a u1 by (auto simp: LoadCAFromMemory_def split: if_splits)
qed

lemmas LoadCAFromMemory_uses = LoadCAFromMemory_facts [THEN conjunct1]

lemma LoadCAFromMemory_True: "LoadCAFromMemory ssl h pem log = (True, log') \<Longrightarrow> trusts_someone log' h"
  using LoadCAFromMemory_facts by blast

lemma load_ca_each_uses: "load_ca_each ssl h cas log = (ok, log') \<Longrightarrow> uses h log log'"
proof (induction cas arbitrary: log)
  case (Cons c cas)
  obtain ok1 log1 where l: "LoadCAFromMemory ssl h c log = (ok1, log1)" by fastforce
  note u = LoadCAFromMemory_uses [OF l]
  with l Cons.prems show ?case
    by (cases ok1) (auto intro: uses_trans [OF Cons.IH u])
qed (auto intro: uses.intros)

lemma load_ca_each_True:
  assumes "load_ca_each ssl h cas log = (True, log')" and "cas \<noteq> []"
  shows "trusts_someone log' h"
proof -
  obtain c cs where cas: "cas = c # cs" using assms(2) by (cases cas) auto
  obtain ok1 log1 where l: "LoadCAFromMemory ssl h c log = (ok1, log1)" by fastforce
  with assms(1) cas have ok: "ok1" and r: "load_ca_each ssl h cs log1 = (True, log')"
    by (auto split: if_splits)
  from LoadCAFromMemory_facts [OF l] ok have "trusts_someone log1 h" by simp
  then show ?thesis using uses_subset [OF load_ca_each_uses [OF r]] by (rule trusts_someone_mono [rotated])
qed

section \<open>The invariant\<close>

text \<open>
  An object either has no context and is not initialised, or owns a live, configured context of
  its mode; its flags say what the context was given. No two objects own the same context, and
  every live context is owned.
\<close>

definition ctx_object_ok :: "bool \<Rightarrow> ssl_log \<Rightarrow> TlsContext \<Rightarrow> bool" where
  "ctx_object_ok e log t \<longleftrightarrow>
     (case tcx_ctx t of
        None \<Rightarrow> \<not> tcx_is_initialized t \<and> \<not> tcx_has_certificate t \<and> \<not> tcx_has_ca t
      | Some h \<Rightarrow> tcx_is_initialized t \<and> live log h \<and> configured log h (tcf_mode (tcx_config t)) \<and>
          (tcx_has_certificate t \<longrightarrow> has_identity log h) \<and>
          (tcx_has_ca t \<longrightarrow> e \<or> trusts_someone log h))"

definition owned_once :: "(nat \<rightharpoonup> TlsContext) \<Rightarrow> bool" where
  "owned_once objs \<longleftrightarrow>
     (\<forall>i j a b h. objs i = Some a \<longrightarrow> objs j = Some b \<longrightarrow> tcx_ctx a = Some h \<longrightarrow> tcx_ctx b = Some h \<longrightarrow> i = j)"

definition nothing_leaks :: "(nat \<rightharpoonup> TlsContext) \<Rightarrow> ssl_log \<Rightarrow> bool" where
  "nothing_leaks objs log \<longleftrightarrow> (\<forall>h. live log h \<longrightarrow> (\<exists>i t. objs i = Some t \<and> tcx_ctx t = Some h))"

definition ctx_inv :: "bool \<Rightarrow> ctx_world \<Rightarrow> bool" where
  "ctx_inv e w \<longleftrightarrow>
     log_safe e (snd w) \<and> (\<forall>i t. fst w i = Some t \<longrightarrow> ctx_object_ok e (snd w) t) \<and>
     owned_once (fst w) \<and> nothing_leaks (fst w) (snd w)"

text \<open>What a step of one object owes to the others.\<close>

definition ctx_op_ok :: "bool \<Rightarrow> TlsContext \<Rightarrow> ssl_log \<Rightarrow> TlsContext \<Rightarrow> ssl_log \<Rightarrow> bool" where
  "ctx_op_ok e t log t' log' \<longleftrightarrow>
     log_safe e log' \<and> set log \<subseteq> set log' \<and> ctx_object_ok e log' t' \<and>
     (\<forall>k. live log' k \<longleftrightarrow> live log k \<or> tcx_ctx t' = Some k) \<and>
     (\<forall>k. tcx_ctx t = Some k \<longrightarrow> tcx_ctx t' = Some k) \<and>
     (\<forall>k. tcx_ctx t' = Some k \<longrightarrow> tcx_ctx t = Some k \<or> \<not> live log k)"

lemma ctx_object_ok_Some:
  "tcx_ctx t = Some h \<Longrightarrow> ctx_object_ok e log t \<longleftrightarrow>
     tcx_is_initialized t \<and> live log h \<and> configured log h (tcf_mode (tcx_config t)) \<and>
     (tcx_has_certificate t \<longrightarrow> has_identity log h) \<and> (tcx_has_ca t \<longrightarrow> e \<or> trusts_someone log h)"
  by (simp add: ctx_object_ok_def)

lemma ctx_object_ok_initialized:
  "ctx_object_ok e log t \<Longrightarrow> tcx_is_initialized t \<Longrightarrow> \<exists>h. tcx_ctx t = Some h"
  by (auto simp: ctx_object_ok_def split: option.splits)

lemma ctx_object_ok_mono:
  assumes "ctx_object_ok e log t" and "set log \<subseteq> set log'" and "\<And>h. tcx_ctx t = Some h \<Longrightarrow> live log' h"
  shows "ctx_object_ok e log' t"
  using assms log_facts_mono [OF assms(2)]
  by (auto simp: ctx_object_ok_def split: option.splits)

lemma ctx_op_refl: "log_safe e log \<Longrightarrow> ctx_object_ok e log t \<Longrightarrow> ctx_op_ok e t log t log"
  by (auto simp: ctx_op_ok_def ctx_object_ok_def split: option.splits)

lemma ctx_inv_objectD: "ctx_inv e w \<Longrightarrow> fst w i = Some t \<Longrightarrow> ctx_object_ok e (snd w) t"
  and ctx_inv_safeD: "ctx_inv e w \<Longrightarrow> log_safe e (snd w)"
  and ctx_inv_ownedD: "ctx_inv e w \<Longrightarrow> owned_once (fst w)"
  and ctx_inv_leakD: "ctx_inv e w \<Longrightarrow> nothing_leaks (fst w) (snd w)"
  by (auto simp: ctx_inv_def)

lemma ctx_inv_live: "ctx_inv e w \<Longrightarrow> fst w i = Some t \<Longrightarrow> tcx_ctx t = Some h \<Longrightarrow> live (snd w) h"
  by (drule (1) ctx_inv_objectD) (simp add: ctx_object_ok_Some)

lemma ctx_op_frame:
  assumes inv: "ctx_inv e w" and i: "fst w i = Some t" and ok: "ctx_op_ok e t (snd w) t' log'"
  shows "ctx_inv e ((fst w)(i \<mapsto> t'), log')"
proof -
  have live': "\<And>k. live log' k \<longleftrightarrow> live (snd w) k \<or> tcx_ctx t' = Some k"
    and kept: "\<And>k. tcx_ctx t = Some k \<Longrightarrow> tcx_ctx t' = Some k"
    and fresh: "\<And>k. tcx_ctx t' = Some k \<Longrightarrow> tcx_ctx t = Some k \<or> \<not> live (snd w) k"
    and sub: "set (snd w) \<subseteq> set log'" and t': "ctx_object_ok e log' t'" and safe: "log_safe e log'"
    using ok by (auto simp: ctx_op_ok_def)
  have "ctx_object_ok e log' a" if "((fst w)(i \<mapsto> t')) j = Some a" for j a
  proof (cases "j = i")
    case False
    with that have j: "fst w j = Some a" by simp
    show ?thesis
      by (rule ctx_object_ok_mono [OF ctx_inv_objectD [OF inv j] sub])
        (simp add: live' ctx_inv_live [OF inv j])
  qed (use that t' in simp)
  moreover have "owned_once ((fst w)(i \<mapsto> t'))"
    unfolding owned_once_def
  proof (intro allI impI)
    fix j k a b h
    assume a: "((fst w)(i \<mapsto> t')) j = Some a" "tcx_ctx a = Some h"
      and b: "((fst w)(i \<mapsto> t')) k = Some b" "tcx_ctx b = Some h"
    have other: "i = l" if "fst w l = Some c" "tcx_ctx c = Some h" "tcx_ctx t' = Some h" for l c
    proof -
      from that(1,2) have "live (snd w) h" by (rule ctx_inv_live [OF inv])
      with fresh that(3) have "tcx_ctx t = Some h" by blast
      with i that(1,2) ctx_inv_ownedD [OF inv] show ?thesis by (auto simp: owned_once_def)
    qed
    show "j = k"
      using a b other [of k b] other [of j a] ctx_inv_ownedD [OF inv]
      by (auto simp: owned_once_def split: if_splits)
  qed
  moreover have "nothing_leaks ((fst w)(i \<mapsto> t')) log'"
    unfolding nothing_leaks_def
  proof (intro allI impI)
    fix h assume "live log' h"
    then consider "tcx_ctx t' = Some h" | "live (snd w) h" by (auto simp: live')
    then show "\<exists>j a. ((fst w)(i \<mapsto> t')) j = Some a \<and> tcx_ctx a = Some h"
    proof cases
      case 2
      with ctx_inv_leakD [OF inv] obtain j a where "fst w j = Some a" "tcx_ctx a = Some h"
        by (auto simp: nothing_leaks_def)
      with i kept show ?thesis by (cases "j = i") auto
    qed auto
  qed
  ultimately show ?thesis using safe by (simp add: ctx_inv_def)
qed

text \<open>The operations that only use the context.\<close>

lemma uses_op_ok:
  assumes u: "uses h log log'" and t: "tcx_ctx t = Some h" "ctx_object_ok e log t" and s: "log_safe e log"
    and t': "tcx_ctx t' = tcx_ctx t" "tcx_config t' = tcx_config t" "tcx_is_initialized t'"
    and cert: "tcx_has_certificate t' \<Longrightarrow> tcx_has_certificate t \<or> has_identity log' h"
    and ca: "tcx_has_ca t' \<Longrightarrow> tcx_has_ca t \<or> e \<or> trusts_someone log' h"
  shows "ctx_op_ok e t log t' log'"
proof -
  from t have ok: "live log h" "configured log h (tcf_mode (tcx_config t))"
    "tcx_has_certificate t \<longrightarrow> has_identity log h" "tcx_has_ca t \<longrightarrow> e \<or> trusts_someone log h"
    by (simp_all add: ctx_object_ok_Some)
  note sub = uses_subset [OF u]
  have "ctx_object_ok e log' t'"
    using ok t(1) t' cert ca log_facts_mono [OF sub]
    by (auto simp: ctx_object_ok_def uses_live [OF u])
  moreover have "log_safe e log'" by (rule uses_safe [OF u ok(1) s])
  ultimately show ?thesis
    using sub t(1) t'(1) ok(1) by (simp add: ctx_op_ok_def uses_live [OF u]) blast
qed

lemma LoadCertificate_ok:
  assumes f: "LoadCertificate ssl d t log = Some (ok, t', log')"
    and t: "ctx_object_ok e log t" and s: "log_safe e log"
  shows "ctx_op_ok e t log t' log'"
proof (cases "tcx_is_initialized t \<and> CertificateData_IsValid d")
  case False
  with f have "t' = t" "log' = log" by (auto simp: LoadCertificate_def split: if_splits)
  with s t show ?thesis by (simp add: ctx_op_refl)
next
  case True
  with t obtain h where h: "tcx_ctx t = Some h" by (auto dest: ctx_object_ok_initialized)
  obtain ok1 log1 where c: "LoadCertificateFromMemory ssl h (certificate_pem d) log = (ok1, log1)" by fastforce
  obtain ok2 log2 where k: "LoadPrivateKeyFromMemory ssl h (private_key_pem d) log1 = (ok2, log2)" by fastforce
  obtain ok3 log3 where x: "invoke ssl (Check_private_key h) log2 = (ok3, log3)" by fastforce
  obtain ok4 log4 where a: "LoadCAFromMemory ssl h (ca_chain_pem d) log3 = (ok4, log4)" by fastforce
  note u1 = LoadCertificateFromMemory_uses [OF c]
  note u2 = uses_trans [OF LoadPrivateKeyFromMemory_uses [OF k] u1]
  have x': "uses h log2 log3" using x by (rule invoke_uses) simp
  note u3 = uses_trans [OF x' u2]
  note u4 = uses_trans [OF LoadCAFromMemory_uses [OF a] u3]
  have id: "has_identity log3 h" if "ok1" "ok2" "ok3"
  proof -
    from c that obtain cert where "(Use_certificate h cert, True) \<in> set log1"
      by (auto dest: LoadCertificateFromMemory_True)
    moreover from k that obtain key where "(Use_private_key h key, True) \<in> set log2"
      by (auto dest: LoadPrivateKeyFromMemory_True)
    moreover from x that have "(Check_private_key h, True) \<in> set log3" by (auto dest: invoke_in)
    ultimately show ?thesis
      using uses_subset [OF LoadPrivateKeyFromMemory_uses [OF k]] uses_subset [OF x']
      unfolding has_identity_def by blast
  qed
  then have id4: "has_identity log4 h" if "ok1" "ok2" "ok3"
    using has_identity_mono uses_subset [OF LoadCAFromMemory_uses [OF a]] that by blast
  have quiet: "ctx_op_ok e t log t log''" if "uses h log log''" for log''
    by (rule uses_op_ok [OF that h t s]) (use True in auto)
  have loud: "ctx_op_ok e t log (t\<lparr>tcx_has_certificate := True\<rparr>) log''"
    if "uses h log log''" "has_identity log'' h" for log''
    by (rule uses_op_ok [OF that(1) h t s]) (use True that(2) in auto)
  show ?thesis
  proof (cases "ok1 \<and> ok2 \<and> ok3")
    case True
    with f \<open>tcx_is_initialized t \<and> _\<close> h c k x a
    have "t' = t\<lparr>tcx_has_certificate := True\<rparr>" "log' = log3 \<or> log' = log4"
      by (auto simp: LoadCertificate_def split: if_splits)
    with True id id4 loud [OF u3] loud [OF u4] show ?thesis by auto
  next
    case False
    with f \<open>tcx_is_initialized t \<and> _\<close> h c k x
    have "t' = t" "log' = log1 \<or> log' = log2 \<or> log' = log3"
      by (auto simp: LoadCertificate_def split: if_splits)
    with quiet [OF u1] quiet [OF u2] quiet [OF u3] show ?thesis by auto
  qed
qed

lemma load_ca_ok:
  assumes u: "uses h log log'" and h: "tcx_ctx t = Some h" and t: "ctx_object_ok e log t"
    and s: "log_safe e log" and ca: "ok \<Longrightarrow> e \<or> trusts_someone log' h"
    and t': "t' = (if ok then t\<lparr>tcx_has_ca := True\<rparr> else t)"
  shows "ctx_op_ok e t log t' log'"
proof -
  have i: "tcx_is_initialized t" using t h by (simp add: ctx_object_ok_Some)
  show ?thesis
    by (rule uses_op_ok [OF u h t s]) (use t' ca i in \<open>auto split: if_splits\<close>)
qed

lemma LoadCA_ok:
  assumes f: "LoadCA ssl pem t log = Some (ok, t', log')"
    and t: "ctx_object_ok e log t" and s: "log_safe e log"
  shows "ctx_op_ok e t log t' log'"
proof (cases "tcx_is_initialized t \<and> pem \<noteq> []")
  case False
  with f have "t' = t" "log' = log" by (auto simp: LoadCA_def split: if_splits)
  with s t show ?thesis by (simp add: ctx_op_refl)
next
  case True
  with t obtain h where h: "tcx_ctx t = Some h" by (auto dest: ctx_object_ok_initialized)
  obtain ok1 log1 where a: "LoadCAFromMemory ssl h pem log = (ok1, log1)" by fastforce
  with f True h have "log' = log1" "t' = (if ok1 then t\<lparr>tcx_has_ca := True\<rparr> else t)"
    by (auto simp: LoadCA_def split: if_splits)
  with LoadCAFromMemory_facts [OF a] show ?thesis
    by (intro load_ca_ok [where ok = ok1, OF _ h t s]) simp_all
qed

lemma LoadCAChain_ok:
  assumes f: "LoadCAChain ssl chain t log = Some (ok, t', log')"
    and t: "ctx_object_ok e log t" and s: "log_safe e log" and chain: "chain = [] \<Longrightarrow> e"
  shows "ctx_op_ok e t log t' log'"
proof (cases "tcx_is_initialized t")
  case False
  with f have "t' = t" "log' = log" by (auto simp: LoadCAChain_def split: if_splits)
  with s t show ?thesis by (simp add: ctx_op_refl)
next
  case True
  with t obtain h where h: "tcx_ctx t = Some h" by (auto dest: ctx_object_ok_initialized)
  obtain ok1 log1 where a: "load_ca_each ssl h chain log = (ok1, log1)" by fastforce
  with f True h have log': "log' = log1" and t': "t' = (if ok1 then t\<lparr>tcx_has_ca := True\<rparr> else t)"
    by (auto simp: LoadCAChain_def split: if_splits)
  have "ok1 \<Longrightarrow> e \<or> trusts_someone log' h"
    using load_ca_each_True [of ssl h chain log log1] a chain log' by auto
  with load_ca_each_uses [OF a] log' t' show ?thesis
    by (intro load_ca_ok [where ok = ok1, OF _ h t s]) simp_all
qed

lemma CreateSSL_ok:
  assumes f: "CreateSSL ssl t log = (ok, log')" and t: "ctx_object_ok e log t" and s: "log_safe e log"
  shows "ctx_op_ok e t log t log'"
proof (cases "log' = log")
  case True
  with s t show ?thesis by (simp add: ctx_op_refl)
next
  case False
  with f obtain h where h: "tcx_ctx t = Some h" "log' = (Ssl_new h, ok) # log" "tcx_has_ca t"
    "tcf_mode (tcx_config t) = SERVER \<longrightarrow> tcx_has_certificate t"
    by (auto simp: CreateSSL_def invoke_eq split: option.splits if_splits)
  with t have "live log h \<and> secured e log h"
    by (auto simp: ctx_object_ok_Some secured_def)
  moreover have "\<And>k. live log' k = live log k" by (simp add: h live_def)
  moreover from this h(2) t have "ctx_object_ok e log' t"
    by (intro ctx_object_ok_mono [OF t]) (auto simp: ctx_object_ok_Some)
  ultimately show ?thesis
    using h s by (auto simp: ctx_op_ok_def)
qed

lemma Ctx_new_fresh:
  assumes "log_safe e log"
  shows "\<not> live log (length log)" and "live ((Ctx_new (length log) m, True) # log) k \<longleftrightarrow> live log k \<or> k = length log"
proof -
  show "\<not> live log (length log)" using live_below [OF assms] by blast
  have "(Ctx_free (length log), True) \<notin> set log" using Ctx_free_below [OF assms] by blast
  then show "live ((Ctx_new (length log) m, True) # log) k \<longleftrightarrow> live log k \<or> k = length log"
    by (auto simp: live_def)
qed

lemma configure_ctx_ok:
  assumes c: "configure_ctx ssl h cfg log = (ok, log')" and l: "live log h" and s: "log_safe e log"
    and n: "(Ctx_new h (tcf_mode cfg), True) \<in> set log"
  shows "log_safe e log' \<and> (\<forall>k. live log' k = live log k) \<and> set log \<subseteq> set log' \<and>
    (ok \<longrightarrow> configured log' h (tcf_mode cfg))"
proof -
  obtain ok1 log1 where v: "SetTlsVersion ssl h cfg log = (ok1, log1)" by fastforce
  then have u1: "uses h log log1" and v1: "ok1 \<Longrightarrow> \<exists>v. (Set_min_version h v, True) \<in> set log1"
    by (auto simp: SetTlsVersion_def Let_def invoke_eq intro!: uses.intros split: if_splits)
  obtain ok2 log2 where p: "SetCipherList ssl h cfg log1 = (ok2, log2)" by fastforce
  then have u2: "uses h log1 log2"
    by (auto simp: SetCipherList_def Let_def invoke_eq intro!: uses.intros split: if_splits prod.splits)
  note u12 = uses_trans [OF u2 u1]
  define log3 where "log3 = (Set_verify h (verify_flags cfg), True) # log2"
  define log4 where "log4 = (Set_verify_depth h (tcf_verify_depth cfg), True) # log3"
  define log5 where "log5 = (if tcf_enable_session_cache cfg then (Set_cache_server h, True) # log4 else log4)"
  have early: "log_safe e log'' \<and> (\<forall>k. live log'' k = live log k) \<and> set log \<subseteq> set log''"
    if "uses h log log''" for log''
    using that uses_safe [OF that l s] uses_live [OF that] uses_subset [OF that] by simp
  have "log_safe e log3"
    using early [OF u12] l n by (auto simp: log3_def verify_flags_mode)
  moreover have l3: "live log3 k = live log k" for k
    using uses_live [OF u12] by (simp add: log3_def live_def)
  moreover have u3: "uses h log3 log5" by (auto simp: log5_def log4_def intro!: uses.intros)
  ultimately have s5: "log_safe e log5" using l by (auto intro: uses_safe)
  have sub5: "set log2 \<subseteq> set log3" "set log3 \<subseteq> set log5"
    using uses_subset [OF u3] by (simp_all add: log3_def subset_insertI)
  have conf: "configured log5 h (tcf_mode cfg)" if "ok1"
  proof -
    have "set log \<subseteq> set log5" "set log1 \<subseteq> set log5"
      using uses_subset [OF u12] uses_subset [OF u2] sub5 by blast+
    moreover have "(Set_verify h (mode_flags (tcf_mode cfg)), True) \<in> set log5"
      using sub5(2) by (auto simp: log3_def verify_flags_mode)
    ultimately show ?thesis using v1 [OF that] n by (auto simp: configured_def)
  qed
  have "log' = log5 \<and> ok = True" if "ok1" "ok2"
    using c v p that
    by (auto simp: configure_ctx_def ConfigureVerification_def ConfigureSessionCache_def perform_def
        log3_def log4_def log5_def split: if_splits)
  moreover have "ok = False \<and> (log' = log1 \<or> log' = log2)" if "\<not> (ok1 \<and> ok2)"
    using c v p that by (auto simp: configure_ctx_def split: if_splits)
  ultimately show ?thesis
    using early [OF u1] early [OF u12] conf s5 uses_live [OF u3] l3 uses_subset [OF u12] sub5
    by (cases "ok1 \<and> ok2") auto
qed

text \<open>What \<open>Initialize\<close> does, the two kinds of context taken together.\<close>

lemma Ctx_Initialize_cases:
  assumes "Ctx_Initialize ssl cfg t log = (ok, t', log')" and "\<not> tcx_is_initialized t"
  defines "h \<equiv> length log" and "m \<equiv> tcf_mode cfg"
  obtains
    "\<not> ok" "t' = t\<lparr>tcx_config := cfg, tcx_ctx := None\<rparr>" "log' = (Ctx_new h m, False) # log"
  | log1 where "configure_ctx ssl h cfg ((Ctx_new h m, True) # log) = (False, log1)" "\<not> ok"
      "t' = t\<lparr>tcx_config := cfg, tcx_ctx := None\<rparr>" "log' = (Ctx_free h, True) # log1"
  | "configure_ctx ssl h cfg ((Ctx_new h m, True) # log) = (True, log')" "ok"
      "t' = t\<lparr>tcx_config := cfg, tcx_ctx := Some h, tcx_is_initialized := True\<rparr>"
proof -
  obtain ok0 log0 where i: "invoke ssl (Ctx_new h m) log = (ok0, log0)" by fastforce
  then have log0: "log0 = (Ctx_new h m, ok0) # log" by (simp add: invoke_eq)
  have d: "Ctx_Initialize ssl cfg t log =
    (if ok0 then
       let (ok, log) = configure_ctx ssl h cfg log0
       in if \<not> ok then (False, t\<lparr>tcx_config := cfg, tcx_ctx := None\<rparr>, perform (Ctx_free h) log)
          else (True, t\<lparr>tcx_config := cfg, tcx_ctx := Some h, tcx_is_initialized := True\<rparr>, log)
     else (False, t\<lparr>tcx_config := cfg, tcx_ctx := None\<rparr>, log0))"
  proof (cases m)
    case CLIENT
    with i assms(2) show ?thesis
      by (simp add: Ctx_Initialize_def InitializeClientContext_def h_def m_def Let_def split_def)
  next
    case SERVER
    with i assms(2) show ?thesis
      by (simp add: Ctx_Initialize_def InitializeServerContext_def h_def m_def Let_def split_def)
  qed
  show ?thesis
  proof (cases ok0)
    case False
    with d assms(1) log0 that(1) show ?thesis by simp
  next
    case True
    obtain ok1 log1 where "configure_ctx ssl h cfg log0 = (ok1, log1)" by fastforce
    with d assms(1) log0 True that(2,3) show ?thesis
      by (cases ok1) (auto simp: perform_def)
  qed
qed

lemma Ctx_Initialize_ok:
  assumes f: "Ctx_Initialize ssl cfg t log = (ok, t', log')"
    and t: "ctx_object_ok e log t" and s: "log_safe e log"
  shows "ctx_op_ok e t log t' log'"
proof (cases "tcx_is_initialized t")
  case True
  with f have "t' = t" "log' = log" by (auto simp: Ctx_Initialize_def)
  with s t show ?thesis by (simp add: ctx_op_refl)
next
  case False
  with t have none: "tcx_ctx t = None" "\<not> tcx_has_certificate t" "\<not> tcx_has_ca t"
    by (auto simp: ctx_object_ok_def split: option.splits)
  define h where "h = length log"
  define log0 where "log0 = (Ctx_new h (tcf_mode cfg), True) # log"
  have l0: "live log0 k \<longleftrightarrow> live log k \<or> k = h" for k
    unfolding log0_def h_def by (rule Ctx_new_fresh(2) [OF s])
  have fresh: "\<not> live log h" unfolding h_def by (rule Ctx_new_fresh(1) [OF s])
  have s0: "log_safe e log0" using s by (simp add: log0_def h_def)
  have conf: "log_safe e log1 \<and> (\<forall>k. live log1 k = live log0 k) \<and> set log0 \<subseteq> set log1 \<and>
    (ok \<longrightarrow> configured log1 h (tcf_mode cfg))"
    if "configure_ctx ssl h cfg log0 = (ok, log1)" for ok log1
    by (rule configure_ctx_ok [OF that _ s0]) (simp_all add: l0, simp add: log0_def)
  from f False show ?thesis
  proof (cases rule: Ctx_Initialize_cases [consumes 2, case_names no_ctx failed ready])
    case no_ctx
    have "live log' k = live log k" for k by (simp add: no_ctx live_def)
    then show ?thesis
      using no_ctx none False s by (auto simp: ctx_op_ok_def ctx_object_ok_def)
  next
    case (failed log1)
    note c = conf [OF failed(1) [folded h_def, folded log0_def]]
    have "live log' k = live log k" for k
      using c l0 fresh by (cases "k = h") (auto simp: failed(4) live_def h_def)
    then show ?thesis
      using failed c none False l0 by (auto simp: ctx_op_ok_def ctx_object_ok_def log0_def h_def)
  next
    case ready
    note c = conf [OF ready(1) [folded h_def, folded log0_def]]
    then show ?thesis
      using ready none l0 fresh by (auto simp: ctx_op_ok_def ctx_object_ok_def log0_def h_def)
  qed
qed

section \<open>Every program keeps the invariant\<close>

text \<open>Handing a context over, and giving it up.\<close>

lemma moved_from_ok: "ctx_object_ok e log (moved_from cfg t)"
  by (simp add: moved_from_def ctx_object_ok_def)

lemma ctx_inv_hand_over:
  assumes inv: "ctx_inv e w" and j: "fst w j = Some other" and ij: "i \<noteq> j"
    and i: "case fst w i of None \<Rightarrow> True | Some this \<Rightarrow> tcx_ctx this = None"
    and t: "tcx_ctx t = tcx_ctx other" "tcx_config t = tcx_config other"
      "tcx_is_initialized t = tcx_is_initialized other"
      "tcx_has_certificate t = tcx_has_certificate other" "tcx_has_ca t = tcx_has_ca other"
  shows "ctx_inv e ((fst w)(i \<mapsto> t, j \<mapsto> moved_from cfg other), snd w)"
proof -
  have "ctx_object_ok e (snd w) t"
    using ctx_inv_objectD [OF inv j] t by (cases "tcx_ctx other") (simp_all add: ctx_object_ok_def)
  moreover have "owned_once ((fst w)(i \<mapsto> t, j \<mapsto> moved_from cfg other))"
    using ctx_inv_ownedD [OF inv] j ij i t(1)
    by (auto simp: owned_once_def moved_from_def split: if_splits)
  moreover have "nothing_leaks ((fst w)(i \<mapsto> t, j \<mapsto> moved_from cfg other)) (snd w)"
    unfolding nothing_leaks_def
  proof (intro allI impI)
    fix h assume "live (snd w) h"
    with ctx_inv_leakD [OF inv] obtain k a where k: "fst w k = Some a" "tcx_ctx a = Some h"
      by (auto simp: nothing_leaks_def)
    show "\<exists>k a. ((fst w)(i \<mapsto> t, j \<mapsto> moved_from cfg other)) k = Some a \<and> tcx_ctx a = Some h"
    proof (cases "k = j")
      case True
      with k j t(1) ij show ?thesis by (intro exI [of _ i]) simp
    next
      case False
      moreover from i k have "k \<noteq> i" by auto
      ultimately show ?thesis using k by (intro exI [of _ k]) simp
    qed
  qed
  ultimately show ?thesis
    using inv by (auto simp: ctx_inv_def moved_from_ok)
qed

lemma ctx_inv_give_up:
  assumes inv: "ctx_inv e w" and i: "fst w i = Some t" and t': "t' = None \<or> t' = Some (moved_from cfg t)"
  shows "ctx_inv e ((fst w)(i := t'), free_ctx (tcx_ctx t) (snd w))"
proof (cases "tcx_ctx t")
  case None
  with t' have "owned_once ((fst w)(i := t'))"
    using ctx_inv_ownedD [OF inv] by (auto simp: owned_once_def moved_from_def split: if_splits)
  moreover have "nothing_leaks ((fst w)(i := t')) (snd w)"
    unfolding nothing_leaks_def
  proof (intro allI impI)
    fix h assume "live (snd w) h"
    with ctx_inv_leakD [OF inv] obtain j a where "fst w j = Some a" "tcx_ctx a = Some h"
      by (auto simp: nothing_leaks_def)
    with i None show "\<exists>j a. ((fst w)(i := t')) j = Some a \<and> tcx_ctx a = Some h"
      by (intro exI [of _ j]) auto
  qed
  ultimately show ?thesis
    using None inv t' by (auto simp: ctx_inv_def free_ctx_def moved_from_ok)
next
  case (Some h)
  define log' where "log' = (Ctx_free h, True) # snd w"
  have live': "live log' k \<longleftrightarrow> live (snd w) k \<and> k \<noteq> h" for k
    by (auto simp: log'_def live_def)
  have lh: "live (snd w) h" by (rule ctx_inv_live [OF inv i Some])
  have only: "j = i" if "fst w j = Some a" "tcx_ctx a = Some h" for j a
    using that i Some ctx_inv_ownedD [OF inv] by (auto simp: owned_once_def)
  have "ctx_object_ok e log' a" if "fst w j = Some a" "j \<noteq> i" for j a
    by (rule ctx_object_ok_mono [OF ctx_inv_objectD [OF inv that(1)]])
      (use only that ctx_inv_live [OF inv that(1)] in \<open>auto simp: live', auto simp: log'_def\<close>)
  moreover have "owned_once ((fst w)(i := t'))"
    using ctx_inv_ownedD [OF inv] t'
    by (auto simp: owned_once_def moved_from_def split: if_splits)
  moreover have "nothing_leaks ((fst w)(i := t')) log'"
    unfolding nothing_leaks_def
  proof (intro allI impI)
    fix k assume "live log' k"
    with ctx_inv_leakD [OF inv] obtain j a where "fst w j = Some a" "tcx_ctx a = Some k" "k \<noteq> h"
      by (auto simp: nothing_leaks_def live')
    with i Some show "\<exists>j a. ((fst w)(i := t')) j = Some a \<and> tcx_ctx a = Some k"
      by (intro exI [of _ j]) auto
  qed
  moreover have "log_safe e log'" using ctx_inv_safeD [OF inv] lh by (simp add: log'_def)
  ultimately show ?thesis
    using Some t' by (auto simp: ctx_inv_def free_ctx_def perform_def log'_def moved_from_ok split: if_splits)
qed

fun empty_chain :: "ctx_op \<Rightarrow> bool" where
  "empty_chain (Op_load_ca_chain i chain) \<longleftrightarrow> chain = []"
| "empty_chain _ \<longleftrightarrow> False"

lemma loads_total:
  assumes "ctx_object_ok e log t"
  shows "LoadCertificate ssl d t log \<noteq> None" "LoadCA ssl pem t log \<noteq> None"
    "LoadCAChain ssl chain t log \<noteq> None"
proof -
  have "tcx_is_initialized t \<Longrightarrow> tcx_ctx t \<noteq> None"
    using assms by (auto dest: ctx_object_ok_initialized)
  then show "LoadCertificate ssl d t log \<noteq> None" "LoadCA ssl pem t log \<noteq> None"
    "LoadCAChain ssl chain t log \<noteq> None"
    unfolding LoadCertificate_def LoadCA_def LoadCAChain_def
    by (auto simp del: not_None_eq split: option.split)
qed

lemma on_object_inv:
  assumes inv: "ctx_inv e w"
    and f: "\<And>t ok t' log'. fst w i = Some t \<Longrightarrow> ctx_object_ok e (snd w) t \<Longrightarrow>
      f t (snd w) = Some (ok, t', log') \<Longrightarrow> ctx_op_ok e t (snd w) t' log'"
    and total: "\<And>t. fst w i = Some t \<Longrightarrow> ctx_object_ok e (snd w) t \<Longrightarrow> f t (snd w) \<noteq> None"
  shows "\<exists>w'. on_object i f w = Some w' \<and> ctx_inv e w'"
proof (cases "fst w i")
  case None
  with inv show ?thesis by (simp add: on_object_def)
next
  case (Some t)
  note t = ctx_inv_objectD [OF inv Some]
  from total [OF Some t] obtain ok t' log' where r: "f t (snd w) = Some (ok, t', log')" by auto
  with ctx_op_frame [OF inv Some f [OF Some t r]] Some show ?thesis by (simp add: on_object_def)
qed

lemma ctx_step_inv:
  assumes inv: "ctx_inv e w" and op: "empty_chain op \<Longrightarrow> e"
  shows "\<exists>w'. ctx_step ssl op w = Some w' \<and> ctx_inv e w'"
proof -
  note s = ctx_inv_safeD [OF inv]
  show ?thesis
  proof (cases op)
    case (Op_construct i)
    have "ctx_inv e ((fst w)(i \<mapsto> TlsContext_default), snd w)" if i: "fst w i = None"
    proof -
      have "ctx_object_ok e (snd w) TlsContext_default"
        by (simp add: ctx_object_ok_def TlsContext_default_def)
      moreover have "owned_once ((fst w)(i \<mapsto> TlsContext_default))"
        using ctx_inv_ownedD [OF inv] by (auto simp: owned_once_def TlsContext_default_def split: if_splits)
      moreover have "\<exists>j a. ((fst w)(i \<mapsto> TlsContext_default)) j = Some a \<and> tcx_ctx a = Some h"
        if "fst w j = Some a" "tcx_ctx a = Some h" for j a h
        using i that by (intro exI [of _ j]) auto
      then have "nothing_leaks ((fst w)(i \<mapsto> TlsContext_default)) (snd w)"
        using ctx_inv_leakD [OF inv] unfolding nothing_leaks_def by blast
      ultimately show ?thesis using inv by (auto simp: ctx_inv_def)
    qed
    with Op_construct inv show ?thesis by (cases "fst w i") auto
  next
    case (Op_destroy i)
    then show ?thesis
      using inv ctx_inv_give_up [OF inv, of i _ None]
      by (cases "fst w i") (auto simp: TlsContext_destroy_def)
  next
    case (Op_move cfg i j)
    have "ctx_inv e ((fst w)(i \<mapsto> fst (TlsContext_move cfg other), j \<mapsto> moved_from cfg other), snd w)"
      if "fst w i = None" "fst w j = Some other" for other
      by (rule ctx_inv_hand_over [OF inv that(2)]) (use that in \<open>auto simp: TlsContext_move_def\<close>)
    with Op_move inv show ?thesis
      by (cases "fst w i"; cases "fst w j") (auto simp: TlsContext_move_def)
  next
    case (Op_move_assign cfg i j)
    show ?thesis
    proof (cases "i = j \<or> fst w i = None \<or> fst w j = None")
      case True
      with Op_move_assign inv show ?thesis by (cases "fst w i"; cases "fst w j") auto
    next
      case False
      then obtain this other where ij: "fst w i = Some this" "fst w j = Some other" "i \<noteq> j" by auto
      define w1 where
        "w1 = ((fst w)(i \<mapsto> moved_from (tcx_config this) this), free_ctx (tcx_ctx this) (snd w))"
      have inv1: "ctx_inv e w1"
        unfolding w1_def by (rule ctx_inv_give_up [OF inv ij(1)]) simp
      define t where "t = this\<lparr>tcx_ctx := tcx_ctx other, tcx_config := tcx_config other,
                   tcx_is_initialized := tcx_is_initialized other,
                   tcx_has_certificate := tcx_has_certificate other, tcx_has_ca := tcx_has_ca other\<rparr>"
      have "ctx_inv e ((fst w1)(i \<mapsto> t, j \<mapsto> moved_from cfg other), snd w1)"
        by (rule ctx_inv_hand_over [OF inv1 _ ij(3)]) (use ij in \<open>auto simp: w1_def t_def moved_from_def\<close>)
      with Op_move_assign ij show ?thesis
        by (simp add: TlsContext_move_assign_def Let_def w1_def t_def)
    qed
  next
    case (Op_initialize i cfg)
    then show ?thesis
      using on_object_inv [OF inv, of i "\<lambda>t log. Some (Ctx_Initialize ssl cfg t log)"]
      by (auto intro: Ctx_Initialize_ok s)
  next
    case (Op_load_certificate i d)
    have "\<exists>w'. on_object i (LoadCertificate ssl d) w = Some w' \<and> ctx_inv e w'"
      by (rule on_object_inv [OF inv]) (simp_all add: LoadCertificate_ok s loads_total del: not_None_eq)
    with Op_load_certificate show ?thesis by simp
  next
    case (Op_load_ca i pem)
    have "\<exists>w'. on_object i (LoadCA ssl pem) w = Some w' \<and> ctx_inv e w'"
      by (rule on_object_inv [OF inv]) (simp_all add: LoadCA_ok s loads_total del: not_None_eq)
    with Op_load_ca show ?thesis by simp
  next
    case (Op_load_ca_chain i chain)
    have "\<exists>w'. on_object i (LoadCAChain ssl chain) w = Some w' \<and> ctx_inv e w'"
      by (rule on_object_inv [OF inv])
        (use op Op_load_ca_chain in \<open>auto intro: LoadCAChain_ok s simp: loads_total simp del: not_None_eq\<close>)
    with Op_load_ca_chain show ?thesis by simp
  next
    case (Op_create_ssl i)
    have "\<exists>w'. on_object i (\<lambda>t log. let (ok, log) = CreateSSL ssl t log in Some (ok, t, log)) w = Some w' \<and>
      ctx_inv e w'"
      by (rule on_object_inv [OF inv]) (auto intro: CreateSSL_ok s split: prod.splits)
    with Op_create_ssl show ?thesis by simp
  qed
qed

lemma ctx_inv_start: "ctx_inv e (Map.empty, [])"
  by (simp add: ctx_inv_def owned_once_def nothing_leaks_def live_def)

lemma ctx_run_inv:
  "ctx_inv e w \<Longrightarrow> (\<And>op. op \<in> set ops \<Longrightarrow> empty_chain op \<Longrightarrow> e) \<Longrightarrow>
    \<exists>w'. ctx_run ssl ops w = Some w' \<and> ctx_inv e w'"
proof (induction ops arbitrary: w)
  case (Cons op ops)
  from ctx_step_inv [OF Cons.prems(1), of op ssl] Cons.prems(2) [of op]
  obtain w' where "ctx_step ssl op w = Some w'" "ctx_inv e w'" by auto
  with Cons.IH [of w'] Cons.prems(2) show ?case by auto
qed simp

section \<open>Consequences\<close>

text \<open>
  A set-up in the order of the endpoints (\<open>Initialize\<close>, \<open>LoadCA\<close>, \<open>LoadCertificate\<close>, all
  returning true) leaves a context on which only \<open>SSL_new\<close> itself can fail.
\<close>

lemma endpoint_set_up:
  assumes i: "Ctx_Initialize ssl cfg TlsContext_default log = (True, t1, log1)"
    and a: "LoadCA ssl ca t1 log1 = Some (True, t2, log2)"
    and c: "LoadCertificate ssl d t2 log2 = Some (True, t3, log3)"
    and s: "log_safe False log"
  shows "\<exists>h. tcx_ctx t3 = Some h \<and> secured False log3 h \<and> has_identity log3 h \<and>
    CreateSSL ssl t3 log3 = invoke ssl (Ssl_new h) log3"
proof -
  have "ctx_object_ok False log TlsContext_default" by (simp add: TlsContext_default_def ctx_object_ok_def)
  from Ctx_Initialize_ok [OF i this s] have o1: "ctx_object_ok False log1 t1" "log_safe False log1"
    by (simp_all add: ctx_op_ok_def)
  from LoadCA_ok [OF a o1] have o2: "ctx_object_ok False log2 t2" "log_safe False log2"
    by (simp_all add: ctx_op_ok_def)
  from LoadCertificate_ok [OF c o2] have o3: "ctx_object_ok False log3 t3"
    by (simp add: ctx_op_ok_def)
  have i2: "tcx_is_initialized t2" and ca2: "tcx_has_ca t2"
    using a by (auto simp: LoadCA_def split: if_splits option.splits prod.splits)
  have i3: "tcx_is_initialized t3" "tcx_has_certificate t3" "tcx_has_ca t3"
    using c i2 ca2 by (auto simp: LoadCertificate_def Let_def split: if_splits option.splits prod.splits)
  from o3 i3 obtain h where h: "tcx_ctx t3 = Some h" by (auto dest: ctx_object_ok_initialized)
  with o3 i3 show ?thesis by (auto simp: ctx_object_ok_Some secured_def CreateSSL_def)
qed

text \<open>\<open>LoadCAChain\<close> of no certificate at all succeeds and lifts the demand for a CA.\<close>

lemma LoadCAChain_Nil:
  assumes "tcx_is_initialized t" and "tcx_ctx t = Some h"
  shows "LoadCAChain ssl [] t log = Some (True, t\<lparr>tcx_has_ca := True\<rparr>, log)"
  using assms by (simp add: LoadCAChain_def)

definition obliging :: openssl where
  "obliging = \<lparr>ssl_answer = \<lambda>_ _. True, pem_certificates = \<lambda>s. [s], pem_private_key = Some\<rparr>"

text \<open>OpenSSL as it would refuse the pairing of a second key.\<close>

definition second_key_refused :: openssl where
  "second_key_refused = obliging\<lparr>ssl_answer := \<lambda>log c.
     (case c of Check_private_key h \<Rightarrow> (Check_private_key h, True) \<notin> set log | _ \<Rightarrow> True)\<rparr>"

definition client_ops :: "ctx_op list \<Rightarrow> ctx_op list" where
  "client_ops loads = [Op_construct 0, Op_initialize 0 CreateSecureClientConfig] @ loads @ [Op_create_ssl 0]"

definition server_ops :: "ctx_op list \<Rightarrow> ctx_op list" where
  "server_ops loads = [Op_construct 0, Op_initialize 0 CreateSecureServerConfig] @ loads @ [Op_create_ssl 0]"

lemmas ctx_run_simps =
  client_ops_def server_ops_def on_object_def TlsContext_default_def TlsConfig_default_def
  CreateSecureClientConfig_def CreateSecureServerConfig_def
  Ctx_Initialize_def InitializeClientContext_def InitializeServerContext_def configure_ctx_def SetTlsVersion_def
  SetCipherList_def ConfigureVerification_def ConfigureSessionCache_def perform_def invoke_def Let_def
  LoadCertificate_def CertificateData_IsValid_def LoadCertificateFromMemory_def LoadPrivateKeyFromMemory_def
  LoadCA_def LoadCAChain_def LoadCAFromMemory_def CreateSSL_def obliging_def second_key_refused_def
  STRONG_TLS_1_2_def STRONG_TLS_1_3_def

lemma empty_chain_trusts_nobody:
  "\<exists>objs log. ctx_run obliging (client_ops [Op_load_ca_chain 0 []]) (Map.empty, []) = Some (objs, log) \<and>
     (Ssl_new 0, True) \<in> set log \<and> \<not> trusts_someone log 0"
  by (simp add: ctx_run_simps trusts_someone_def)

text \<open>A connection is created for a server with its certificate; without it, none.\<close>

lemma server_needs_certificate:
  "\<exists>objs log. ctx_run obliging (server_ops [Op_load_ca 0 ''ca'']) (Map.empty, []) = Some (objs, log) \<and>
     (\<forall>r. (Ssl_new 0, r) \<notin> set log)"
  "\<exists>objs log. ctx_run obliging
     (server_ops [Op_load_ca 0 ''ca'', Op_load_certificate 0 \<lparr>certificate_pem = ''c'', private_key_pem = ''k'', ca_chain_pem = []\<rparr>])
     (Map.empty, []) = Some (objs, log) \<and> hd log = (Ssl_new 0, True) \<and> has_identity log 0"
  by (simp_all add: ctx_run_simps has_identity_def)

text \<open>
  A second certificate that is refused is not undone: the object still counts as having a
  certificate, and the connection is created with the new certificate and the refused key.
\<close>

lemma failed_reload_keeps_flag:
  "\<exists>objs log. ctx_run second_key_refused
     (server_ops [Op_load_ca 0 ''ca'',
       Op_load_certificate 0 \<lparr>certificate_pem = ''c1'', private_key_pem = ''k1'', ca_chain_pem = []\<rparr>,
       Op_load_certificate 0 \<lparr>certificate_pem = ''c2'', private_key_pem = ''k2'', ca_chain_pem = []\<rparr>])
     (Map.empty, []) = Some (objs, log) \<and>
     take 4 (map fst (filter snd log)) =
       [Ssl_new 0, Use_private_key 0 ''k2'', Bio_new ''k2'', Use_certificate 0 ''c2''] \<and>
     (Check_private_key 0, False) \<in> set log"
  by (simp add: ctx_run_simps)

section \<open>Property\<close>

text \<open>
  C13. Over every program that constructs, moves, assigns, initialises, loads and destroys TLS
  contexts in any order, whatever OpenSSL answers: the program never reaches a null context; no
  call is made on a context that was freed, so none is freed twice; verification of the peer is
  only ever set to what the mode demands; a connection is only created on a context with a
  minimum version, with verification on, for a server with an accepted certificate and a key that
  matches it, and with an accepted CA unless \<open>LoadCAChain\<close> was called with no certificate;
  every live context has exactly one owner, so destroying the owners leaks none.
\<close>

theorem tls_context_safe:
  "\<exists>objs log. ctx_run ssl ops (Map.empty, []) = Some (objs, log) \<and>
     log_safe (\<exists>op \<in> set ops. empty_chain op) log \<and>
     (\<forall>h. live log h = (\<exists>!i. \<exists>t. objs i = Some t \<and> tcx_ctx t = Some h))"
proof -
  let ?e = "\<exists>op \<in> set ops. empty_chain op"
  from ctx_run_inv [OF ctx_inv_start [of ?e], of ops ssl]
  obtain objs log where r: "ctx_run ssl ops (Map.empty, []) = Some (objs, log)"
    and inv: "ctx_inv ?e (objs, log)" by fastforce
  have "live log h = (\<exists>!i. \<exists>t. objs i = Some t \<and> tcx_ctx t = Some h)" for h
    using ctx_inv_leakD [OF inv] ctx_inv_ownedD [OF inv] ctx_inv_live [OF inv]
    unfolding nothing_leaks_def owned_once_def fst_conv snd_conv by blast
  with r ctx_inv_safeD [OF inv] show ?thesis by auto
qed

end
