(* ===== verification/Socket_IO.thy ===== *)
theory Socket_IO
  imports Prelude
begin

text \<open>
  The socket helpers (\<open>SocketUtils.hpp\<close>, \<open>SocketUtils.cpp\<close>): the option setters as sequences
  of \<open>setsockopt\<close> calls, and the two loops that move exactly a given number of bytes. The
  kernel's part is scripted: the bytes still to arrive, and for every \<open>recv\<close> and \<open>send\<close> what
  becomes of it. A call for which the script has nothing left blocks, which is the value
  \<open>None\<close>.
\<close>

section \<open>Options\<close>

definition INVALID_SOCKET :: int where "INVALID_SOCKET = - 1"

datatype sock_option =
    SO_REUSEADDR | TCP_NODELAY | SO_KEEPALIVE | TCP_KEEPIDLE | TCP_KEEPINTVL | TCP_KEEPCNT
  | SO_RCVBUF | SO_SNDBUF

datatype sock_call =
    Set_option sock_option int
  | Set_send_timeout nat nat
  | Set_recv_timeout nat nat
  | Set_flags u32
  | Get_flags
  | Close_socket int

text \<open>
  \<open>answer\<close> is what the kernel makes of a call. A setter returns its result and the calls it has
  made, in order.
\<close>

record KeepAliveConfig =
  ka_enabled :: bool
  ka_idle_seconds :: u32
  ka_interval_seconds :: u32
  ka_probe_count :: u32

definition KeepAliveConfig_default :: KeepAliveConfig where
  "KeepAliveConfig_default =
     \<lparr>ka_enabled = True, ka_idle_seconds = 10, ka_interval_seconds = 5, ka_probe_count = 3\<rparr>"

text \<open>The calls of a list, until one fails: \<open>if (setsockopt(...) != 0) return false;\<close>.\<close>

fun set_all :: "(sock_call \<Rightarrow> bool) \<Rightarrow> sock_call list \<Rightarrow> bool \<times> sock_call list" where
  "set_all answer [] = (True, [])"
| "set_all answer (c # cs) =
     (if answer c then let (ok, made) = set_all answer cs in (ok, c # made) else (False, [c]))"

definition Sock_SetNonBlocking :: "(sock_call \<Rightarrow> bool) \<Rightarrow> u32 \<Rightarrow> bool \<times> sock_call list" where
  "Sock_SetNonBlocking answer flags = set_all answer [Get_flags, Set_flags (flags OR 0x800)]"

definition SetSocketReuseAddr :: "(sock_call \<Rightarrow> bool) \<Rightarrow> bool \<times> sock_call list" where
  "SetSocketReuseAddr answer = set_all answer [Set_option SO_REUSEADDR 1]"

definition SetSocketNoDelay :: "(sock_call \<Rightarrow> bool) \<Rightarrow> bool \<times> sock_call list" where
  "SetSocketNoDelay answer = set_all answer [Set_option TCP_NODELAY 1]"

text \<open>The \<open>int\<close> locals take the unsigned settings: a value from \<open>2 ^ 31\<close> becomes negative.\<close>

definition SetSocketKeepAlive :: "(sock_call \<Rightarrow> bool) \<Rightarrow> KeepAliveConfig \<Rightarrow> bool \<times> sock_call list" where
  "SetSocketKeepAlive answer config =
     set_all answer
       (Set_option SO_KEEPALIVE (if ka_enabled config then 1 else 0) #
        (if \<not> ka_enabled config then []
         else [Set_option TCP_KEEPIDLE (sint (ka_idle_seconds config)),
               Set_option TCP_KEEPINTVL (sint (ka_interval_seconds config)),
               Set_option TCP_KEEPCNT (sint (ka_probe_count config))]))"

definition SetSocketSendTimeout :: "(sock_call \<Rightarrow> bool) \<Rightarrow> u32 \<Rightarrow> bool \<times> sock_call list" where
  "SetSocketSendTimeout answer timeout_ms =
     set_all answer [Set_send_timeout (unat (timeout_ms div 1000)) (unat ((timeout_ms mod 1000) * 1000))]"

definition SetSocketRecvTimeout :: "(sock_call \<Rightarrow> bool) \<Rightarrow> u32 \<Rightarrow> bool \<times> sock_call list" where
  "SetSocketRecvTimeout answer timeout_ms =
     set_all answer [Set_recv_timeout (unat (timeout_ms div 1000)) (unat ((timeout_ms mod 1000) * 1000))]"

definition SetSocketBufferSize :: "(sock_call \<Rightarrow> bool) \<Rightarrow> u32 \<Rightarrow> u32 \<Rightarrow> bool \<times> sock_call list" where
  "SetSocketBufferSize answer recv_size send_size =
     set_all answer [Set_option SO_RCVBUF (sint recv_size), Set_option SO_SNDBUF (sint send_size)]"

text \<open>
  The options of the two sockets that the programs use: the listening socket of a node, whose
  set-up ignores every answer, and the socket of the coordinator's client.
\<close>

definition SetSocketOptions :: "(sock_call \<Rightarrow> bool) \<Rightarrow> sock_call list" where
  "SetSocketOptions answer =
     (let keepalive = KeepAliveConfig_default\<lparr>ka_enabled := True, ka_idle_seconds := 10,
            ka_interval_seconds := 5, ka_probe_count := 3\<rparr> in
      snd (SetSocketReuseAddr answer) @ snd (SetSocketNoDelay answer)
      @ snd (SetSocketKeepAlive answer keepalive) @ snd (SetSocketRecvTimeout answer 30000)
      @ snd (SetSocketBufferSize answer (64 * 1024) (64 * 1024)))"

definition client_socket_options :: "(sock_call \<Rightarrow> bool) \<Rightarrow> u32 \<Rightarrow> sock_call list" where
  "client_socket_options answer connection_timeout_ms =
     snd (SetSocketReuseAddr answer) @ snd (SetSocketRecvTimeout answer connection_timeout_ms)
     @ snd (SetSocketSendTimeout answer connection_timeout_ms)"

lemma SetSocketOptions_all:
  assumes "\<And>c. answer c"
  shows "SetSocketOptions answer = [Set_option SO_REUSEADDR 1, Set_option TCP_NODELAY 1, Set_option SO_KEEPALIVE 1,
    Set_option TCP_KEEPIDLE 10, Set_option TCP_KEEPINTVL 5, Set_option TCP_KEEPCNT 3, Set_recv_timeout 30 0,
    Set_option SO_RCVBUF 65536, Set_option SO_SNDBUF 65536]"
  using assms by (simp add: SetSocketOptions_def SetSocketReuseAddr_def SetSocketNoDelay_def SetSocketKeepAlive_def
      SetSocketRecvTimeout_def SetSocketBufferSize_def KeepAliveConfig_default_def)

text \<open>
  A receive timeout on the listening socket of a node makes its \<open>accept\<close> return without a client
  every 30 s; a buffer option that fails leaves out the one after it and nothing else.
\<close>

lemma SetSocketOptions_independent:
  assumes "\<not> answer (Set_option SO_RCVBUF 65536)" and "\<And>c. c \<noteq> Set_option SO_RCVBUF 65536 \<Longrightarrow> answer c"
  shows "SetSocketOptions answer = butlast (SetSocketOptions (\<lambda>_. True))"
  using assms by (simp add: SetSocketOptions_def SetSocketReuseAddr_def SetSocketNoDelay_def SetSocketKeepAlive_def
      SetSocketRecvTimeout_def SetSocketBufferSize_def KeepAliveConfig_default_def)

definition CloseSocket :: "int \<Rightarrow> sock_call list" where
  "CloseSocket sock = (if sock \<noteq> INVALID_SOCKET then [Close_socket sock] else [])"

section \<open>Exact transfers\<close>

datatype SocketIOResult = IO_SUCCESS | IO_CONNECTION_CLOSED | IO_INTERRUPTED | IO_TIMEOUT | IO_CONNECTION_ERROR | IO_UNKNOWN_ERROR

fun SocketIOResultToString :: "SocketIOResult \<Rightarrow> string" where
  "SocketIOResultToString IO_SUCCESS = ''SUCCESS''"
| "SocketIOResultToString IO_CONNECTION_CLOSED = ''CONNECTION_CLOSED''"
| "SocketIOResultToString IO_INTERRUPTED = ''INTERRUPTED''"
| "SocketIOResultToString IO_TIMEOUT = ''TIMEOUT''"
| "SocketIOResultToString IO_CONNECTION_ERROR = ''CONNECTION_ERROR''"
| "SocketIOResultToString IO_UNKNOWN_ERROR = ''UNKNOWN_ERROR''"

definition IsFatalError :: "SocketIOResult \<Rightarrow> bool" where
  "IsFatalError r \<longleftrightarrow> r = IO_CONNECTION_CLOSED \<or> r = IO_CONNECTION_ERROR \<or> r = IO_UNKNOWN_ERROR"

definition IsRetryable :: "SocketIOResult \<Rightarrow> bool" where
  "IsRetryable r \<longleftrightarrow> r = IO_INTERRUPTED \<or> r = IO_TIMEOUT"

text \<open>
  What meets a \<open>recv\<close>: bytes that have arrived, of which it takes at most as many as it asked
  for (none at all is the peer's FIN), or an error. What meets a \<open>send\<close>: room for some bytes, or
  an error. \<open>EWOULDBLOCK\<close> is \<open>EAGAIN\<close> on the targets.
\<close>

datatype errno = EINTR | EAGAIN | ECONNRESET | EPIPE | ENOTCONN | Other_errno
datatype recv_event = Arrives bytes | Recv_fails errno
datatype send_event = Accepts nat | Send_fails errno

fun recv_error :: "errno \<Rightarrow> SocketIOResult" where
  "recv_error EAGAIN = IO_TIMEOUT"
| "recv_error ECONNRESET = IO_CONNECTION_ERROR"
| "recv_error EPIPE = IO_CONNECTION_ERROR"
| "recv_error ENOTCONN = IO_CONNECTION_ERROR"
| "recv_error _ = IO_UNKNOWN_ERROR"

text \<open>
  The loop of \<open>ReceiveExact\<close>: \<open>len\<close> bytes wanted, \<open>received\<close> in the buffer. The result has the
  bytes now in the buffer, whose number is what \<open>*bytes_received\<close> is given, and the events left;
  bytes not taken stay with the kernel.
\<close>

definition still_there :: "bytes \<Rightarrow> recv_event list \<Rightarrow> recv_event list" where
  "still_there bs events = (if bs = [] then events else Arrives bs # events)"

function ReceiveExact_loop ::
  "nat \<Rightarrow> bytes \<Rightarrow> recv_event list \<Rightarrow> (SocketIOResult \<times> bytes \<times> recv_event list) option" where
  "ReceiveExact_loop len received events =
     (if len \<le> length received then Some (IO_SUCCESS, received, events)
      else case events of
        [] \<Rightarrow> None
      | Arrives bs # events' \<Rightarrow>
          if bs = [] then Some (IO_CONNECTION_CLOSED, received, events')
          else let n = len - length received
               in ReceiveExact_loop len (received @ take n bs) (still_there (drop n bs) events')
      | Recv_fails err # events' \<Rightarrow>
          if err = EINTR then ReceiveExact_loop len received events'
          else Some (recv_error err, received, events'))"
  by pat_completeness auto
termination
  by (relation "measures [\<lambda>(len, received, _). len - length received, \<lambda>(_, _, events). length events]")
    (auto simp: neq_Nil_conv)

declare ReceiveExact_loop.simps [simp del]

definition Sock_ReceiveExact ::
  "nat \<Rightarrow> recv_event list \<Rightarrow> (SocketIOResult \<times> bytes \<times> recv_event list) option" where
  "Sock_ReceiveExact len events =
     (if len = 0 then Some (IO_SUCCESS, [], events) else ReceiveExact_loop len [] events)"

text \<open>The loop of \<open>SendExact\<close>: the bytes sent so far and what is left of the data.\<close>

fun SendExact_loop ::
  "bytes \<Rightarrow> bytes \<Rightarrow> send_event list \<Rightarrow> (SocketIOResult \<times> bytes \<times> send_event list) option" where
  "SendExact_loop sent [] events = Some (IO_SUCCESS, sent, events)"
| "SendExact_loop sent rest [] = None"
| "SendExact_loop sent rest (Accepts k # events) = SendExact_loop (sent @ take k rest) (drop k rest) events"
| "SendExact_loop sent rest (Send_fails err # events) =
     (if err = EINTR \<or> err = EAGAIN then SendExact_loop sent rest events
      else if err = EPIPE \<or> err = ECONNRESET \<or> err = ENOTCONN then Some (IO_CONNECTION_ERROR, sent, events)
      else Some (IO_UNKNOWN_ERROR, sent, events))"

definition Sock_SendExact ::
  "bytes \<Rightarrow> send_event list \<Rightarrow> (SocketIOResult \<times> bytes \<times> send_event list) option" where
  "Sock_SendExact data events =
     (if data = [] then Some (IO_SUCCESS, [], events) else SendExact_loop [] data events)"

section \<open>The transfers in one step\<close>

text \<open>
  The reference: interruptions do not count, the arrivals before the first other event are one
  text. \<open>ReceiveExact\<close> takes its first \<open>len\<close> bytes when there are as many; otherwise it keeps
  them all and that event decides the result.
\<close>

definition counts :: "recv_event \<Rightarrow> bool" where "counts ev \<longleftrightarrow> ev \<noteq> Recv_fails EINTR"

fun arrival :: "recv_event \<Rightarrow> bytes" where
  "arrival (Arrives bs) = bs"
| "arrival (Recv_fails err) = []"

definition arrives :: "recv_event \<Rightarrow> bool" where "arrives ev \<longleftrightarrow> arrival ev \<noteq> []"

definition arrived :: "recv_event list \<Rightarrow> bytes" where
  "arrived events = concat (map arrival (takeWhile arrives (filter counts events)))"

definition verdict :: "recv_event list \<Rightarrow> SocketIOResult option" where
  "verdict events =
     (case dropWhile arrives (filter counts events) of
        [] \<Rightarrow> None
      | Arrives _ # _ \<Rightarrow> Some IO_CONNECTION_CLOSED
      | Recv_fails err # _ \<Rightarrow> Some (recv_error err))"

definition receive_reference :: "nat \<Rightarrow> recv_event list \<Rightarrow> (SocketIOResult \<times> bytes) option" where
  "receive_reference len events =
     (let text = arrived events
      in if len \<le> length text then Some (IO_SUCCESS, take len text)
         else map_option (\<lambda>r. (r, text)) (verdict events))"

lemma arrived_simps [simp]:
  "arrived [] = []"
  "arrived (Recv_fails EINTR # evs) = arrived evs"
  "bs \<noteq> [] \<Longrightarrow> arrived (Arrives bs # evs) = bs @ arrived evs"
  "arrived (Arrives [] # evs) = []"
  "err \<noteq> EINTR \<Longrightarrow> arrived (Recv_fails err # evs) = []"
  by (simp_all add: arrived_def counts_def arrives_def)

lemma verdict_simps [simp]:
  "verdict [] = None"
  "verdict (Recv_fails EINTR # evs) = verdict evs"
  "bs \<noteq> [] \<Longrightarrow> verdict (Arrives bs # evs) = verdict evs"
  "verdict (Arrives [] # evs) = Some IO_CONNECTION_CLOSED"
  "err \<noteq> EINTR \<Longrightarrow> verdict (Recv_fails err # evs) = Some (recv_error err)"
  by (simp_all add: verdict_def counts_def arrives_def)

lemma arrived_still_there [simp]: "arrived (still_there bs evs) = bs @ arrived evs"
  and verdict_still_there [simp]: "verdict (still_there bs evs) = verdict evs"
  by (simp_all add: still_there_def)

text \<open>The loop, with what is in the buffer already; the text left is what was not taken.\<close>

lemma ReceiveExact_loop_reference:
  "length received \<le> len \<Longrightarrow>
   map_option (\<lambda>(r, bs, evs). (r, bs)) (ReceiveExact_loop len received events) =
     (if len \<le> length received + length (arrived events)
      then Some (IO_SUCCESS, received @ take (len - length received) (arrived events))
      else map_option (\<lambda>r. (r, received @ arrived events)) (verdict events))"
proof (induction len received events rule: ReceiveExact_loop.induct)
  case (1 len received events)
  show ?case
  proof (cases "len \<le> length received")
    case True
    then show ?thesis using "1.prems" by (subst ReceiveExact_loop.simps) simp
  next
    case False
    show ?thesis
    proof (cases events)
      case Nil
      with False show ?thesis by (subst ReceiveExact_loop.simps) simp
    next
      case (Cons ev evs)
      show ?thesis
      proof (cases ev)
        case (Arrives bs)
        show ?thesis
        proof (cases "bs = []")
          case True
          with False Cons Arrives show ?thesis by (subst ReceiveExact_loop.simps) simp
        next
          case bs: False
          define n where "n = len - length received"
          note step = ReceiveExact_loop.simps [of len received events]
          note IH = "1.IH"(1) [OF False Cons Arrives bs n_def]
          show ?thesis
          proof (cases "length bs \<le> n")
            case True
            with IH False Cons Arrives bs step show ?thesis
              by (simp add: n_def still_there_def)
          next
            case enough: False
            then have "len \<le> length (received @ take n bs)" by (simp add: n_def)
            with ReceiveExact_loop.simps [of len "received @ take n bs" "still_there (drop n bs) evs"]
            show ?thesis
              using enough False Cons Arrives bs step by (auto simp: n_def Let_def)
          qed
        qed
      next
        case (Recv_fails err)
        with "1.IH"(2) [OF False Cons Recv_fails] False Cons "1.prems" show ?thesis
          by (subst ReceiveExact_loop.simps) (cases "err = EINTR"; simp)
      qed
    qed
  qed
qed

lemma ReceiveExact_reference:
  "map_option (\<lambda>(r, bs, evs). (r, bs)) (Sock_ReceiveExact len events) = receive_reference len events"
proof (cases "len = 0")
  case True
  then show ?thesis by (simp add: Sock_ReceiveExact_def receive_reference_def)
next
  case False
  then show ?thesis
    using ReceiveExact_loop_reference [of "[]" len events]
    by (simp add: Sock_ReceiveExact_def receive_reference_def Let_def)
qed

text \<open>The bytes of a complete transfer and those left are the bytes that arrived.\<close>

lemma take_drop_append: "take n b @ drop n b @ x = b @ x"
  by (metis append.assoc append_take_drop_id)

lemma ReceiveExact_loop_rest:
  "ReceiveExact_loop len received events = Some (IO_SUCCESS, bs, evs) \<Longrightarrow> length received \<le> len \<Longrightarrow>
   received @ arrived events = bs @ arrived evs"
proof (induction len received events rule: ReceiveExact_loop.induct)
  case (1 len received events)
  note step = ReceiveExact_loop.simps [of len received events]
  show ?case
  proof (cases "len \<le> length received")
    case True
    with "1.prems" step show ?thesis by simp
  next
    case False
    show ?thesis
    proof (cases events)
      case Nil
      with False "1.prems" step show ?thesis by simp
    next
      case (Cons ev evs)
      show ?thesis
      proof (cases ev)
        case (Arrives b)
        have "length (received @ take (len - length received) b) \<le> len" using "1.prems"(2) by simp
        with "1.IH"(1) [OF False Cons Arrives _ refl] False Cons Arrives "1.prems" step show ?thesis
          by (cases "b = []") (auto simp: Let_def take_drop_append)
      next
        case (Recv_fails err)
        with "1.IH"(2) [OF False Cons Recv_fails] False Cons Recv_fails "1.prems" step show ?thesis
          by (cases err) simp_all
      qed
    qed
  qed
qed

lemma ReceiveExact_rest:
  "Sock_ReceiveExact len events = Some (IO_SUCCESS, bs, evs) \<Longrightarrow> arrived events = bs @ arrived evs"
  using ReceiveExact_loop_rest [of len "[]" events bs evs]
  by (auto simp: Sock_ReceiveExact_def split: if_splits)

text \<open>No result is ever \<open>INTERRUPTED\<close>; the only retryable one is the timeout of a receive.\<close>

lemma receive_results:
  assumes "Sock_ReceiveExact len events = Some (r, bs, evs)"
  shows "r \<noteq> IO_INTERRUPTED \<and> (IsRetryable r \<longleftrightarrow> r = IO_TIMEOUT) \<and>
    (r = IO_SUCCESS \<longleftrightarrow> length bs = len) \<and> length bs \<le> len"
proof -
  from assms have "receive_reference len events = Some (r, bs)"
    using ReceiveExact_reference [of len events] by simp
  moreover have "recv_error err \<noteq> IO_INTERRUPTED \<and> recv_error err \<noteq> IO_SUCCESS" for err
    by (cases err) simp_all
  ultimately show ?thesis
    by (auto simp: receive_reference_def Let_def IsRetryable_def verdict_def
        split: if_splits list.splits recv_event.splits)
qed

text \<open>
  Sending: the room offered before the first real error counts, and only that error ends an
  incomplete transfer.
\<close>

fun pauses :: "send_event \<Rightarrow> bool" where
  "pauses (Accepts k) \<longleftrightarrow> True"
| "pauses (Send_fails err) \<longleftrightarrow> err = EINTR \<or> err = EAGAIN"

fun room :: "send_event \<Rightarrow> nat" where
  "room (Accepts k) = k"
| "room (Send_fails err) = 0"

fun send_error :: "send_event \<Rightarrow> SocketIOResult" where
  "send_error (Send_fails err) = (if err \<in> {EPIPE, ECONNRESET, ENOTCONN} then IO_CONNECTION_ERROR else IO_UNKNOWN_ERROR)"
| "send_error (Accepts k) = IO_SUCCESS"

definition offered :: "send_event list \<Rightarrow> nat" where
  "offered events = sum_list (map room (takeWhile pauses events))"

definition send_reference :: "bytes \<Rightarrow> send_event list \<Rightarrow> (SocketIOResult \<times> bytes) option" where
  "send_reference data events =
     (if length data \<le> offered events then Some (IO_SUCCESS, data)
      else case dropWhile pauses events of
             [] \<Rightarrow> None
           | ev # _ \<Rightarrow> Some (send_error ev, take (offered events) data))"

lemma SendExact_loop_reference:
  "map_option (\<lambda>(r, bs, evs). (r, bs)) (SendExact_loop sent rest events) =
     map_option (\<lambda>(r, bs). (r, sent @ bs)) (send_reference rest events)"
proof (induction sent rest events rule: SendExact_loop.induct)
  case (3 sent b bs k events)
  have "offered (Accepts k # events) = k + offered events" by (simp add: offered_def)
  then have "send_reference (b # bs) (Accepts k # events) =
      map_option (\<lambda>(r, d). (r, take k (b # bs) @ d)) (send_reference (drop k (b # bs)) events)"
    by (cases "dropWhile pauses events"; cases "length (b # bs) \<le> k")
      (auto simp: send_reference_def take_add simp del: dropWhile_eq_Nil_conv)
  with "3.IH" show ?case by (simp add: option.map_comp comp_def split_def)
qed (auto simp: send_reference_def offered_def simp del: dropWhile_eq_Nil_conv split: list.splits)

lemma SendExact_reference:
  "map_option (\<lambda>(r, bs, evs). (r, bs)) (Sock_SendExact data events) = send_reference data events"
  using SendExact_loop_reference [of "[]" data events]
  by (cases "data = []") (auto simp: Sock_SendExact_def send_reference_def option.map_id
      split: option.splits)

text \<open>A peer that stops reading holds \<open>SendExact\<close> for ever: a full buffer is never an error.\<close>

lemma SendExact_never_times_out:
  assumes "data \<noteq> []" and "\<And>ev. ev \<in> set events \<Longrightarrow> ev \<in> {Send_fails EAGAIN, Send_fails EINTR, Accepts 0}"
  shows "Sock_SendExact data events = None"
proof -
  from assms(2) have "\<forall>ev \<in> set events. pauses ev" by force
  then have p: "takeWhile pauses events = events" "dropWhile pauses events = []"
    by (simp_all only: takeWhile_eq_all_conv dropWhile_eq_Nil_conv)
  note p
  moreover from assms(2) have "\<forall>x \<in> set events. room x = 0" by force
  then have "offered events = 0" by (simp add: offered_def p)
  ultimately have "send_reference data events = None" using assms(1)
    by (simp add: send_reference_def p del: dropWhile_eq_Nil_conv takeWhile_eq_all_conv)
  then show ?thesis using SendExact_reference [of data events] by simp
qed

section \<open>Property\<close>

text \<open>
  C26. \<open>ReceiveExact\<close> and \<open>SendExact\<close> equal their references: the result and the bytes moved
  depend only on the text that arrives (the room that is offered) before the first event that is
  no interruption, not on how it is cut into pieces. A receive succeeds exactly when enough
  arrives, and otherwise reports that event with everything received so far; a send is ended
  early only by a real error, and never returns while there is none.
\<close>

theorem exact_transfers_reference:
  "map_option (\<lambda>(r, bs, evs). (r, bs)) (Sock_ReceiveExact len events) = receive_reference len events \<and>
   map_option (\<lambda>(r, bs, evs). (r, bs)) (Sock_SendExact data room_events) = send_reference data room_events"
  by (simp add: ReceiveExact_reference SendExact_reference)

end
