(* ===== verification/Logger.thy ===== *)
theory Logger
  imports Prelude
begin

text \<open>
  The logger (\<open>Logger.hpp\<close>): the level that a build keeps, the level chosen at run time, and
  what a message adds to the two console streams and to the file. The time stamp and the text
  that \<open>vsnprintf\<close> formats are arguments.
\<close>

datatype LogLevel = DEBUG | INFO | WARN | ERROR | FATAL | NONE

fun LogLevel_value :: "LogLevel \<Rightarrow> nat" where
  "LogLevel_value DEBUG = 0"
| "LogLevel_value INFO = 1"
| "LogLevel_value WARN = 2"
| "LogLevel_value ERROR = 3"
| "LogLevel_value FATAL = 4"
| "LogLevel_value NONE = 5"

text \<open>The comparisons of the enumeration are those of its values.\<close>

lemma LogLevel_value_inject [simp]: "LogLevel_value a = LogLevel_value b \<longleftrightarrow> a = b"
  by (cases a; cases b) simp_all

instantiation LogLevel :: linorder
begin

definition less_eq_LogLevel :: "LogLevel \<Rightarrow> LogLevel \<Rightarrow> bool" where
  "less_eq_LogLevel a b \<longleftrightarrow> LogLevel_value a \<le> LogLevel_value b"

definition less_LogLevel :: "LogLevel \<Rightarrow> LogLevel \<Rightarrow> bool" where
  "less_LogLevel a b \<longleftrightarrow> LogLevel_value a < LogLevel_value b"

instance
proof
  fix a b c :: LogLevel
  show "(a < b) = (a \<le> b \<and> \<not> b \<le> a)" by (auto simp: less_eq_LogLevel_def less_LogLevel_def)
  show "a \<le> a" by (simp add: less_eq_LogLevel_def)
  show "a \<le> b \<Longrightarrow> b \<le> c \<Longrightarrow> a \<le> c" by (simp add: less_eq_LogLevel_def)
  show "a \<le> b \<Longrightarrow> b \<le> a \<Longrightarrow> a = b" by (simp add: less_eq_LogLevel_def)
  show "a \<le> b \<or> b \<le> a" by (auto simp: less_eq_LogLevel_def)
qed

end

fun LogLevelToString :: "LogLevel \<Rightarrow> string" where
  "LogLevelToString DEBUG = ''DEBUG''"
| "LogLevelToString INFO = ''INFO ''"
| "LogLevelToString WARN = ''WARN ''"
| "LogLevelToString ERROR = ''ERROR''"
| "LogLevelToString FATAL = ''FATAL''"
| "LogLevelToString NONE = ''UNKN ''"

text \<open>A null text, and any other than the twelve, means \<open>INFO\<close>.\<close>

definition StringToLogLevel :: "string option \<Rightarrow> LogLevel" where
  "StringToLogLevel str =
     (case str of
        None \<Rightarrow> INFO
      | Some s \<Rightarrow>
          if s = ''DEBUG'' \<or> s = ''0'' then DEBUG
          else if s = ''INFO'' \<or> s = ''1'' then INFO
          else if s = ''WARN'' \<or> s = ''2'' then WARN
          else if s = ''ERROR'' \<or> s = ''3'' then ERROR
          else if s = ''FATAL'' \<or> s = ''4'' then FATAL
          else if s = ''NONE'' \<or> s = ''5'' then NONE
          else INFO)"

record logger =
  lg_min_level :: LogLevel
  lg_console_enabled :: bool
  lg_file_enabled :: bool
  lg_file_open :: bool
  lg_file_failed :: bool
  lg_stdout :: "string list"
  lg_stderr :: "string list"
  lg_file :: "string list"

definition Logger_default :: logger where
  "Logger_default =
     \<lparr>lg_min_level = INFO, lg_console_enabled = True, lg_file_enabled = False, lg_file_open = False, lg_file_failed = False,
      lg_stdout = [], lg_stderr = [], lg_file = []\<rparr>"

text \<open>
  \<open>file.open\<close>: on a stream that is open already it fails and leaves it open, with its fail bit
  set, so that nothing more is written; a success clears the bit.
\<close>

definition open_log :: "(string \<Rightarrow> bool) \<Rightarrow> string \<Rightarrow> logger \<Rightarrow> logger" where
  "open_log opens f l =
     (if lg_file_open l then l\<lparr>lg_file_failed := True\<rparr>
      else l\<lparr>lg_file_open := opens f, lg_file_failed := \<not> opens f\<rparr>)"

text \<open>
  \<open>Initialize\<close>: \<open>opens\<close> tells whether the file named can be opened, \<open>getenv\<close> reads the
  environment of the process, \<open>compiled\<close> is \<open>COMPILE_LOG_LEVEL\<close>. The lines it prints about
  itself are left out.
\<close>

definition Logger_Initialize ::
  "(string \<Rightarrow> string option) \<Rightarrow> (string \<Rightarrow> bool) \<Rightarrow> LogLevel \<Rightarrow> string option \<Rightarrow> bool \<Rightarrow> logger \<Rightarrow> logger" where
  "Logger_Initialize getenv opens compiled log_file enable_console l =
     (let l = l\<lparr>lg_console_enabled := enable_console\<rparr>;
          l = (case log_file of
                 None \<Rightarrow> l
               | Some f \<Rightarrow> let l = open_log opens f l in l\<lparr>lg_file_enabled := lg_file_open l\<rparr>);
          runtime_level = (case getenv ''RUNTIME_LOG_LEVEL'' of
                             None \<Rightarrow> getenv ''LOG_LEVEL''
                           | Some v \<Rightarrow> Some v)
      in case runtime_level of
           None \<Rightarrow> l\<lparr>lg_min_level := compiled\<rparr>
         | Some v \<Rightarrow>
             let requested_level = StringToLogLevel (Some v)
             in if requested_level < compiled then l\<lparr>lg_min_level := compiled\<rparr>
                else l\<lparr>lg_min_level := requested_level\<rparr>)"

definition log_line :: "string \<Rightarrow> LogLevel \<Rightarrow> string \<Rightarrow> string \<Rightarrow> string" where
  "log_line timestamp level category message =
     timestamp @ '' ['' @ LogLevelToString level @ ''] '' @ ''['' @ category @ ''] '' @ message @ [CHR 0x0A]"

definition Logger_Log :: "string \<Rightarrow> LogLevel \<Rightarrow> string \<Rightarrow> string \<Rightarrow> logger \<Rightarrow> logger" where
  "Logger_Log timestamp level category message l =
     (if level < lg_min_level l then l
      else
        let line = log_line timestamp level category message;
            l = (if \<not> lg_console_enabled l then l
                 else if ERROR \<le> level then l\<lparr>lg_stderr := lg_stderr l @ [line]\<rparr>
                 else l\<lparr>lg_stdout := lg_stdout l @ [line]\<rparr>)
        in if lg_file_enabled l \<and> lg_file_open l \<and> \<not> lg_file_failed l
           then l\<lparr>lg_file := lg_file l @ [line]\<rparr> else l)"

text \<open>The buffer of \<open>Logf\<close> holds 4096 characters with the mark of the end.\<close>

definition Logger_Logf :: "string \<Rightarrow> LogLevel \<Rightarrow> string \<Rightarrow> string \<Rightarrow> logger \<Rightarrow> logger" where
  "Logger_Logf timestamp level category formatted l =
     (if level < lg_min_level l then l
      else Logger_Log timestamp level category (take 4095 formatted) l)"

text \<open>A \<open>LOG_\<close> macro of a level that the build leaves out is \<open>((void)0)\<close>.\<close>

definition log_macro :: "LogLevel \<Rightarrow> LogLevel \<Rightarrow> (logger \<Rightarrow> logger) \<Rightarrow> logger \<Rightarrow> logger" where
  "log_macro compiled level f l = (if LogLevel_value compiled \<le> LogLevel_value level then f l else l)"

section \<open>Lemmas\<close>

lemma StringToLogLevel_names:
  "StringToLogLevel (Some (LogLevelToString level)) = level \<longleftrightarrow> level \<notin> {WARN, NONE}"
  by (cases level) (simp_all add: StringToLogLevel_def)

text \<open>The level never falls below the one compiled in, whatever the environment says.\<close>

lemma Logger_Initialize_level:
  "lg_min_level (Logger_Initialize getenv opens compiled log_file enable_console l) =
     (case (case getenv ''RUNTIME_LOG_LEVEL'' of None \<Rightarrow> getenv ''LOG_LEVEL'' | Some v \<Rightarrow> Some v) of
        None \<Rightarrow> compiled
      | Some v \<Rightarrow> max compiled (StringToLogLevel (Some v)))"
  by (auto simp: Logger_Initialize_def Let_def max_def not_less not_le less_imp_le split: option.splits)

lemma Logger_compiled_bound:
  "compiled \<le> lg_min_level (Logger_Initialize getenv opens compiled log_file enable_console l)"
  by (simp add: Logger_Initialize_level split: option.splits)

text \<open>
  A message of a sufficient level goes to exactly one console stream, the error stream from
  \<open>ERROR\<close> on; a lower one changes nothing.
\<close>

lemma Logger_Log_streams:
  assumes "lg_min_level l \<le> level" and "lg_console_enabled l"
    and "line = log_line timestamp level category message"
  shows "lg_stderr (Logger_Log timestamp level category message l) =
      lg_stderr l @ (if ERROR \<le> level then [line] else []) \<and>
    lg_stdout (Logger_Log timestamp level category message l) =
      lg_stdout l @ (if ERROR \<le> level then [] else [line])"
  using assms by (auto simp: Logger_Log_def Let_def)

lemma Logger_Log_below: "level < lg_min_level l \<Longrightarrow> Logger_Log timestamp level category message l = l"
  by (simp add: Logger_Log_def)

text \<open>\<open>NONE\<close> is above every level that a macro logs with, so it silences all of them.\<close>

lemma NONE_silences: "lg_min_level l = NONE \<Longrightarrow> level \<noteq> NONE \<Longrightarrow> Logger_Log timestamp level category message l = l"
  by (cases level) (simp_all add: Logger_Log_def less_LogLevel_def)

text \<open>Without \<open>Initialize\<close> the level is \<open>INFO\<close>, below what a release build announces.\<close>

lemma uninitialised_level: "Logger_Log t DEBUG c m Logger_default = Logger_default"
  by (simp add: Logger_Log_def Logger_default_def less_LogLevel_def)

text \<open>
  A message is written in order or not at all: a call of \<open>Log\<close> appends the one line of its
  message to exactly one of the two console streams (the error stream from \<open>ERROR\<close> on) when the
  console is enabled, and to the file when that is enabled and usable, provided its level reaches
  the minimum; below it nothing changes. After \<open>Initialize\<close> the minimum is the larger of the level
  compiled in and the level of the environment, so that no environment lowers it.
\<close>

theorem log_lines:
  "(let line = log_line timestamp level category message; l' = Logger_Log timestamp level category message l;
        on = (lg_min_level l \<le> level);
        added = (\<lambda>c. if on \<and> c then [line] else [])
    in lg_stderr l' = lg_stderr l @ added (lg_console_enabled l \<and> ERROR \<le> level)
     \<and> lg_stdout l' = lg_stdout l @ added (lg_console_enabled l \<and> level < ERROR)
     \<and> lg_file l' = lg_file l @ added (lg_file_enabled l \<and> lg_file_open l \<and> \<not> lg_file_failed l)
     \<and> lg_min_level l' = lg_min_level l)
   \<and> lg_min_level (Logger_Initialize getenv opens compiled log_file enable_console l) =
       max compiled (case getenv ''RUNTIME_LOG_LEVEL'' of
         Some v \<Rightarrow> StringToLogLevel (Some v)
       | None \<Rightarrow> (case getenv ''LOG_LEVEL'' of Some v \<Rightarrow> StringToLogLevel (Some v) | None \<Rightarrow> compiled))"
proof -
  have "lg_min_level l \<le> level \<longleftrightarrow> \<not> level < lg_min_level l" "level < ERROR \<longleftrightarrow> \<not> ERROR \<le> level"
    by (simp_all add: not_less not_le)
  then show ?thesis
    by (cases "level < lg_min_level l"; cases "ERROR \<le> level")
      (simp_all add: Logger_Log_def Logger_Initialize_level Let_def split: option.splits)
qed

end
