(* ===== verification/File_System.thy ===== *)
theory File_System
  imports Prelude
begin

text \<open>
  The part of \<open>std::filesystem\<close> and of the file streams that the key service and the resource
  loader use: regular files with their content and owner permission, and directories. Files are
  kept under their resolved path; how the system resolves a path (the working directory, \<open>..\<close>,
  links) is the function \<open>fs_resolve\<close>. A call may throw \<open>filesystem_error\<close>, fail, or write only
  a part; \<open>faults\<close> says which.
\<close>

datatype file_mode = Read_write | Read_only

record file_system =
  fs_resolve :: "string \<Rightarrow> string"
  fs_files :: "string \<rightharpoonup> file_mode \<times> string"
  fs_dirs :: "string set"

datatype fs_call =
    Exists_call string | Is_regular_call string | Create_call string | Permissions_call string
  | Open_read_call string | Open_write_call string | Read_call string | Remove_call string
  | Absolute_call string

record fs_faults =
  ff_throws :: "fs_call \<Rightarrow> string option"
  ff_fails :: "fs_call \<Rightarrow> bool"
  ff_partial :: "string \<Rightarrow> nat option"

definition no_faults :: fs_faults where
  "no_faults = \<lparr>ff_throws = \<lambda>_. None, ff_fails = \<lambda>_. False, ff_partial = \<lambda>_. None\<rparr>"

definition fs_call :: "fs_faults \<Rightarrow> fs_call \<Rightarrow> 'a \<Rightarrow> exn + 'a" where
  "fs_call faults c x = (case ff_throws faults c of Some what \<Rightarrow> Inl (Runtime_error what) | None \<Rightarrow> Inr x)"

text \<open>\<open>a / b\<close>: an absolute \<open>b\<close> replaces \<open>a\<close>.\<close>

definition is_absolute :: "string \<Rightarrow> bool" where
  "is_absolute p \<longleftrightarrow> p \<noteq> [] \<and> hd p = CHR ''/''"

definition path_join :: "string \<Rightarrow> string \<Rightarrow> string" where
  "path_join a b =
     (if is_absolute b then b
      else if a = [] \<or> last a = CHR ''/'' then a @ b
      else a @ CHR ''/'' # b)"

definition fs_exists :: "fs_faults \<Rightarrow> string \<Rightarrow> file_system \<Rightarrow> exn + bool" where
  "fs_exists faults p fs =
     fs_call faults (Exists_call p) (fs_files fs (fs_resolve fs p) \<noteq> None \<or> fs_resolve fs p \<in> fs_dirs fs)"

definition fs_is_regular_file :: "fs_faults \<Rightarrow> string \<Rightarrow> file_system \<Rightarrow> exn + bool" where
  "fs_is_regular_file faults p fs =
     fs_call faults (Is_regular_call p) (fs_files fs (fs_resolve fs p) \<noteq> None)"

definition fs_create_directories :: "fs_faults \<Rightarrow> string \<Rightarrow> file_system \<Rightarrow> exn + bool \<times> file_system" where
  "fs_create_directories faults p fs =
     fs_call faults (Create_call p)
       (if ff_fails faults (Create_call p) then (False, fs)
        else (True, fs\<lparr>fs_dirs := insert (fs_resolve fs p) (fs_dirs fs)\<rparr>))"

definition fs_permissions :: "fs_faults \<Rightarrow> string \<Rightarrow> file_mode \<Rightarrow> file_system \<Rightarrow> exn + file_system" where
  "fs_permissions faults p mode fs =
     fs_call faults (Permissions_call p)
       (case fs_files fs (fs_resolve fs p) of
          None \<Rightarrow> fs
        | Some (_, content) \<Rightarrow> fs\<lparr>fs_files := (fs_files fs)(fs_resolve fs p \<mapsto> (mode, content))\<rparr>)"

definition fs_remove :: "fs_faults \<Rightarrow> string \<Rightarrow> file_system \<Rightarrow> exn + file_system" where
  "fs_remove faults p fs =
     fs_call faults (Remove_call p) (fs\<lparr>fs_files := (fs_files fs)(fs_resolve fs p := None)\<rparr>)"

text \<open>
  Opening a stream: for writing it creates or truncates, and needs the permission on a file that
  exists; a directory cannot be written.
\<close>

definition open_write :: "fs_faults \<Rightarrow> string \<Rightarrow> file_system \<Rightarrow> file_system option" where
  "open_write faults p fs =
     (let q = fs_resolve fs p
      in if ff_fails faults (Open_write_call p) \<or> q \<in> fs_dirs fs then None
         else case fs_files fs q of
                Some (Read_only, _) \<Rightarrow> None
              | _ \<Rightarrow> Some (fs\<lparr>fs_files := (fs_files fs)(q \<mapsto> (Read_write, []))\<rparr>))"

definition write_file :: "fs_faults \<Rightarrow> string \<Rightarrow> string \<Rightarrow> file_system \<Rightarrow> file_system" where
  "write_file faults p data fs =
     (let written = (case ff_partial faults p of None \<Rightarrow> data | Some n \<Rightarrow> take n data)
      in fs\<lparr>fs_files := (fs_files fs)(fs_resolve fs p \<mapsto> (Read_write, written))\<rparr>)"

text \<open>
  Opening for reading succeeds on a directory too, but reading it throws; a file is read whole.
\<close>

definition open_read :: "fs_faults \<Rightarrow> string \<Rightarrow> file_system \<Rightarrow> bool" where
  "open_read faults p fs \<longleftrightarrow>
     \<not> ff_fails faults (Open_read_call p) \<and>
     (fs_files fs (fs_resolve fs p) \<noteq> None \<or> fs_resolve fs p \<in> fs_dirs fs)"

definition read_file :: "fs_faults \<Rightarrow> string \<Rightarrow> file_system \<Rightarrow> exn + string" where
  "read_file faults p fs =
     (case fs_files fs (fs_resolve fs p) of
        None \<Rightarrow> Inl (Runtime_error ''basic_filebuf::underflow error reading the file: Is a directory'')
      | Some (_, content) \<Rightarrow> fs_call faults (Read_call p) content)"

lemma fs_call_no_faults [simp]: "fs_call no_faults c x = Inr x"
  by (simp add: fs_call_def no_faults_def)

lemma no_faults_simps [simp]:
  "ff_fails no_faults c = False" "ff_partial no_faults p = None"
  by (simp_all add: no_faults_def)

lemma fs_call_Inr_iff: "fs_call faults c x = Inr y \<longleftrightarrow> ff_throws faults c = None \<and> x = y"
  by (auto simp: fs_call_def split: option.splits)

text \<open>A file system is well formed when no path is both a file and a directory.\<close>

definition fs_wf :: "file_system \<Rightarrow> bool" where
  "fs_wf fs \<longleftrightarrow> (\<forall>q \<in> fs_dirs fs. fs_files fs q = None)"

end
