(* ===== verification/Kms.thy ===== *)
theory Kms
  imports File_System Basic_Types
begin

text \<open>
  The key management service: \<open>IKeyManagementService.hpp\<close>, the implementation on the local file
  system (\<open>LocalKMS.cpp\<close>), the four cloud implementations, which only throw, and the process-wide
  instance of \<open>KMSManager.hpp\<close>. Every operation of \<open>LocalKMS\<close> holds \<open>storage_mutex\<close> from its
  first line to its return, so it is one step of the state.
\<close>

section \<open>The local service\<close>

record local_kms =
  lk_storage_path :: string
  lk_is_initialized :: bool

definition LocalKMS :: "string \<Rightarrow> local_kms" where
  "LocalKMS path = \<lparr>lk_storage_path = path, lk_is_initialized = False\<rparr>"

definition LocalKMS_IsInitialized :: "local_kms \<Rightarrow> bool" where
  "LocalKMS_IsInitialized k = lk_is_initialized k"

definition LocalKMS_Initialize ::
  "fs_faults \<Rightarrow> local_kms \<Rightarrow> file_system \<Rightarrow> bool \<times> local_kms \<times> file_system" where
  "LocalKMS_Initialize faults k fs =
     (if lk_is_initialized k then (True, k, fs)
      else case fs_exists faults (lk_storage_path k) fs of
        Inl _ \<Rightarrow> (False, k, fs)
      | Inr True \<Rightarrow> (True, k\<lparr>lk_is_initialized := True\<rparr>, fs)
      | Inr False \<Rightarrow>
          (case fs_create_directories faults (lk_storage_path k) fs of
             Inl _ \<Rightarrow> (False, k, fs)
           | Inr (False, fs') \<Rightarrow> (False, k, fs')
           | Inr (True, fs') \<Rightarrow> (True, k\<lparr>lk_is_initialized := True\<rparr>, fs')))"

definition not_initialized :: "exn + 'a" where
  "not_initialized = Inl (KMSException ''LocalKMS is not initialized'')"

text \<open>The file of a key as \<open>PutSecret\<close>, \<open>SecretExists\<close> and \<open>DeleteSecret\<close> name it.\<close>

definition key_file :: "local_kms \<Rightarrow> string \<Rightarrow> string" where
  "key_file k key = path_join (lk_storage_path k) (key @ ''.key'')"

text \<open>
  The body of the \<open>try\<close> block of \<open>PutSecret\<close>, as the file system it leaves and its result; an
  exception keeps what was done before it. Neither \<open>write\<close> nor \<open>close\<close> is checked.
\<close>

definition put_body :: "fs_faults \<Rightarrow> string \<Rightarrow> string \<Rightarrow> file_system \<Rightarrow> (exn + bool) \<times> file_system" where
  "put_body faults p value fs =
     (case fs_exists faults p fs of
        Inl e \<Rightarrow> (Inl e, fs)
      | Inr ex \<Rightarrow>
          (case (if ex then fs_permissions faults p Read_write fs else Inr fs) of
             Inl e \<Rightarrow> (Inl e, fs)
           | Inr fs1 \<Rightarrow>
               (case open_write faults p fs1 of
                  None \<Rightarrow> (Inr False, fs1)
                | Some fs2 \<Rightarrow>
                    let fs3 = write_file faults p value fs2
                    in case fs_permissions faults p Read_only fs3 of
                         Inl e \<Rightarrow> (Inl e, fs3)
                       | Inr fs4 \<Rightarrow> (Inr True, fs4))))"

definition LocalKMS_PutSecret ::
  "fs_faults \<Rightarrow> local_kms \<Rightarrow> string \<Rightarrow> string \<Rightarrow> file_system \<Rightarrow> (exn + bool) \<times> file_system" where
  "LocalKMS_PutSecret faults k key value fs =
     (if \<not> lk_is_initialized k then (not_initialized, fs)
      else case put_body faults (key_file k key) value fs of
             (Inl _, fs') \<Rightarrow> (Inr False, fs')
           | (Inr ok, fs') \<Rightarrow> (Inr ok, fs'))"

text \<open>\<open>GetSecret\<close> reads the file of the key itself, without the suffix.\<close>

definition get_body :: "fs_faults \<Rightarrow> string \<Rightarrow> string \<Rightarrow> file_system \<Rightarrow> exn + string" where
  "get_body faults key p fs =
     (if \<not> open_read faults p fs then Inl (KMSException (''Failed to open secret file: '' @ key))
      else read_file faults p fs)"

definition LocalKMS_GetSecret :: "fs_faults \<Rightarrow> local_kms \<Rightarrow> string \<Rightarrow> file_system \<Rightarrow> exn + string" where
  "LocalKMS_GetSecret faults k key fs =
     (if \<not> lk_is_initialized k then not_initialized
      else let p = path_join (lk_storage_path k) key
           in exn_bind (fs_exists faults p fs) (\<lambda>ex.
                if \<not> ex then Inl (SecretNotFoundException (''Secret not found: '' @ key))
                else case get_body faults key p fs of
                       Inr value \<Rightarrow> Inr value
                     | Inl e \<Rightarrow> Inl (KMSException (''Failed to read secret '' @ quoted key @ '': '' @ exn_what e))))"

definition LocalKMS_SecretExists :: "fs_faults \<Rightarrow> local_kms \<Rightarrow> string \<Rightarrow> file_system \<Rightarrow> exn + bool" where
  "LocalKMS_SecretExists faults k key fs =
     (if \<not> lk_is_initialized k then not_initialized else fs_exists faults (key_file k key) fs)"

definition LocalKMS_DeleteSecret ::
  "fs_faults \<Rightarrow> local_kms \<Rightarrow> string \<Rightarrow> file_system \<Rightarrow> (exn + bool) \<times> file_system" where
  "LocalKMS_DeleteSecret faults k key fs =
     (if \<not> lk_is_initialized k then (not_initialized, fs)
      else let p = key_file k key
           in case fs_exists faults p fs of
                Inl e \<Rightarrow> (Inl e, fs)
              | Inr False \<Rightarrow> (Inr False, fs)
              | Inr True \<Rightarrow>
                  (case fs_permissions faults p Read_write fs of
                     Inl _ \<Rightarrow> (Inr False, fs)
                   | Inr fs1 \<Rightarrow>
                       (case fs_remove faults p fs1 of
                          Inl _ \<Rightarrow> (Inr False, fs1)
                        | Inr fs2 \<Rightarrow> (Inr True, fs2))))"

section \<open>The cloud services\<close>

text \<open>
  The four stubs: every operation prints and throws, and none is ever initialised. A service is
  one of the five classes; the operations dispatch as the virtual calls do.
\<close>

datatype cloud = Aws | Azure | Ibm | Google

fun cloud_error :: "cloud \<Rightarrow> exn" where
  "cloud_error Aws = Runtime_error ''AWS KMS not implemented yet (Phase 9)''"
| "cloud_error Azure = Runtime_error ''Azure Key Vault not implemented yet (Phase 9)''"
| "cloud_error Ibm = Runtime_error ''IBM Secrets Manager not implemented yet (Phase 9)''"
| "cloud_error Google = Runtime_error ''Google Secret Manager not implemented yet (Phase 9)''"

definition AwsKMS_operation :: "exn + 'a" where "AwsKMS_operation = Inl (cloud_error Aws)"
definition AzureKMS_operation :: "exn + 'a" where "AzureKMS_operation = Inl (cloud_error Azure)"
definition IbmKMS_operation :: "exn + 'a" where "IbmKMS_operation = Inl (cloud_error Ibm)"
definition GoogleKMS_operation :: "exn + 'a" where "GoogleKMS_operation = Inl (cloud_error Google)"

fun cloud_operation :: "cloud \<Rightarrow> exn + 'a" where
  "cloud_operation Aws = AwsKMS_operation"
| "cloud_operation Azure = AzureKMS_operation"
| "cloud_operation Ibm = IbmKMS_operation"
| "cloud_operation Google = GoogleKMS_operation"

datatype kms_service = Local_service local_kms | Cloud_service cloud

fun KMS_Initialize :: "fs_faults \<Rightarrow> kms_service \<Rightarrow> file_system \<Rightarrow> (exn + bool) \<times> kms_service \<times> file_system" where
  "KMS_Initialize faults (Local_service k) fs =
     (let (ok, k', fs') = LocalKMS_Initialize faults k fs in (Inr ok, Local_service k', fs'))"
| "KMS_Initialize faults (Cloud_service c) fs = (cloud_operation c, Cloud_service c, fs)"

fun KMS_IsInitialized :: "kms_service \<Rightarrow> bool" where
  "KMS_IsInitialized (Local_service k) = LocalKMS_IsInitialized k"
| "KMS_IsInitialized (Cloud_service c) = False"

fun KMS_GetSecret :: "fs_faults \<Rightarrow> kms_service \<Rightarrow> string \<Rightarrow> file_system \<Rightarrow> exn + string" where
  "KMS_GetSecret faults (Local_service k) key fs = LocalKMS_GetSecret faults k key fs"
| "KMS_GetSecret faults (Cloud_service c) key fs = cloud_operation c"

fun KMS_PutSecret ::
  "fs_faults \<Rightarrow> kms_service \<Rightarrow> string \<Rightarrow> string \<Rightarrow> file_system \<Rightarrow> (exn + bool) \<times> file_system" where
  "KMS_PutSecret faults (Local_service k) key value fs = LocalKMS_PutSecret faults k key value fs"
| "KMS_PutSecret faults (Cloud_service c) key value fs = (cloud_operation c, fs)"

fun KMS_DeleteSecret :: "fs_faults \<Rightarrow> kms_service \<Rightarrow> string \<Rightarrow> file_system \<Rightarrow> (exn + bool) \<times> file_system" where
  "KMS_DeleteSecret faults (Local_service k) key fs = LocalKMS_DeleteSecret faults k key fs"
| "KMS_DeleteSecret faults (Cloud_service c) key fs = (cloud_operation c, fs)"

fun KMS_SecretExists :: "fs_faults \<Rightarrow> kms_service \<Rightarrow> string \<Rightarrow> file_system \<Rightarrow> exn + bool" where
  "KMS_SecretExists faults (Local_service k) key fs = LocalKMS_SecretExists faults k key fs"
| "KMS_SecretExists faults (Cloud_service c) key fs = cloud_operation c"

section \<open>The manager\<close>

text \<open>
  The static members. \<open>std::call_once\<close> runs its function unless a run has completed; a run that
  throws leaves the flag as it was, and what it stored stays stored. The result of the service's
  \<open>Initialize\<close> is not looked at. \<open>km_once\<close> is the flag.
\<close>

record kms_manager =
  km_instance :: "kms_service option"
  km_once :: bool
  km_current_platform :: PlatformType

definition KMSManager_start :: kms_manager where
  "KMSManager_start = \<lparr>km_instance = None, km_once = False, km_current_platform = UNKNOWN\<rparr>"

fun make_service :: "PlatformType \<Rightarrow> exn + kms_service" where
  "make_service LOCAL = Inr (Local_service (LocalKMS ''./kms''))"
| "make_service AWS = Inr (Cloud_service Aws)"
| "make_service AZURE = Inr (Cloud_service Azure)"
| "make_service IBM = Inr (Cloud_service Ibm)"
| "make_service GOOGLE = Inr (Cloud_service Google)"
| "make_service UNKNOWN = Inl (Invalid_argument ''Unsupported KMS platform'')"

definition start_service ::
  "fs_faults \<Rightarrow> kms_service \<Rightarrow> kms_manager \<Rightarrow> file_system \<Rightarrow> (exn + unit) \<times> kms_manager \<times> file_system" where
  "start_service faults svc m fs =
     (let (r, svc', fs') = KMS_Initialize faults svc fs;
          m' = m\<lparr>km_instance := Some svc'\<rparr>
      in case r of
           Inl e \<Rightarrow> (Inl e, m', fs')
         | Inr _ \<Rightarrow> (Inr (), m'\<lparr>km_once := True\<rparr>, fs'))"

definition KMSManager_Initialize ::
  "fs_faults \<Rightarrow> PlatformType \<Rightarrow> kms_manager \<Rightarrow> file_system \<Rightarrow> (exn + unit) \<times> kms_manager \<times> file_system" where
  "KMSManager_Initialize faults platform m fs =
     (if km_once m then (Inr (), m, fs)
      else let m = m\<lparr>km_current_platform := platform\<rparr>
           in case make_service platform of
                Inl e \<Rightarrow> (Inl e, m, fs)
              | Inr svc \<Rightarrow> start_service faults svc m fs)"

text \<open>With assertions compiled in, another platform than \<open>LOCAL\<close> aborts the process (\<open>None\<close>).\<close>

definition KMSManager_InitializeLocal ::
  "bool \<Rightarrow> fs_faults \<Rightarrow> PlatformType \<Rightarrow> string \<Rightarrow> kms_manager \<Rightarrow> file_system
     \<Rightarrow> ((exn + unit) \<times> kms_manager \<times> file_system) option" where
  "KMSManager_InitializeLocal assertions faults platform config_path m fs =
     (if assertions \<and> platform \<noteq> LOCAL then None
      else if km_once m then Some (Inr (), m, fs)
      else Some (start_service faults (Local_service (LocalKMS config_path))
                   (m\<lparr>km_current_platform := platform\<rparr>) fs))"

definition KMSManager_Instance :: "kms_manager \<Rightarrow> exn + kms_service" where
  "KMSManager_Instance m =
     (case km_instance m of
        None \<Rightarrow> Inl (Runtime_error ''KMSManager not initialized'')
      | Some svc \<Rightarrow> Inr svc)"

section \<open>What the local service keeps\<close>

lemma fs_permissions_Inr:
  "fs_permissions faults p mode fs = Inr fs' \<Longrightarrow>
   fs_resolve fs' = fs_resolve fs \<and> fs_dirs fs' = fs_dirs fs \<and>
   fs_files fs' = (case fs_files fs (fs_resolve fs p) of None \<Rightarrow> fs_files fs
                   | Some (_, content) \<Rightarrow> (fs_files fs)(fs_resolve fs p \<mapsto> (mode, content)))"
  by (auto simp: fs_permissions_def fs_call_Inr_iff split: option.splits)

text \<open>A successful \<open>PutSecret\<close> leaves the file with what was written, read only, and nothing else.\<close>

definition stored :: "fs_faults \<Rightarrow> string \<Rightarrow> string \<Rightarrow> string" where
  "stored faults p value = (case ff_partial faults p of None \<Rightarrow> value | Some n \<Rightarrow> take n value)"

lemma put_body_True:
  assumes "put_body faults p value fs = (Inr True, fs')"
  shows "fs_resolve fs' = fs_resolve fs \<and> fs_dirs fs' = fs_dirs fs \<and> fs_resolve fs p \<notin> fs_dirs fs \<and>
    fs_files fs' = (fs_files fs)(fs_resolve fs p \<mapsto> (Read_only, stored faults p value))"
proof -
  from assms obtain ex fs1 where ex: "fs_exists faults p fs = Inr ex"
    and fs1: "(if ex then fs_permissions faults p Read_write fs else Inr fs) = Inr fs1"
    by (auto simp: put_body_def split: sum.splits)
  define q where "q = fs_resolve fs p"
  from fs1 have f1: "fs_resolve fs1 = fs_resolve fs" "fs_dirs fs1 = fs_dirs fs"
    "fs_files fs1 = fs_files fs \<or> (\<exists>x. fs_files fs1 = (fs_files fs)(q \<mapsto> x))"
    using fs_permissions_Inr [of faults p Read_write fs fs1]
    by (cases "fs_files fs q"; auto simp: q_def split: if_splits)+
  from assms ex fs1 obtain fs2 where o: "open_write faults p fs1 = Some fs2"
    and r: "fs_permissions faults p Read_only (write_file faults p value fs2) = Inr fs'"
    by (auto simp: put_body_def Let_def split: sum.splits option.splits)
  from o have "fs2 = fs1\<lparr>fs_files := (fs_files fs1)(fs_resolve fs1 p \<mapsto> (Read_write, []))\<rparr>"
    and "fs_resolve fs1 p \<notin> fs_dirs fs1"
    by (auto simp: open_write_def Let_def split: if_splits option.splits file_mode.splits)
  with f1 have f2: "fs_resolve fs2 = fs_resolve fs" "fs_dirs fs2 = fs_dirs fs" "q \<notin> fs_dirs fs"
    "fs_files fs2 = (fs_files fs)(q \<mapsto> (Read_write, []))"
    by (auto simp: q_def)
  with fs_permissions_Inr [OF r] show ?thesis
    by (simp add: write_file_def Let_def stored_def q_def)
qed

lemma PutSecret_True:
  assumes "LocalKMS_PutSecret faults k key value fs = (Inr True, fs')"
  shows "lk_is_initialized k \<and> put_body faults (key_file k key) value fs = (Inr True, fs')"
  using assms by (auto simp: LocalKMS_PutSecret_def not_initialized_def split: if_splits sum.splits prod.splits)

lemma GetSecret_no_faults:
  assumes "lk_is_initialized k"
  shows "LocalKMS_GetSecret no_faults k key fs =
    (let q = fs_resolve fs (path_join (lk_storage_path k) key)
     in case fs_files fs q of
          Some (_, content) \<Rightarrow> Inr content
        | None \<Rightarrow> if q \<in> fs_dirs fs
            then Inl (KMSException (''Failed to read secret '' @ quoted key @ '': '' @
                   ''basic_filebuf::underflow error reading the file: Is a directory''))
            else Inl (SecretNotFoundException (''Secret not found: '' @ key)))"
  using assms
  by (auto simp: LocalKMS_GetSecret_def fs_exists_def get_body_def open_read_def read_file_def Let_def
      split: option.splits)

lemma SecretExists_no_faults:
  assumes "lk_is_initialized k"
  shows "LocalKMS_SecretExists no_faults k key fs =
    Inr (fs_files fs (fs_resolve fs (key_file k key)) \<noteq> None \<or> fs_resolve fs (key_file k key) \<in> fs_dirs fs)"
  using assms by (simp add: LocalKMS_SecretExists_def fs_exists_def)

lemma DeleteSecret_no_faults:
  assumes "lk_is_initialized k" and "fs_files fs (fs_resolve fs (key_file k key)) = Some x"
  shows "LocalKMS_DeleteSecret no_faults k key fs =
    (Inr True, fs\<lparr>fs_files := (fs_files fs)(fs_resolve fs (key_file k key) := None)\<rparr>)"
  using assms
  by (auto simp: LocalKMS_DeleteSecret_def fs_exists_def Let_def fs_permissions_def fs_remove_def
      split: prod.splits)

text \<open>The file of a key is the file that \<open>GetSecret\<close> reads for the key with its suffix.\<close>

lemma key_file_get: "path_join (lk_storage_path k) (key @ ''.key'') = key_file k key"
  by (simp add: key_file_def)

text \<open>What a failed \<open>PutSecret\<close> may leave: an opened file was truncated first.\<close>

lemma put_then_permission_lost:
  assumes "lk_is_initialized k" and "fs_files fs (fs_resolve fs (key_file k key)) = None"
    and "fs_resolve fs (key_file k key) \<notin> fs_dirs fs"
    and "faults = no_faults\<lparr>ff_throws := \<lambda>c. case c of Permissions_call p \<Rightarrow> Some ''denied'' | _ \<Rightarrow> None\<rparr>"
  shows "\<exists>fs'. LocalKMS_PutSecret faults k key value fs = (Inr False, fs') \<and>
    fs_files fs' (fs_resolve fs (key_file k key)) = Some (Read_write, value)"
  using assms
  by (auto simp: LocalKMS_PutSecret_def put_body_def fs_exists_def fs_call_def no_faults_def
      open_write_def Let_def write_file_def fs_permissions_def)

text \<open>An absolute key names a file outside the storage directory.\<close>

lemma absolute_key_escapes: "is_absolute key \<Longrightarrow> path_join dir key = key"
  by (simp add: path_join_def)

text \<open>
  The managers: a cloud platform throws, but its service stays installed and the next call runs
  the set-up again; a local service that could not be initialised is installed silently.
\<close>

lemma cloud_platform_throws:
  assumes "\<not> km_once m" and "make_service platform = Inr (Cloud_service c)"
  shows "KMSManager_Initialize faults platform m fs =
    (Inl (cloud_error c), m\<lparr>km_instance := Some (Cloud_service c), km_current_platform := platform\<rparr>, fs)"
  using assms
  by (cases c) (simp_all add: KMSManager_Initialize_def start_service_def AwsKMS_operation_def
      AzureKMS_operation_def IbmKMS_operation_def GoogleKMS_operation_def)

lemma unusable_service_is_installed:
  assumes "\<not> km_once m" and "fs_exists faults path fs = Inl e"
  shows "\<exists>m' fs'. KMSManager_InitializeLocal assertions faults LOCAL path m fs = Some (Inr (), m', fs') \<and>
    km_once m' \<and> KMSManager_Instance m' = Inr (Local_service (LocalKMS path)) \<and>
    KMS_GetSecret no_faults (Local_service (LocalKMS path)) key fs' = not_initialized"
  using assms
  by (simp add: KMSManager_InitializeLocal_def start_service_def LocalKMS_Initialize_def LocalKMS_def
      KMSManager_Instance_def LocalKMS_GetSecret_def)

section \<open>Property\<close>

text \<open>
  C40. The life of a secret in the local service. When \<open>PutSecret\<close> returns true, whatever
  faults occurred, \<open>SecretExists\<close> of the key is true; the value is what \<open>GetSecret\<close> returns for
  the key with the suffix \<open>.key\<close>, and only if the stream took all of it; every other name whose
  path does not lead to that file reads as before, in particular the key itself; and
  \<open>DeleteSecret\<close> then succeeds, after which the secret is not found.
\<close>

theorem kms_secret_lifecycle:
  assumes put: "LocalKMS_PutSecret faults k key value fs = (Inr True, fs')"
  shows "LocalKMS_SecretExists no_faults k key fs' = Inr True \<and>
    LocalKMS_GetSecret no_faults k (key @ ''.key'') fs' = Inr (stored faults (key_file k key) value) \<and>
    (\<forall>name. fs_resolve fs (path_join (lk_storage_path k) name) \<noteq> fs_resolve fs (key_file k key) \<longrightarrow>
       LocalKMS_GetSecret no_faults k name fs' = LocalKMS_GetSecret no_faults k name fs) \<and>
    (\<exists>fs''. LocalKMS_DeleteSecret no_faults k key fs' = (Inr True, fs'') \<and>
       LocalKMS_SecretExists no_faults k key fs'' = Inr False \<and>
       LocalKMS_GetSecret no_faults k (key @ ''.key'') fs'' =
         Inl (SecretNotFoundException (''Secret not found: '' @ key @ ''.key'')))"
proof -
  from PutSecret_True [OF put] have i: "lk_is_initialized k"
    and b: "put_body faults (key_file k key) value fs = (Inr True, fs')" by simp_all
  from put_body_True [OF b] have
    f: "fs_resolve fs' = fs_resolve fs" "fs_dirs fs' = fs_dirs fs" "fs_resolve fs (key_file k key) \<notin> fs_dirs fs"
    and c: "fs_files fs' = (fs_files fs)(fs_resolve fs (key_file k key) \<mapsto>
      (Read_only, stored faults (key_file k key) value))" by simp_all
  then have "fs_files fs' (fs_resolve fs' (key_file k key)) = Some (Read_only, stored faults (key_file k key) value)"
    by simp
  from DeleteSecret_no_faults [OF i this] show ?thesis
    using f c i
    by (simp add: SecretExists_no_faults GetSecret_no_faults key_file_get Let_def)
qed

text \<open>A witness: a file system that resolves every path to itself.\<close>

definition demo_fs :: file_system where
  "demo_fs = \<lparr>fs_resolve = \<lambda>p. p, fs_files = Map.empty, fs_dirs = {''./kms''}\<rparr>"

definition demo_kms :: local_kms where
  "demo_kms = (LocalKMS ''./kms'')\<lparr>lk_is_initialized := True\<rparr>"

lemma demo_put:
  "LocalKMS_PutSecret no_faults demo_kms ''tls'' ''secret'' demo_fs =
     (Inr True, demo_fs\<lparr>fs_files := [''./kms/tls.key'' \<mapsto> (Read_only, ''secret'')]\<rparr>)"
  by (simp add: LocalKMS_PutSecret_def put_body_def fs_exists_def demo_fs_def demo_kms_def LocalKMS_def key_file_def
      path_join_def is_absolute_def open_write_def write_file_def fs_permissions_def Let_def)

lemma kms_secret_lifecycle_witness:
  "LocalKMS_GetSecret no_faults demo_kms ''tls.key'' (snd (LocalKMS_PutSecret no_faults demo_kms ''tls'' ''secret'' demo_fs)) =
     Inr ''secret'' \<and>
   LocalKMS_GetSecret no_faults demo_kms ''tls'' (snd (LocalKMS_PutSecret no_faults demo_kms ''tls'' ''secret'' demo_fs)) =
     Inl (SecretNotFoundException ''Secret not found: tls'')"
proof -
  note w = kms_secret_lifecycle [OF demo_put]
  have "fs_resolve demo_fs (path_join (lk_storage_path demo_kms) ''tls'') \<noteq> fs_resolve demo_fs (key_file demo_kms ''tls'')"
    by (simp add: demo_fs_def demo_kms_def LocalKMS_def key_file_def path_join_def is_absolute_def)
  moreover have "LocalKMS_GetSecret no_faults demo_kms ''tls'' demo_fs =
      Inl (SecretNotFoundException ''Secret not found: tls'')"
    by (simp add: GetSecret_no_faults demo_fs_def demo_kms_def LocalKMS_def path_join_def is_absolute_def)
  ultimately show ?thesis
    using w by (simp add: demo_put stored_def)
qed

end
