(* ===== verification/Resource_Loader.thy ===== *)
theory Resource_Loader
  imports File_System Basic_Types
begin

text \<open>
  The read-only resources: \<open>IReadOnlyResLoader.hpp\<close>, the loader on the local file system
  (\<open>LocalReadOnlyResLoader.cpp\<close>), the four cloud loaders, which are never initialised and throw,
  and the process-wide manager (\<open>ReadOnlyResLoaderManager.cpp\<close>).
\<close>

section \<open>The local loader\<close>

text \<open>
  A relative path is taken from the working directory, which may throw; \<open>cwd\<close> is that directory
  without the slash it starts with.
\<close>

definition NormalizePath :: "fs_faults \<Rightarrow> string \<Rightarrow> string \<Rightarrow> exn + string" where
  "NormalizePath faults cwd path =
     (if is_absolute path then Inr path
      else case fs_call faults (Absolute_call path) (path_join (CHR ''/'' # cwd) path) of
        Inl e \<Rightarrow> Inl (Runtime_error (''Failed to normalize path: '' @ path @ '' - '' @ exn_what e))
      | Inr p \<Rightarrow> Inr p)"

text \<open>
  \<open>Exists\<close> catches \<open>filesystem_error\<close>, which the two queries throw; the \<open>runtime_error\<close> of
  \<open>NormalizePath\<close> passes through.
\<close>

definition Local_Exists :: "fs_faults \<Rightarrow> string \<Rightarrow> string \<Rightarrow> file_system \<Rightarrow> exn + bool" where
  "Local_Exists faults cwd path fs =
     exn_bind (NormalizePath faults cwd path) (\<lambda>p.
       case exn_bind (fs_exists faults p fs)
              (\<lambda>ex. if \<not> ex then Inr False else fs_is_regular_file faults p fs) of
         Inl _ \<Rightarrow> Inr False
       | Inr b \<Rightarrow> Inr b)"

text \<open>
  \<open>ReadFile\<close> inserts the file's buffer into a \<open>stringstream\<close>: an error while reading ends the
  insertion and marks the \<open>stringstream\<close>, not \<open>file\<close>, whose \<open>bad()\<close> is then still false.
\<close>

definition Local_ReadFile :: "fs_faults \<Rightarrow> string \<Rightarrow> string \<Rightarrow> file_system \<Rightarrow> exn + string" where
  "Local_ReadFile faults cwd path fs =
     exn_bind (NormalizePath faults cwd path) (\<lambda>p.
     exn_bind (Local_Exists faults cwd p fs) (\<lambda>ex.
       if \<not> ex then Inl (Runtime_error (''Resource not found: '' @ p))
       else if \<not> open_read faults p fs then Inl (Runtime_error (''Failed to open resource: '' @ p))
       else case fs_files fs (fs_resolve fs p) of
              None \<Rightarrow> Inr []
            | Some (_, content) \<Rightarrow>
                Inr (if ff_throws faults (Read_call p) = None then content
                     else case ff_partial faults p of None \<Rightarrow> [] | Some n \<Rightarrow> take n content)))"

text \<open>\<open>ReadBinaryFile\<close> asks for the size first (\<open>tellg\<close>), then reads that many bytes.\<close>

definition Local_ReadBinaryFile :: "fs_faults \<Rightarrow> string \<Rightarrow> string \<Rightarrow> file_system \<Rightarrow> exn + bytes" where
  "Local_ReadBinaryFile faults cwd path fs =
     exn_bind (NormalizePath faults cwd path) (\<lambda>p.
     exn_bind (Local_Exists faults cwd p fs) (\<lambda>ex.
       if \<not> ex then Inl (Runtime_error (''Resource not found: '' @ p))
       else if \<not> open_read faults p fs then Inl (Runtime_error (''Failed to open resource: '' @ p))
       else case fs_files fs (fs_resolve fs p) of
              None \<Rightarrow> Inl (Runtime_error (''Failed to get resource size: '' @ p))
            | Some (_, content) \<Rightarrow>
                if content \<noteq> [] \<and> ff_throws faults (Read_call p) \<noteq> None
                then Inl (Runtime_error (''Failed to read binary resource: '' @ p))
                else Inr (bytes_of_string content)))"

section \<open>The loaders\<close>

datatype res_loader = Local_loader | AWS_loader | Azure_loader | IBM_loader | Google_loader

definition not_implemented :: "exn + 'a" where
  "not_implemented = Inl (Runtime_error ''Not implemented yet'')"

fun Loader_IsInitialized :: "res_loader \<Rightarrow> bool" where
  "Loader_IsInitialized Local_loader = True"
| "Loader_IsInitialized AWS_loader = False"
| "Loader_IsInitialized Azure_loader = False"
| "Loader_IsInitialized IBM_loader = False"
| "Loader_IsInitialized Google_loader = False"

fun Loader_ReadFile :: "fs_faults \<Rightarrow> string \<Rightarrow> res_loader \<Rightarrow> string \<Rightarrow> file_system \<Rightarrow> exn + string" where
  "Loader_ReadFile faults cwd Local_loader path fs = Local_ReadFile faults cwd path fs"
| "Loader_ReadFile faults cwd AWS_loader path fs = not_implemented"
| "Loader_ReadFile faults cwd Azure_loader path fs = not_implemented"
| "Loader_ReadFile faults cwd IBM_loader path fs = not_implemented"
| "Loader_ReadFile faults cwd Google_loader path fs = not_implemented"

fun Loader_ReadBinaryFile :: "fs_faults \<Rightarrow> string \<Rightarrow> res_loader \<Rightarrow> string \<Rightarrow> file_system \<Rightarrow> exn + bytes" where
  "Loader_ReadBinaryFile faults cwd Local_loader path fs = Local_ReadBinaryFile faults cwd path fs"
| "Loader_ReadBinaryFile faults cwd AWS_loader path fs = not_implemented"
| "Loader_ReadBinaryFile faults cwd Azure_loader path fs = not_implemented"
| "Loader_ReadBinaryFile faults cwd IBM_loader path fs = not_implemented"
| "Loader_ReadBinaryFile faults cwd Google_loader path fs = not_implemented"

fun Loader_Exists :: "fs_faults \<Rightarrow> string \<Rightarrow> res_loader \<Rightarrow> string \<Rightarrow> file_system \<Rightarrow> exn + bool" where
  "Loader_Exists faults cwd Local_loader path fs = Local_Exists faults cwd path fs"
| "Loader_Exists faults cwd AWS_loader path fs = not_implemented"
| "Loader_Exists faults cwd Azure_loader path fs = not_implemented"
| "Loader_Exists faults cwd IBM_loader path fs = not_implemented"
| "Loader_Exists faults cwd Google_loader path fs = not_implemented"

section \<open>The manager\<close>

record res_manager =
  rm_loader :: "res_loader option"
  rm_platform_type :: PlatformType
  rm_initialized :: bool

definition ResManager_start :: res_manager where
  "ResManager_start = \<lparr>rm_loader = None, rm_platform_type = LOCAL, rm_initialized = False\<rparr>"

fun make_loader :: "PlatformType \<Rightarrow> res_loader option" where
  "make_loader LOCAL = Some Local_loader"
| "make_loader AWS = Some AWS_loader"
| "make_loader AZURE = Some Azure_loader"
| "make_loader IBM = Some IBM_loader"
| "make_loader GOOGLE = Some Google_loader"
| "make_loader UNKNOWN = None"

text \<open>The default case is reached by \<open>UNKNOWN\<close> alone, whose number is in its message.\<close>

definition ResManager_Initialize :: "PlatformType \<Rightarrow> res_manager \<Rightarrow> (exn + unit) \<times> res_manager" where
  "ResManager_Initialize platform m =
     (if rm_initialized m then (Inl (Runtime_error ''ReadOnlyResLoaderManager already initialized''), m)
      else let m = m\<lparr>rm_platform_type := platform\<rparr>
           in case make_loader platform of
                None \<Rightarrow> (Inl (Runtime_error ''Unsupported platform type: 99''), m)
              | Some l \<Rightarrow>
                  let m = m\<lparr>rm_loader := Some l\<rparr>
                  in if \<not> Loader_IsInitialized l
                     then (Inl (Runtime_error (''Failed to initialize resource loader for platform: '' @
                             PlatformTypeToString platform)), m)
                     else (Inr (), m\<lparr>rm_initialized := True\<rparr>))"

definition with_loader :: "(res_loader \<Rightarrow> exn + 'a) \<Rightarrow> res_manager \<Rightarrow> exn + 'a" where
  "with_loader f m =
     (case rm_loader m of
        None \<Rightarrow> Inl (Runtime_error ''ReadOnlyResLoaderManager not initialized'')
      | Some l \<Rightarrow>
          if \<not> rm_initialized m then Inl (Runtime_error ''ReadOnlyResLoaderManager not initialized'')
          else f l)"

definition ResManager_ReadFile :: "fs_faults \<Rightarrow> string \<Rightarrow> string \<Rightarrow> res_manager \<Rightarrow> file_system \<Rightarrow> exn + string" where
  "ResManager_ReadFile faults cwd path m fs = with_loader (\<lambda>l. Loader_ReadFile faults cwd l path fs) m"

definition ResManager_ReadBinaryFile :: "fs_faults \<Rightarrow> string \<Rightarrow> string \<Rightarrow> res_manager \<Rightarrow> file_system \<Rightarrow> exn + bytes" where
  "ResManager_ReadBinaryFile faults cwd path m fs =
     with_loader (\<lambda>l. Loader_ReadBinaryFile faults cwd l path fs) m"

definition ResManager_Exists :: "fs_faults \<Rightarrow> string \<Rightarrow> string \<Rightarrow> res_manager \<Rightarrow> file_system \<Rightarrow> exn + bool" where
  "ResManager_Exists faults cwd path m fs = with_loader (\<lambda>l. Loader_Exists faults cwd l path fs) m"

definition ResManager_IsInitialized :: "res_manager \<Rightarrow> bool" where
  "ResManager_IsInitialized m \<longleftrightarrow>
     rm_initialized m \<and> (case rm_loader m of None \<Rightarrow> False | Some l \<Rightarrow> Loader_IsInitialized l)"

definition ResManager_GetPlatformType :: "res_manager \<Rightarrow> exn + PlatformType" where
  "ResManager_GetPlatformType m =
     (if \<not> rm_initialized m then Inl (Runtime_error ''ReadOnlyResLoaderManager not initialized'')
      else Inr (rm_platform_type m))"

section \<open>The interface\<close>

text \<open>
  What a client of \<open>IReadOnlyResLoader\<close> relies on: a resource that can be read exists, both reads
  give the same bytes, and a loader that is not initialised gives nothing.
\<close>

locale read_only_loader =
  fixes ready :: "'l \<Rightarrow> bool"
    and read_text :: "'l \<Rightarrow> string \<Rightarrow> exn + string"
    and read_binary :: "'l \<Rightarrow> string \<Rightarrow> exn + bytes"
    and there :: "'l \<Rightarrow> string \<Rightarrow> exn + bool"
  assumes text_there: "read_text l p = Inr t \<Longrightarrow> there l p = Inr True"
    and binary_there: "read_binary l p = Inr b \<Longrightarrow> there l p = Inr True"
    and same_bytes: "read_text l p = Inr t \<Longrightarrow> read_binary l p = Inr b \<Longrightarrow> b = bytes_of_string t"
    and only_ready: "\<not> ready l \<Longrightarrow> there l p \<noteq> Inr True"
begin

lemma read_ready: "read_text l p = Inr t \<Longrightarrow> ready l"
  using text_there only_ready by metis

lemma binary_ready: "read_binary l p = Inr b \<Longrightarrow> ready l"
  using binary_there only_ready by metis

lemma text_of_binary:
  "read_text l p = Inr t \<Longrightarrow> read_binary l p = Inr b \<Longrightarrow> t = string_of_bytes b"
  using same_bytes [of l p t b] by simp

lemma missing_unreadable: "there l p = Inr False \<Longrightarrow> \<exists>e e'. read_text l p = Inl e \<and> read_binary l p = Inl e'"
  using text_there binary_there by (metis Inr_inject old.sum.exhaust)

end

lemma NormalizePath_absolute: "NormalizePath faults cwd p = Inr q \<Longrightarrow> is_absolute q"
  by (auto simp: NormalizePath_def is_absolute_def path_join_def fs_call_Inr_iff split: if_splits sum.splits)

lemma NormalizePath_idem: "NormalizePath faults cwd p = Inr q \<Longrightarrow> NormalizePath faults cwd q = Inr q"
  using NormalizePath_absolute [of faults cwd p q] by (simp add: NormalizePath_def)

lemma Local_Exists_normalized:
  "NormalizePath faults cwd p = Inr q \<Longrightarrow> Local_Exists faults cwd q fs = Local_Exists faults cwd p fs"
  by (simp add: Local_Exists_def NormalizePath_idem)

lemma Local_Exists_True:
  "Local_Exists faults cwd p fs = Inr True \<longleftrightarrow>
     (\<exists>q. NormalizePath faults cwd p = Inr q \<and> ff_throws faults (Exists_call q) = None \<and>
        ff_throws faults (Is_regular_call q) = None \<and> fs_files fs (fs_resolve fs q) \<noteq> None)"
  by (cases "NormalizePath faults cwd p")
    (auto simp: Local_Exists_def fs_exists_def fs_is_regular_file_def fs_call_def
      split: option.splits if_splits sum.splits)

text \<open>What the two reads return: the file, or nothing at all of a file that cannot be read.\<close>

lemma Local_ReadFile_Inr:
  "Local_ReadFile faults cwd p fs = Inr t \<longleftrightarrow>
     (\<exists>q mode content. NormalizePath faults cwd p = Inr q \<and> Local_Exists faults cwd p fs = Inr True \<and>
        \<not> ff_fails faults (Open_read_call q) \<and> fs_files fs (fs_resolve fs q) = Some (mode, content) \<and>
        t = (if ff_throws faults (Read_call q) = None then content
             else case ff_partial faults q of None \<Rightarrow> [] | Some n \<Rightarrow> take n content))"
  by (cases "NormalizePath faults cwd p")
    (auto simp: Local_ReadFile_def Local_Exists_normalized Local_Exists_True open_read_def exn_bind_eq_Inr
      split: option.splits if_splits)

lemma Local_ReadBinaryFile_Inr:
  "Local_ReadBinaryFile faults cwd p fs = Inr b \<longleftrightarrow>
     (\<exists>q mode content. NormalizePath faults cwd p = Inr q \<and> Local_Exists faults cwd p fs = Inr True \<and>
        \<not> ff_fails faults (Open_read_call q) \<and> fs_files fs (fs_resolve fs q) = Some (mode, content) \<and>
        (content = [] \<or> ff_throws faults (Read_call q) = None) \<and> b = bytes_of_string content)"
  by (cases "NormalizePath faults cwd p")
    (auto simp: Local_ReadBinaryFile_def Local_Exists_normalized Local_Exists_True open_read_def exn_bind_eq_Inr
      split: option.splits if_splits)

interpretation loaders: read_only_loader Loader_IsInitialized "\<lambda>l p. Loader_ReadFile faults cwd l p fs"
  "\<lambda>l p. Loader_ReadBinaryFile faults cwd l p fs" "\<lambda>l p. Loader_Exists faults cwd l p fs"
  for faults cwd fs
proof
  fix l p t b
  show "Loader_ReadFile faults cwd l p fs = Inr t \<Longrightarrow> Loader_Exists faults cwd l p fs = Inr True"
    by (cases l) (auto simp: not_implemented_def Local_ReadFile_Inr)
  show "Loader_ReadBinaryFile faults cwd l p fs = Inr b \<Longrightarrow> Loader_Exists faults cwd l p fs = Inr True"
    by (cases l) (auto simp: not_implemented_def Local_ReadBinaryFile_Inr)
  show "Loader_ReadFile faults cwd l p fs = Inr t \<Longrightarrow> Loader_ReadBinaryFile faults cwd l p fs = Inr b \<Longrightarrow>
      b = bytes_of_string t"
    by (cases l) (auto simp: not_implemented_def Local_ReadFile_Inr Local_ReadBinaryFile_Inr bytes_of_string_def
        split: option.splits)
  show "\<not> Loader_IsInitialized l \<Longrightarrow> Loader_Exists faults cwd l p fs \<noteq> Inr True"
    by (cases l) (auto simp: not_implemented_def)
qed

section \<open>The manager gives what the local loader reads\<close>

text \<open>
  Only the local platform ever becomes usable; the others leave a manager on which every read
  throws, and which can be initialised again.
\<close>

lemma ResManager_Initialize_usable:
  "fst (ResManager_Initialize platform m) = Inr () \<longleftrightarrow> \<not> rm_initialized m \<and> platform = LOCAL"
  by (cases platform) (simp_all add: ResManager_Initialize_def Let_def)

lemma ResManager_Initialize_Inr:
  "ResManager_Initialize platform m = (Inr u, m') \<Longrightarrow> platform = LOCAL \<and> ResManager_IsInitialized m'"
  using ResManager_Initialize_usable [of platform m]
  by (auto simp: ResManager_Initialize_def ResManager_IsInitialized_def Let_def split: if_splits)

lemma ResManager_invariant:
  assumes "rm_initialized m \<longrightarrow> rm_loader m = Some Local_loader \<and> rm_platform_type m = LOCAL"
  shows "let m' = snd (ResManager_Initialize platform m)
    in rm_initialized m' \<longrightarrow> rm_loader m' = Some Local_loader \<and> rm_platform_type m' = LOCAL"
  using assms by (cases platform) (simp_all add: ResManager_Initialize_def Let_def)

lemma ResManager_read_bytes:
  assumes "ResManager_ReadFile faults cwd p m fs = Inr t" and "ResManager_ReadBinaryFile faults cwd p m fs = Inr b"
  shows "t = string_of_bytes b \<and> ResManager_Exists faults cwd p m fs = Inr True \<and> ResManager_IsInitialized m"
proof -
  from assms obtain l where l: "rm_loader m = Some l" "rm_initialized m"
    and t: "Loader_ReadFile faults cwd l p fs = Inr t" and b: "Loader_ReadBinaryFile faults cwd l p fs = Inr b"
    by (auto simp: ResManager_ReadFile_def ResManager_ReadBinaryFile_def with_loader_def split: option.splits if_splits)
  from loaders.text_of_binary [OF t b] loaders.text_there [OF t] loaders.read_ready [OF t] l show ?thesis
    by (simp add: ResManager_Exists_def ResManager_IsInitialized_def with_loader_def)
qed

text \<open>A file whose reading fails half way is delivered as far as it was read, without an exception.\<close>

lemma truncated_resource:
  assumes "is_absolute p" and "fs_files fs (fs_resolve fs p) = Some (mode, content)"
    and "faults = no_faults\<lparr>ff_throws := \<lambda>c. if c = Read_call p then Some ''EIO'' else None,
           ff_partial := \<lambda>_. Some n\<rparr>"
  shows "Local_ReadFile faults cwd p fs = Inr (take n content)"
proof -
  have "NormalizePath faults cwd p = Inr p" using assms(1) by (simp add: NormalizePath_def)
  moreover from this assms have "Local_Exists faults cwd p fs = Inr True"
    by (auto simp: Local_Exists_True no_faults_def)
  ultimately show ?thesis
    using assms(2,3) by (auto simp: Local_ReadFile_Inr no_faults_def)
qed

end
