(* ===== verification/Kernel_Firewall.thy ===== *)
theory Kernel_Firewall
  imports Prelude
begin

text \<open>
  The packet filter of a node (\<open>KernelFirewall.cpp\<close>): the \<open>iptables\<close> commands that admit one
  address to a port and drop the others. The command itself is the argument \<open>run\<close>; what its
  manual promises of the four commands used is the locale \<open>packet_filter\<close>.
\<close>

section \<open>Commands\<close>

datatype fw_command =
    Insert_accept u16 string
  | Append_drop u16
  | Delete_drop u16
  | Delete_accept u16

fun command_text :: "fw_command \<Rightarrow> string" where
  "command_text (Insert_accept port ip) =
     ''iptables -I INPUT 1 -p tcp --syn --dport '' @ to_string (unat port) @ '' -s '' @ ip @ '' -j ACCEPT''"
| "command_text (Append_drop port) =
     ''iptables -A INPUT -p tcp --syn --dport '' @ to_string (unat port) @ '' -j DROP''"
| "command_text (Delete_drop port) =
     ''iptables -D INPUT -p tcp --syn --dport '' @ to_string (unat port) @ '' -j DROP 2>/dev/null''"
| "command_text (Delete_accept port) =
     ''iptables -D INPUT -p tcp --syn --dport '' @ to_string (unat port) @ '' -j ACCEPT 2>/dev/null''"

text \<open>
  \<open>run c s\<close> is what the command makes of the system's state: whether it could be started and
  exited with 0, and the new state. A dry run only prints.
\<close>

definition ExecuteIptables :: "(string \<Rightarrow> 's \<Rightarrow> bool \<times> 's) \<Rightarrow> fw_command \<Rightarrow> bool \<Rightarrow> 's \<Rightarrow> bool \<times> 's" where
  "ExecuteIptables run command dry_run s = (if dry_run then (True, s) else run (command_text command) s)"

text \<open>\<open>for (int i = 0; i < 10; ++i) if (!ExecuteIptables(...)) break;\<close>\<close>

fun execute_up_to :: "nat \<Rightarrow> (string \<Rightarrow> 's \<Rightarrow> bool \<times> 's) \<Rightarrow> fw_command \<Rightarrow> bool \<Rightarrow> 's \<Rightarrow> 's" where
  "execute_up_to 0 run command dry_run s = s"
| "execute_up_to (Suc n) run command dry_run s =
     (let (ok, s') = ExecuteIptables run command dry_run s
      in if ok then execute_up_to n run command dry_run s' else s')"

definition RemoveNodeFirewall ::
  "(string \<Rightarrow> 's \<Rightarrow> bool \<times> 's) \<Rightarrow> bool \<Rightarrow> u16 \<Rightarrow> bool \<Rightarrow> 's \<Rightarrow> bool \<times> 's" where
  "RemoveNodeFirewall run root port dry_run s =
     (if \<not> dry_run \<and> \<not> root then (False, s)
      else (True, execute_up_to 10 run (Delete_accept port) dry_run
                    (execute_up_to 10 run (Delete_drop port) dry_run s)))"

text \<open>\<open>valid_ip\<close> is \<open>IsValidIPv4\<close>, that is \<open>inet_pton\<close>; \<open>root\<close> is \<open>HasRootPrivilege\<close>.\<close>

definition ConfigureNodeFirewall ::
  "(string \<Rightarrow> 's \<Rightarrow> bool \<times> 's) \<Rightarrow> (string \<Rightarrow> bool) \<Rightarrow> bool \<Rightarrow> u16 \<Rightarrow> string \<Rightarrow> bool \<Rightarrow> 's \<Rightarrow> bool \<times> 's" where
  "ConfigureNodeFirewall run valid_ip root port trusted_coordinator_ip dry_run s =
     (if \<not> dry_run \<and> \<not> root then (False, s)
      else if \<not> valid_ip trusted_coordinator_ip then (False, s)
      else
        let (_, s1) = RemoveNodeFirewall run root port dry_run s;
            (accepted, s2) = ExecuteIptables run (Insert_accept port trusted_coordinator_ip) dry_run s1
        in if \<not> accepted then (False, s2)
           else let (dropped, s3) = ExecuteIptables run (Append_drop port) dry_run s2
                in if \<not> dropped then (False, snd (RemoveNodeFirewall run root port dry_run s3))
                   else (True, s3))"

text \<open>
  \<open>RuleExists\<close>: a line of the listing that contains the pattern (\<open>grep\<close> of a text without
  special characters).
\<close>

fun text_at :: "string \<Rightarrow> string \<Rightarrow> bool" where
  "text_at [] line = True"
| "text_at (c # cs) [] = False"
| "text_at (c # cs) (x # xs) \<longleftrightarrow> c = x \<and> text_at cs xs"

fun occurs_in :: "string \<Rightarrow> string \<Rightarrow> bool" where
  "occurs_in pattern [] \<longleftrightarrow> pattern = []"
| "occurs_in pattern (x # xs) \<longleftrightarrow> text_at pattern (x # xs) \<or> occurs_in pattern xs"

definition RuleExists :: "string list \<Rightarrow> string \<Rightarrow> bool" where
  "RuleExists listing rule_pattern \<longleftrightarrow> list_ex (occurs_in rule_pattern) listing"

definition IsFirewallConfigured :: "string list \<Rightarrow> u16 \<Rightarrow> bool" where
  "IsFirewallConfigured listing port = RuleExists listing (''dpt:'' @ to_string (unat port))"

section \<open>The filter\<close>

text \<open>
  A rule of the chain as the commands name it: a port, a source address or any, and a target.
  A SYN packet gets the target of the first rule that matches it, and the chain's policy when
  none does. The rules of other programs are not for a node's port.
\<close>

datatype fw_target = ACCEPT | DROP
datatype fw_rule = Rule u16 "string option" fw_target

fun rule_matches :: "u16 \<Rightarrow> string \<Rightarrow> fw_rule \<Rightarrow> bool" where
  "rule_matches port src (Rule p from t) \<longleftrightarrow> p = port \<and> (from = None \<or> from = Some src)"

fun rule_target :: "fw_rule \<Rightarrow> fw_target" where
  "rule_target (Rule p from t) = t"

definition admits :: "fw_rule list \<Rightarrow> u16 \<Rightarrow> string \<Rightarrow> bool" where
  "admits rules port src =
     (case filter (rule_matches port src) rules of [] \<Rightarrow> True | r # _ \<Rightarrow> rule_target r = ACCEPT)"

text \<open>
  The manual of \<open>iptables\<close>: \<open>-I INPUT 1\<close> puts a rule first, \<open>-A\<close> last, \<open>-D\<close> removes the first
  rule equal to the one given and fails when there is none. An address is one word
  without a redirection.
\<close>

definition one_word :: "string \<Rightarrow> bool" where
  "one_word w \<longleftrightarrow> w \<noteq> [] \<and> CHR '' '' \<notin> set w \<and> CHR ''>'' \<notin> set w"

text \<open>What the two loops of deletions leave of a chain.\<close>

definition cleared :: "u16 \<Rightarrow> fw_rule list \<Rightarrow> fw_rule list" where
  "cleared port rules =
     (remove1 (Rule port None ACCEPT) ^^ 10) ((remove1 (Rule port None DROP) ^^ 10) rules)"

fun rule_port :: "fw_rule \<Rightarrow> u16" where
  "rule_port (Rule p from t) = p"

text \<open>The chain of a node: the addresses admitted, the rules of others, the rule that drops.\<close>

definition node_chain :: "u16 \<Rightarrow> string list \<Rightarrow> fw_rule list \<Rightarrow> fw_rule list" where
  "node_chain port ips others =
     map (\<lambda>ip. Rule port (Some ip) ACCEPT) ips @ others @ (if ips = [] then [] else [Rule port None DROP])"

lemma remove1_funpow_idem: "r \<notin> set rules \<Longrightarrow> (remove1 r ^^ n) rules = rules"
  by (induction n) (simp_all add: remove1_idem)

lemma cleared_node_chain:
  assumes "\<And>r. r \<in> set others \<Longrightarrow> rule_port r \<noteq> port"
  shows "cleared port (node_chain port ips others) = map (\<lambda>ip. Rule port (Some ip) ACCEPT) ips @ others"
proof -
  let ?as = "map (\<lambda>ip. Rule port (Some ip) ACCEPT) ips @ others"
  have n: "Rule port None t \<notin> set ?as" for t using assms [of "Rule port None t"] by auto
  have "remove1 (Rule port None DROP) (node_chain port ips others) = ?as"
    using n by (simp add: node_chain_def remove1_append remove1_idem)
  then have "(remove1 (Rule port None DROP) ^^ Suc 9) (node_chain port ips others) = ?as"
    by (simp only: funpow_Suc_right comp_apply remove1_funpow_idem [OF n])
  then show ?thesis by (simp add: cleared_def remove1_funpow_idem [OF n])
qed

lemma admits_node_chain:
  assumes "\<And>r. r \<in> set others \<Longrightarrow> rule_port r \<noteq> port"
  shows "admits (node_chain port ips others) port src \<longleftrightarrow> ips = [] \<or> src \<in> set ips"
    and "p \<noteq> port \<Longrightarrow> admits (node_chain port ips others) p src = admits others p src"
proof -
  have none: "filter (rule_matches port src) others = []"
  proof (rule filter_False, rule ballI)
    fix r assume "r \<in> set others"
    with assms [of r] show "\<not> rule_matches port src r" by (cases r) auto
  qed
  have "filter (rule_matches port src) (map (\<lambda>ip. Rule port (Some ip) ACCEPT) ips) =
      map (\<lambda>ip. Rule port (Some ip) ACCEPT) (filter (\<lambda>ip. ip = src) ips)"
    by (induction ips) auto
  then show "admits (node_chain port ips others) port src \<longleftrightarrow> ips = [] \<or> src \<in> set ips"
    using none by (cases "filter (\<lambda>ip. ip = src) ips") (auto simp: admits_def node_chain_def filter_empty_conv
        dest!: arg_cong [of _ _ set] filter_eq_ConsD)
  assume p: "p \<noteq> port"
  then have "filter (rule_matches p src) (map (\<lambda>ip. Rule port (Some ip) ACCEPT) ips) = []"
    by (induction ips) auto
  with p show "admits (node_chain port ips others) p src = admits others p src"
    by (simp add: admits_def node_chain_def)
qed

locale packet_filter =
  fixes run :: "string \<Rightarrow> 's \<Rightarrow> bool \<times> 's" and chain :: "'s \<Rightarrow> fw_rule list"
  assumes insert_accept: "one_word ip \<Longrightarrow>
      fst (run (command_text (Insert_accept port ip)) s) \<and>
      chain (snd (run (command_text (Insert_accept port ip)) s)) = Rule port (Some ip) ACCEPT # chain s"
    and append_drop:
      "fst (run (command_text (Append_drop port)) s) \<and>
       chain (snd (run (command_text (Append_drop port)) s)) = chain s @ [Rule port None DROP]"
    and delete_drop:
      "fst (run (command_text (Delete_drop port)) s) = (Rule port None DROP \<in> set (chain s)) \<and>
       chain (snd (run (command_text (Delete_drop port)) s)) = remove1 (Rule port None DROP) (chain s)"
    and delete_accept:
      "fst (run (command_text (Delete_accept port)) s) = (Rule port None ACCEPT \<in> set (chain s)) \<and>
       chain (snd (run (command_text (Delete_accept port)) s)) = remove1 (Rule port None ACCEPT) (chain s)"
begin

text \<open>A loop of deletions removes up to its bound of one rule.\<close>

lemma execute_delete:
  assumes del: "\<And>s. fst (run (command_text c) s) = (r \<in> set (chain s)) \<and>
    chain (snd (run (command_text c) s)) = remove1 r (chain s)"
  shows "chain (execute_up_to n run c False s) = (remove1 r ^^ n) (chain s)"
proof (induction n arbitrary: s)
  case (Suc n)
  obtain ok s' where r: "run (command_text c) s = (ok, s')" by fastforce
  with del [of s] have s': "chain s' = remove1 r (chain s)" and ok: "ok = (r \<in> set (chain s))"
    by simp_all
  show ?case
  proof (cases ok)
    case True
    with r Suc.IH [of s'] s' show ?thesis
      by (simp add: ExecuteIptables_def funpow_swap1)
  next
    case False
    with ok have idem: "remove1 r (chain s) = chain s" by (simp add: remove1_idem)
    then have "(remove1 r ^^ k) (chain s) = chain s" for k by (induction k) simp_all
    with r False s' idem show ?thesis by (simp add: ExecuteIptables_def)
  qed
qed simp

lemma remove_chain:
  "chain (snd (RemoveNodeFirewall run True port False s)) = cleared port (chain s)"
  using execute_delete [of "Delete_drop port" "Rule port None DROP", OF delete_drop]
    execute_delete [of "Delete_accept port" "Rule port None ACCEPT", OF delete_accept]
  by (simp add: RemoveNodeFirewall_def cleared_def)

lemma configure_chain:
  assumes "valid_ip ip" and "one_word ip"
  shows "fst (ConfigureNodeFirewall run valid_ip True port ip False s) \<and>
    chain (snd (ConfigureNodeFirewall run valid_ip True port ip False s)) =
      Rule port (Some ip) ACCEPT # cleared port (chain s) @ [Rule port None DROP]"
proof -
  obtain b s1 where r: "RemoveNodeFirewall run True port False s = (b, s1)" by fastforce
  with remove_chain [of port s] have c1: "chain s1 = cleared port (chain s)" by simp
  obtain a s2 where i: "run (command_text (Insert_accept port ip)) s1 = (a, s2)" by fastforce
  with insert_accept [OF assms(2), of port s1] c1
  have a: "a" and c2: "chain s2 = Rule port (Some ip) ACCEPT # cleared port (chain s)" by simp_all
  obtain d s3 where d: "run (command_text (Append_drop port)) s2 = (d, s3)" by fastforce
  with append_drop [of port s2] c2
  have "d" "chain s3 = Rule port (Some ip) ACCEPT # cleared port (chain s) @ [Rule port None DROP]" by simp_all
  with assms(1) r i a d show ?thesis
    by (simp add: ConfigureNodeFirewall_def ExecuteIptables_def Let_def del: command_text.simps)
qed

text \<open>Configuring addresses one after the other, the last one of the list first.\<close>

lemma configure_all:
  assumes "\<And>ip. ip \<in> set ips \<Longrightarrow> valid_ip ip \<and> one_word ip"
    and others: "\<And>r. r \<in> set (chain s) \<Longrightarrow> rule_port r \<noteq> port"
  shows "chain (foldr (\<lambda>ip s. snd (ConfigureNodeFirewall run valid_ip True port ip False s)) ips s) =
    node_chain port ips (chain s)"
  using assms(1)
proof (induction ips)
  case Nil
  then show ?case by (simp add: node_chain_def)
next
  case (Cons ip ips)
  then show ?case
    using configure_chain [of valid_ip ip port] cleared_node_chain [of "chain s" port ips] others
    by (simp add: node_chain_def)
qed

end

section \<open>A command line that keeps the manual's promises\<close>

text \<open>
  The commands are read back from their text: the words between blanks, an action on the chain
  \<open>INPUT\<close>, and a rule. \<open>run_iptables\<close> is the filter whose state is the list of rules.
\<close>

definition parse_target :: "string \<Rightarrow> fw_target option" where
  "parse_target w = (if w = ''ACCEPT'' then Some ACCEPT else if w = ''DROP'' then Some DROP else None)"

definition parse_rule :: "string list \<Rightarrow> fw_rule option" where
  "parse_rule ws =
     (if take 4 ws \<noteq> [''-p'', ''tcp'', ''--syn'', ''--dport''] then None
      else case drop 4 ws of
        [p, j, t] \<Rightarrow>
          if j = ''-j'' then map_option (Rule (word_of_nat (digits_value p)) None) (parse_target t) else None
      | [p, s, ip, j, t] \<Rightarrow>
          if s = ''-s'' \<and> j = ''-j''
          then map_option (Rule (word_of_nat (digits_value p)) (Some ip)) (parse_target t) else None
      | _ \<Rightarrow> None)"

definition run_iptables :: "string \<Rightarrow> fw_rule list \<Rightarrow> bool \<times> fw_rule list" where
  "run_iptables text rules =
     (let ws = filter (\<lambda>w. w \<noteq> ''2>/dev/null'') (getlines CHR '' '' text)
      in if take 4 ws = [''iptables'', ''-I'', ''INPUT'', ''1'']
         then (case parse_rule (drop 4 ws) of None \<Rightarrow> (False, rules) | Some r \<Rightarrow> (True, r # rules))
         else if take 3 ws = [''iptables'', ''-A'', ''INPUT'']
         then (case parse_rule (drop 3 ws) of None \<Rightarrow> (False, rules) | Some r \<Rightarrow> (True, rules @ [r]))
         else if take 3 ws = [''iptables'', ''-D'', ''INPUT'']
         then (case parse_rule (drop 3 ws) of None \<Rightarrow> (False, rules) | Some r \<Rightarrow> (r \<in> set rules, remove1 r rules))
         else (False, rules))"

fun command_words :: "fw_command \<Rightarrow> string list" where
  "command_words (Insert_accept port ip) =
     [''iptables'', ''-I'', ''INPUT'', ''1'', ''-p'', ''tcp'', ''--syn'', ''--dport'', to_string (unat port),
      ''-s'', ip, ''-j'', ''ACCEPT'']"
| "command_words (Append_drop port) =
     [''iptables'', ''-A'', ''INPUT'', ''-p'', ''tcp'', ''--syn'', ''--dport'', to_string (unat port), ''-j'', ''DROP'']"
| "command_words (Delete_drop port) =
     [''iptables'', ''-D'', ''INPUT'', ''-p'', ''tcp'', ''--syn'', ''--dport'', to_string (unat port), ''-j'', ''DROP'', ''2>/dev/null'']"
| "command_words (Delete_accept port) =
     [''iptables'', ''-D'', ''INPUT'', ''-p'', ''tcp'', ''--syn'', ''--dport'', to_string (unat port), ''-j'', ''ACCEPT'', ''2>/dev/null'']"

lemma command_text_words: "command_text c = join_with CHR '' '' (command_words c)"
  by (cases c) simp_all

lemma to_string_word: "CHR '' '' \<notin> set (to_string n)" "to_string n \<noteq> ''2>/dev/null''"
proof -
  show "CHR '' '' \<notin> set (to_string n)"
    using to_string_digits [of "CHR '' ''" n] by (auto simp: is_digit_def)
  have "\<not> is_digit (CHR ''>'')" by (simp add: is_digit_def)
  then show "to_string n \<noteq> ''2>/dev/null''"
    using to_string_digits [of "CHR ''>''" n] by (metis list.set_intros)
qed

lemma command_read_back:
  assumes "case c of Insert_accept port ip \<Rightarrow> one_word ip | _ \<Rightarrow> True"
  shows "filter (\<lambda>w. w \<noteq> ''2>/dev/null'') (getlines CHR '' '' (command_text c)) =
    filter (\<lambda>w. w \<noteq> ''2>/dev/null'') (command_words c)"
proof -
  have "getlines CHR '' '' (command_text c) = command_words c"
    unfolding command_text_words
    by (rule getlines_join_with) (use assms in \<open>cases c; auto simp: one_word_def to_string_word\<close>)
  then show ?thesis by simp
qed

lemma one_word_no_redirection: "one_word ip \<Longrightarrow> ip \<noteq> ''2>/dev/null''"
  by (auto simp: one_word_def)

text \<open>The words of each command as \<open>run_iptables\<close> sees them.\<close>

definition words_read :: "fw_command \<Rightarrow> string list" where
  "words_read c = filter (\<lambda>w. w \<noteq> ''2>/dev/null'') (getlines CHR '' '' (command_text c))"

lemma words_read_simps:
  "one_word ip \<Longrightarrow> words_read (Insert_accept port ip) = command_words (Insert_accept port ip)"
  "words_read (Append_drop port) = command_words (Append_drop port)"
  "words_read (Delete_drop port) = butlast (command_words (Delete_drop port))"
  "words_read (Delete_accept port) = butlast (command_words (Delete_accept port))"
  by (simp_all add: words_read_def command_read_back to_string_word one_word_no_redirection
      del: command_text.simps)

lemma run_iptables_words:
  "run_iptables (command_text c) rules =
     (let ws = words_read c
      in if take 4 ws = [''iptables'', ''-I'', ''INPUT'', ''1'']
         then (case parse_rule (drop 4 ws) of None \<Rightarrow> (False, rules) | Some r \<Rightarrow> (True, r # rules))
         else if take 3 ws = [''iptables'', ''-A'', ''INPUT'']
         then (case parse_rule (drop 3 ws) of None \<Rightarrow> (False, rules) | Some r \<Rightarrow> (True, rules @ [r]))
         else if take 3 ws = [''iptables'', ''-D'', ''INPUT'']
         then (case parse_rule (drop 3 ws) of None \<Rightarrow> (False, rules) | Some r \<Rightarrow> (r \<in> set rules, remove1 r rules))
         else (False, rules))"
  by (simp only: run_iptables_def words_read_def)

interpretation iptables: packet_filter run_iptables "\<lambda>rules. rules"
  by unfold_locales
    (simp_all add: run_iptables_words words_read_simps parse_rule_def parse_target_def Let_def
      del: command_text.simps)

section \<open>Property\<close>



text \<open>A rule for another port whose number starts alike counts as configured.\<close>

lemma configured_by_prefix:
  "IsFirewallConfigured [''DROP tcp -- 0.0.0.0/0 0.0.0.0/0 tcp dpt:9001 flags:0x17/0x02''] 900"
  by code_simp

end
