(* ===== verification/Node_Main.thy ===== *)
theory Node_Main
  imports Node_Server Env_Config Kms Resource_Loader Kernel_Firewall
begin

text \<open>
  The program of a node, \<open>src/node/main.cpp\<close>: its arguments, the lookup of the node in the
  configuration, and the set-up of the resource loader, the key service, the server and its
  security, down to the wait for a signal. The components are their own models; what the
  operating system answers is the record \<open>node_system\<close>. Also here: the two members of
  \<open>NodeTcpServer\<close> that use the packet filter.
\<close>

section \<open>The packet filter of the server\<close>

text \<open>The part of \<open>Start\<close> after \<open>listen\<close> and of \<open>Stop\<close> that concerns it; results are only logged.\<close>

definition start_firewall ::
  "(string \<Rightarrow> 's \<Rightarrow> bool \<times> 's) \<Rightarrow> (string \<Rightarrow> bool) \<Rightarrow> bool \<Rightarrow> node_server \<Rightarrow> 's \<Rightarrow> 's" where
  "start_firewall run valid_ip root s fw =
     (if ts_firewall s \<and> sc_trusted (ts_security s) \<noteq> []
      then snd (ConfigureNodeFirewall run valid_ip root (ts_bind_port s) (sc_trusted (ts_security s)) False fw)
      else fw)"

definition stop_firewall :: "(string \<Rightarrow> 's \<Rightarrow> bool \<times> 's) \<Rightarrow> bool \<Rightarrow> node_server \<Rightarrow> 's \<Rightarrow> 's" where
  "stop_firewall run root s fw =
     (if ts_firewall s then snd (RemoveNodeFirewall run root (ts_bind_port s) False fw) else fw)"

section \<open>Arguments\<close>

text \<open>
  The loop over \<open>argv[1..]\<close>: an option takes the next argument when there is one, anything else
  is ignored, and \<open>--help\<close> ends the program (\<open>None\<close>).
\<close>

fun node_args :: "string list \<Rightarrow> string \<Rightarrow> string \<Rightarrow> (string \<times> string) option" where
  "node_args [] env_type node_id = Some (env_type, node_id)"
| "node_args [arg] env_type node_id =
     (if arg = ''--help'' \<or> arg = ''-h'' then None else Some (env_type, node_id))"
| "node_args (arg # val # rest) env_type node_id =
     (if arg = ''--help'' \<or> arg = ''-h'' then None
      else if arg = ''--env'' then node_args rest val node_id
      else if arg = ''--id'' then node_args rest env_type val
      else node_args (val # rest) env_type node_id)"

section \<open>The configuration of the node\<close>

text \<open>
  The search in \<open>NODE_IDS\<close>: the bounds of the hosts and the platforms are checked, those of the
  certificates and keys are not, so that a shorter list is read out of range.
\<close>

fun find_node ::
  "nat \<Rightarrow> string list \<Rightarrow> (string \<times> u16) list \<Rightarrow> string list \<Rightarrow> string list \<Rightarrow> string list \<Rightarrow> string
     \<Rightarrow> NodeConfig option behaviour" where
  "find_node i [] hosts platforms cert_paths key_ids node_id = Returns None"
| "find_node i (x # xs) hosts platforms cert_paths key_ids node_id =
     (if x = node_id \<and> i < length hosts \<and> i < length platforms
      then if i < length cert_paths \<and> i < length key_ids
           then Returns (Some (NodeConfig_default\<lparr>nf_node_id := node_id,
                  nf_bind_address := fst (hosts ! i), nf_bind_port := snd (hosts ! i),
                  nf_platform_type := PlatformTypeFromString (platforms ! i),
                  nf_certificate_path := cert_paths ! i, nf_private_key_id := key_ids ! i\<rparr>))
           else Undefined
      else find_node (Suc i) xs hosts platforms cert_paths key_ids node_id)"

definition node_required_keys :: "string list" where
  "node_required_keys = [''TRUSTED_COORDINATOR_IP'', ''NODE_IDS'', ''NODE_HOSTS'', ''NODE_PLATFORMS'']"

definition node_settings :: "env_manager \<Rightarrow> string \<Rightarrow> exn + NodeConfig option behaviour" where
  "node_settings em node_id =
     exn_bind (Manager_ValidateRequired em node_required_keys) (\<lambda>_.
     exn_bind (Manager_read GetStringArray em ''NODE_IDS'') (\<lambda>node_ids.
     exn_bind (Manager_read GetNodeEndpoints em ''NODE_HOSTS'') (\<lambda>node_hosts.
     exn_bind (Manager_read GetStringArray em ''NODE_PLATFORMS'') (\<lambda>platforms.
     exn_bind (Manager_read GetStringArray em ''TLS_CERT_PATHS'') (\<lambda>tls_cert_paths.
     exn_bind (Manager_read GetStringArray em ''TLS_KMS_NODES_COORDINATOR_KEY_IDS'') (\<lambda>key_ids.
       Inr (find_node 0 node_ids node_hosts platforms tls_cert_paths key_ids node_id)))))))"

section \<open>The program\<close>

record node_process =
  np_env :: env_manager
  np_resources :: res_manager
  np_kms :: kms_manager
  np_files :: file_system
  np_server :: "NodeServer option"

text \<open>
  \<open>ny_material\<close> is what the managers offer to the TLS set-up; the remaining fields are the
  results of the system calls and of the clock.
\<close>

record node_system =
  ny_config_files :: "string \<Rightarrow> string option"
  ny_assertions :: bool
  ny_faults :: fs_faults
  ny_material :: "env_manager \<Rightarrow> res_manager \<Rightarrow> kms_manager \<Rightarrow> file_system \<Rightarrow> tls_material"
  ny_sock :: int
  ny_address_ok :: bool
  ny_bind_ok :: bool
  ny_listen_ok :: bool
  ny_now :: u64
  ny_router :: node_router_state
  ny_tls_env :: tls_env
  ny_handler :: message_handler

datatype main_end = Exit_code int | Waiting | Undefined_access | Aborted

text \<open>The security settings: the trusted address, then the packet filter, off by default.\<close>

definition node_security :: "env_manager \<Rightarrow> node_server \<Rightarrow> exn + node_server" where
  "node_security em tcp =
     exn_bind (Manager_read GetString em ''TRUSTED_COORDINATOR_IP'') (\<lambda>trusted_ip.
     exn_bind (Manager_HasKey em ''ENABLE_KERNEL_FIREWALL'') (\<lambda>has.
     exn_bind (if has then Manager_read GetBool em ''ENABLE_KERNEL_FIREWALL'' else Inr False) (\<lambda>enable.
       Inr (EnableKernelFirewall enable (SetTrustedCoordinator trusted_ip tcp)))))"

definition node_serve :: "node_system \<Rightarrow> NodeConfig \<Rightarrow> node_process \<Rightarrow> main_end \<times> node_process" where
  "node_serve y config p =
     (let s = NodeServer_new config (ny_now y) (ny_router y);
          w = ny_material y (np_env p) (np_resources p) (np_kms p) (np_files p)
      in case NodeServer_Initialize (Manager_read GetUInt16 (np_env p)) w (ny_sock y) (ny_address_ok y)
                (ny_bind_ok y) (ny_now y) (ny_tls_env y) (ny_handler y) s of
           (Inl _, s1) \<Rightarrow> (Exit_code 1, p\<lparr>np_server := Some s1\<rparr>)
         | (Inr False, s1) \<Rightarrow> (Exit_code 1, p\<lparr>np_server := Some s1\<rparr>)
         | (Inr True, s1) \<Rightarrow>
             (case (case nv_tcp s1 of
                      None \<Rightarrow> Inr s1
                    | Some tcp \<Rightarrow> exn_bind (node_security (np_env p) tcp) (\<lambda>tcp'. Inr (s1\<lparr>nv_tcp := Some tcp'\<rparr>))) of
                Inl _ \<Rightarrow> (Exit_code 1, p\<lparr>np_server := Some s1\<rparr>)
              | Inr s2 \<Rightarrow>
                  (case NodeServer_Start (ny_listen_ok y) s2 of
                     (False, s3) \<Rightarrow> (Exit_code 1, p\<lparr>np_server := Some s3\<rparr>)
                   | (True, s3) \<Rightarrow> (Waiting, p\<lparr>np_server := Some s3\<rparr>))))"

definition node_boot :: "node_system \<Rightarrow> NodeConfig \<Rightarrow> node_process \<Rightarrow> main_end \<times> node_process" where
  "node_boot y config p =
     (case ResManager_Initialize (nf_platform_type config) (np_resources p) of
        (Inl _, rm) \<Rightarrow> (Exit_code 1, p\<lparr>np_resources := rm\<rparr>)
      | (Inr _, rm) \<Rightarrow>
          (let p1 = p\<lparr>np_resources := rm\<rparr>
           in case (if nf_platform_type config = LOCAL
                    then Manager_read GetString (np_env p) ''NODE_LOCAL_KMS_PATH'' else Inr []) of
                Inl _ \<Rightarrow> (Exit_code 1, p1)
              | Inr path \<Rightarrow>
                  (case KMSManager_InitializeLocal (ny_assertions y) (ny_faults y) (nf_platform_type config)
                          path (np_kms p) (np_files p) of
                     None \<Rightarrow> (Aborted, p1)
                   | Some (Inl _, km, fs) \<Rightarrow> (Exit_code 1, p1\<lparr>np_kms := km, np_files := fs\<rparr>)
                   | Some (Inr _, km, fs) \<Rightarrow> node_serve y config (p1\<lparr>np_kms := km, np_files := fs\<rparr>))))"

definition node_main :: "node_system \<Rightarrow> string list \<Rightarrow> node_process \<Rightarrow> main_end \<times> node_process" where
  "node_main y args p =
     (case node_args args ''local'' [] of
        None \<Rightarrow> (Exit_code 0, p)
      | Some (env_type, node_id) \<Rightarrow>
          if node_id = [] then (Exit_code 1, p)
          else let (ok, em) = Manager_Initialize (ny_config_files y) env_type (np_env p);
                   p = p\<lparr>np_env := em\<rparr>
               in if \<not> ok then (Exit_code 1, p)
                  else case node_settings em node_id of
                         Inl _ \<Rightarrow> (Exit_code 1, p)
                       | Inr Undefined \<Rightarrow> (Undefined_access, p)
                       | Inr (Returns None) \<Rightarrow> (Exit_code 1, p)
                       | Inr (Returns (Some config)) \<Rightarrow> node_boot y config p)"

section \<open>What a serving node has\<close>

lemma find_node_Some:
  "find_node i ids hosts platforms certs keys node_id = Returns (Some c) \<Longrightarrow>
   \<exists>j. i \<le> j \<and> j < i + length ids \<and> ids ! (j - i) = node_id \<and> j < length hosts \<and> j < length platforms \<and>
     j < length certs \<and> j < length keys \<and> nf_node_id c = node_id \<and>
     nf_bind_address c = fst (hosts ! j) \<and> nf_bind_port c = snd (hosts ! j) \<and>
     nf_platform_type c = PlatformTypeFromString (platforms ! j) \<and>
     nf_certificate_path c = certs ! j \<and> nf_private_key_id c = keys ! j"
proof (induction i ids hosts platforms certs keys node_id rule: find_node.induct)
  case (2 i x xs hosts platforms certs keys node_id)
  show ?case
  proof (cases "x = node_id \<and> i < length hosts \<and> i < length platforms")
    case True
    with "2.prems" show ?thesis by (intro exI [of _ i]) (auto split: if_splits)
  next
    case False
    with "2.prems" have "find_node (Suc i) xs hosts platforms certs keys node_id = Returns (Some c)"
      by (simp only: find_node.simps if_False)
    from "2.IH" [OF False this] obtain j where "Suc i \<le> j" "j < Suc i + length xs" "xs ! (j - Suc i) = node_id"
      "j < length hosts \<and> j < length platforms \<and> j < length certs \<and> j < length keys \<and> nf_node_id c = node_id \<and>
       nf_bind_address c = fst (hosts ! j) \<and> nf_bind_port c = snd (hosts ! j) \<and>
       nf_platform_type c = PlatformTypeFromString (platforms ! j) \<and>
       nf_certificate_path c = certs ! j \<and> nf_private_key_id c = keys ! j" by auto
    then show ?thesis by (intro exI [of _ j]) (auto simp: nth_Cons' Suc_diff_Suc)
  qed
qed simp

text \<open>A node whose certificate or key list is too short is read out of range.\<close>

lemma find_node_Undefined_iff:
  assumes "distinct ids" and "j < length ids" and "j < length hosts" and "j < length platforms"
  shows "find_node 0 ids hosts platforms certs keys (ids ! j) = Undefined \<longleftrightarrow>
    \<not> (j < length certs \<and> j < length keys)"
proof -
  have "find_node i xs hosts platforms certs keys (xs ! k) =
      (if i + k < length certs \<and> i + k < length keys then
         Returns (Some (NodeConfig_default\<lparr>nf_node_id := xs ! k,
                  nf_bind_address := fst (hosts ! (i + k)), nf_bind_port := snd (hosts ! (i + k)),
                  nf_platform_type := PlatformTypeFromString (platforms ! (i + k)),
                  nf_certificate_path := certs ! (i + k), nf_private_key_id := keys ! (i + k)\<rparr>))
       else Undefined)"
    if "distinct xs" "k < length xs" "i + k < length hosts" "i + k < length platforms" for i k xs
    using that
  proof (induction xs arbitrary: i k)
    case (Cons x xs)
    show ?case
    proof (cases k)
      case 0
      with Cons.prems show ?thesis by simp
    next
      case (Suc k')
      with Cons.prems have "x \<noteq> xs ! k'" by auto
      with Suc Cons.IH [of k' "Suc i"] Cons.prems show ?thesis by simp
    qed
  qed simp
  from this [of ids j 0] assms show ?thesis by simp
qed

lemma node_security_Inr:
  assumes "node_security em tcp = Inr tcp'"
  shows "\<exists>ip enable. Manager_read GetString em ''TRUSTED_COORDINATOR_IP'' = Inr ip \<and>
    tcp' = EnableKernelFirewall enable (SetTrustedCoordinator ip tcp)"
  using assms by (auto simp: node_security_def exn_bind_eq_Inr)

lemma NodeServer_Start_True:
  "NodeServer_Start listen_ok s = (True, s') \<Longrightarrow>
   \<exists>tcp tcp'. nv_tcp s = Some tcp \<and> Tcp_Start listen_ok tcp = (True, tcp') \<and>
     s' = s\<lparr>nv_tcp := Some tcp', nv_running := True\<rparr>"
  by (auto simp: NodeServer_Start_def split: if_splits option.splits prod.splits bool.splits)

lemma Tcp_Start_True:
  "Tcp_Start listen_ok s = (True, s') \<Longrightarrow> s' = s\<lparr>ts_running := True, ts_accepting := True, ts_conn_pc := C_accepting\<rparr>"
  by (auto simp: Tcp_Start_def split: if_splits)

text \<open>A server that was initialised here was constructed and initialised just before.\<close>

lemma NodeServer_Initialize_True:
  assumes "NodeServer_Initialize get16 w sock address_ok bind_ok now e h s = (Inr True, s')"
    and "\<not> nv_initialized s"
  shows "\<exists>n tcp0 tcp1. NodeTcpServer_new (nf_bind_address (nv_config s)) (nf_bind_port (nv_config s)) n e = Inr tcp0 \<and>
    Tcp_Initialize w (nf_certificate_path (nv_config s)) (nf_private_key_id (nv_config s)) sock address_ok bind_ok
      (get16 ''NODE_SEND_QUEUE_SIZE_PER_HANDLER_THREAD'') tcp0 = (Inr True, tcp1) \<and>
    nv_tcp s' = Some (SetMessageHandler (Some h) tcp1) \<and> nv_config s' = nv_config s"
  using assms
  by (fastforce simp: NodeServer_Initialize_def SetupCallbacks_def Let_def split: sum.splits prod.splits bool.splits)

lemma node_serve_Waiting:
  assumes "node_serve y config p = (Waiting, p')"
  shows "\<exists>s tcp ip. p' = p\<lparr>np_server := Some s\<rparr> \<and> nv_running s \<and> nv_tcp s = Some tcp \<and> tcp_started ip tcp \<and>
    Manager_read GetString (np_env p) ''TRUSTED_COORDINATOR_IP'' = Inr ip"
proof -
  define s0 where "s0 = NodeServer_new config (ny_now y) (ny_router y)"
  define w where "w = ny_material y (np_env p) (np_resources p) (np_kms p) (np_files p)"
  obtain r s1 where i: "NodeServer_Initialize (Manager_read GetUInt16 (np_env p)) w (ny_sock y) (ny_address_ok y)
                (ny_bind_ok y) (ny_now y) (ny_tls_env y) (ny_handler y) s0 = (r, s1)" by fastforce
  with assms have r: "r = Inr True"
    by (auto simp: node_serve_def Let_def s0_def w_def split: sum.splits bool.splits)
  have n0: "\<not> nv_initialized s0" by (simp add: s0_def NodeServer_new_def Let_def)
  from NodeServer_Initialize_True [OF i [unfolded r] n0] obtain n tcp0 tcp1 where
    new: "NodeTcpServer_new (nf_bind_address (nv_config s0)) (nf_bind_port (nv_config s0)) n (ny_tls_env y) = Inr tcp0"
    and ini: "Tcp_Initialize w (nf_certificate_path (nv_config s0)) (nf_private_key_id (nv_config s0)) (ny_sock y)
      (ny_address_ok y) (ny_bind_ok y) (Manager_read GetUInt16 (np_env p) ''NODE_SEND_QUEUE_SIZE_PER_HANDLER_THREAD'')
      tcp0 = (Inr True, tcp1)"
    and tcp: "nv_tcp s1 = Some (SetMessageHandler (Some (ny_handler y)) tcp1)" by blast
  have "(case exn_bind (node_security (np_env p) (SetMessageHandler (Some (ny_handler y)) tcp1))
               (\<lambda>tcp'. Inr (s1\<lparr>nv_tcp := Some tcp'\<rparr>)) of Inl _ \<Rightarrow> (Exit_code 1, p\<lparr>np_server := Some s1\<rparr>)
              | Inr s2 \<Rightarrow>
                  (case NodeServer_Start (ny_listen_ok y) s2 of
                     (False, s3) \<Rightarrow> (Exit_code 1, p\<lparr>np_server := Some s3\<rparr>)
                   | (True, s3) \<Rightarrow> (Waiting, p\<lparr>np_server := Some s3\<rparr>))) = (Waiting, p')"
    using assms i r tcp by (simp add: node_serve_def Let_def s0_def w_def)
  then obtain tcp2 s3 where sec: "node_security (np_env p) (SetMessageHandler (Some (ny_handler y)) tcp1) = Inr tcp2"
    and st: "NodeServer_Start (ny_listen_ok y) (s1\<lparr>nv_tcp := Some tcp2\<rparr>) = (True, s3)"
    and p': "p' = p\<lparr>np_server := Some s3\<rparr>"
    by (auto simp: exn_bind_eq_Inr split: sum.splits prod.splits bool.splits)
  from NodeServer_Start_True [OF st] obtain tcp3 where
    t: "Tcp_Start (ny_listen_ok y) tcp2 = (True, tcp3)" "nv_tcp s3 = Some tcp3" "nv_running s3" by auto
  from node_security_Inr [OF sec] obtain ip enable where
    ip: "Manager_read GetString (np_env p) ''TRUSTED_COORDINATOR_IP'' = Inr ip"
    and "tcp2 = EnableKernelFirewall enable (SetTrustedCoordinator ip (SetMessageHandler (Some (ny_handler y)) tcp1))"
    by blast
  with new ini t(1) have "tcp_started ip tcp3" by (auto intro: tcp_started.intros)
  with p' t(2,3) ip show ?thesis by auto
qed

lemma start_service_local:
  assumes "start_service faults (Local_service (LocalKMS path)) m fs = (r, m', fs')"
  shows "r = Inr () \<and> (\<exists>k. km_instance m' = Some (Local_service k) \<and> lk_storage_path k = path)"
  using assms
  by (auto simp: start_service_def LocalKMS_Initialize_def LocalKMS_def Let_def
      split: if_splits sum.splits bool.splits prod.splits)

lemma node_boot_Waiting:
  assumes "node_boot y config p = (Waiting, p')" and fresh: "np_kms p = KMSManager_start"
  shows "nf_platform_type config = LOCAL \<and> np_env p' = np_env p \<and> ResManager_IsInitialized (np_resources p') \<and>
    (\<exists>path k. Manager_read GetString (np_env p) ''NODE_LOCAL_KMS_PATH'' = Inr path \<and>
       KMSManager_Instance (np_kms p') = Inr (Local_service k) \<and> lk_storage_path k = path) \<and>
    (\<exists>s tcp ip. np_server p' = Some s \<and> nv_running s \<and> nv_tcp s = Some tcp \<and> tcp_started ip tcp \<and>
       Manager_read GetString (np_env p) ''TRUSTED_COORDINATOR_IP'' = Inr ip)"
proof -
  obtain r rm where rm: "ResManager_Initialize (nf_platform_type config) (np_resources p) = (r, rm)" by fastforce
  with assms(1) have r: "r = Inr ()" by (cases r) (simp_all add: node_boot_def)
  from ResManager_Initialize_Inr [OF rm [unfolded r]]
  have local: "nf_platform_type config = LOCAL" and ready: "ResManager_IsInitialized rm" by simp_all
  from assms(1) rm r local obtain path where path: "Manager_read GetString (np_env p) ''NODE_LOCAL_KMS_PATH'' = Inr path"
    by (cases "Manager_read GetString (np_env p) ''NODE_LOCAL_KMS_PATH''") (simp_all add: node_boot_def)
  obtain r2 km fs where s: "start_service (ny_faults y) (Local_service (LocalKMS path))
      ((np_kms p)\<lparr>km_current_platform := LOCAL\<rparr>) (np_files p) = (r2, km, fs)" by (metis prod_cases3)
  from start_service_local [OF s] obtain k where r2: "r2 = Inr ()"
    and k: "km_instance km = Some (Local_service k)" "lk_storage_path k = path" by blast
  have "node_serve y config (p\<lparr>np_resources := rm, np_kms := km, np_files := fs\<rparr>) = (Waiting, p')"
    using assms(1) rm r local path s r2 fresh
    by (simp add: node_boot_def KMSManager_InitializeLocal_def KMSManager_start_def)
  from node_serve_Waiting [OF this] show ?thesis
    using local ready path k by (auto simp: KMSManager_Instance_def)
qed

section \<open>Property\<close>


text \<open>A node on one machine: the witness runs the program on its configuration.\<close>

definition demo_node_env :: env_manager where
  "demo_node_env = \<lparr>em_config = Some (EnvConfig_default\<lparr>ec_env_type := ''local'', ec_map :=
     [''TRUSTED_COORDINATOR_IP'' \<mapsto> ''127.0.0.1'', ''NODE_IDS'' \<mapsto> ''node_1'', ''NODE_HOSTS'' \<mapsto> endpoint_text (''127.0.0.1'', 9081),
      ''NODE_PLATFORMS'' \<mapsto> ''LOCAL'', ''TLS_CERT_PATHS'' \<mapsto> ''n1.pem'',
      ''TLS_KMS_NODES_COORDINATOR_KEY_IDS'' \<mapsto> ''n1_key'', ''NODE_LOCAL_KMS_PATH'' \<mapsto> ''./kms'',
      ''NODE_HANDLER_THREADS'' \<mapsto> to_string 2, ''NODE_SEND_QUEUE_SIZE_PER_HANDLER_THREAD'' \<mapsto> to_string 100]\<rparr>),
     em_initialized = True\<rparr>"

definition demo_process :: node_process where
  "demo_process = \<lparr>np_env = demo_node_env, np_resources = ResManager_start, np_kms = KMSManager_start,
     np_files = demo_fs, np_server = None\<rparr>"

definition demo_system :: node_system where
  "demo_system = \<lparr>ny_config_files = \<lambda>_. None, ny_assertions = True, ny_faults = no_faults,
     ny_material = \<lambda>_ _ _ _. demo_material, ny_sock = 3, ny_address_ok = True, ny_bind_ok = True, ny_listen_ok = True,
     ny_now = 7, ny_router = router_new 1, ny_tls_env = idle_env, ny_handler = \<lambda>m. Inr m\<rparr>"

lemma demo_endpoints: "Manager_read GetNodeEndpoints demo_node_env ''NODE_HOSTS'' = Inr [(''127.0.0.1'', 9081)]"
proof -
  have "GetNodeEndpoints (the (em_config demo_node_env)) ''NODE_HOSTS'' = Inr [(''127.0.0.1'', 9081)]"
    by (rule GetNodeEndpoints_text) (auto simp: demo_node_env_def endpoint_ok_def trimmed_def is_blank_def)
  then show ?thesis by (simp add: Manager_read_def GetConfig_def demo_node_env_def)
qed
lemma demo_arrays:
  "Manager_read GetStringArray demo_node_env ''NODE_IDS'' = Inr [''node_1'']"
  "Manager_read GetStringArray demo_node_env ''NODE_PLATFORMS'' = Inr [''LOCAL'']"
  "Manager_read GetStringArray demo_node_env ''TLS_CERT_PATHS'' = Inr [''n1.pem'']"
  "Manager_read GetStringArray demo_node_env ''TLS_KMS_NODES_COORDINATOR_KEY_IDS'' = Inr [''n1_key'']"
  "Manager_ValidateRequired demo_node_env node_required_keys = Inr ()"
  by (simp_all add: Manager_read_def Manager_ValidateRequired_def ValidateRequired_def GetConfig_def demo_node_env_def
    GetStringArray_def GetString_def getlines_last trim_trimmed trimmed_def is_blank_def node_required_keys_def HasKey_def endpoint_text_def)
lemma demo_settings: "node_settings demo_node_env ''node_1'' = Inr (Returns (Some (NodeConfig_default\<lparr>nf_node_id := ''node_1'',
  nf_platform_type := LOCAL, nf_bind_address := ''127.0.0.1'', nf_bind_port := 9081, nf_certificate_path := ''n1.pem'',
  nf_private_key_id := ''n1_key''\<rparr>)))"
  by (simp add: node_settings_def demo_endpoints demo_arrays NodeConfig_default_def PlatformTypeFromString_def)

lemma demo_reads:
  "Manager_read GetUInt16 demo_node_env ''NODE_HANDLER_THREADS'' = Inr 2"
  "Manager_read GetUInt16 demo_node_env ''NODE_SEND_QUEUE_SIZE_PER_HANDLER_THREAD'' = Inr 100"
  "Manager_read GetString demo_node_env ''TRUSTED_COORDINATOR_IP'' = Inr ''127.0.0.1''"
  "Manager_read GetString demo_node_env ''NODE_LOCAL_KMS_PATH'' = Inr ''./kms''"
  "Manager_HasKey demo_node_env ''ENABLE_KERNEL_FIREWALL'' = Inr False"
  using parse_u16_text [of 0 2] parse_u16_text [of 0 100]
  by (simp_all add: Manager_read_def Manager_HasKey_def GetConfig_def demo_node_env_def GetUInt16_def GetString_def
      HasKey_def)

lemma demo_waits: "fst (node_main demo_system [''--id'', ''node_1''] demo_process) = Waiting"
proof -
  have "Manager_Initialize (ny_config_files demo_system) ''local'' demo_node_env = (True, demo_node_env)"
    by (simp add: Manager_Initialize_def demo_node_env_def)
  then show ?thesis
    by (simp add: node_main_def demo_settings node_boot_def ResManager_Initialize_def ResManager_start_def
        demo_reads KMSManager_InitializeLocal_def KMSManager_start_def start_service_def LocalKMS_Initialize_def
        LocalKMS_def fs_exists_def demo_fs_def demo_process_def node_serve_def NodeServer_new_def NodeConfig_IsValid_def
        NodeConfig_default_def NodeServer_Initialize_def SetupCallbacks_def NodeTcpServer_new_def Tcp_Initialize_def
        Server_InitializeTlsContext_def load_material_def demo_material_def demo_system_def
        ThreadSafeQueue_def INVALID_SOCKET_VALUE_def node_security_def NodeServer_Start_def Tcp_Start_def
        EnableKernelFirewall_def SetTrustedCoordinator_def SetMessageHandler_def)
qed


end
