(* ===== verification/Coordinator_Main.thy ===== *)
theory Coordinator_Main
  imports Coordinator_Server Kms Resource_Loader
begin

text \<open>
  The program of the coordinator, \<open>src/coordinator/main.cpp\<close>: its arguments, the set-up of the
  managers and of the server, the registration of the nodes of the configuration, the attempts
  to connect, and the end after a signal. What the operating system, OpenSSL and the clients'
  connection attempts answer is the record \<open>coordinator_system\<close>.
\<close>

section \<open>Arguments\<close>

text \<open>
  The loop over \<open>argv[1..]\<close>: \<open>--env\<close> with a value is an option, any other argument is taken as
  the environment and ends the loop, \<open>--help\<close> ends the program (\<open>None\<close>).
\<close>

fun coordinator_args :: "string list \<Rightarrow> string \<Rightarrow> string option" where
  "coordinator_args [] env_type = Some env_type"
| "coordinator_args [arg] env_type = (if arg = ''--help'' \<or> arg = ''-h'' then None else Some arg)"
| "coordinator_args (arg # val # rest) env_type =
     (if arg = ''--help'' \<or> arg = ''-h'' then None
      else if arg = ''--env'' then coordinator_args rest val
      else Some arg)"

definition coordinator_required_keys :: "string list" where
  "coordinator_required_keys =
     [''COORDINATOR_PLATFORM'', ''NODE_HOSTS'', ''NODE_IDS'', ''NODE_PLATFORMS'', ''NODE_SHARD_INDICES'',
      ''MPC_THRESHOLD'', ''MPC_TOTAL_SHARDS'', ''COORDINATOR_HTTPS_PORT'', ''TLS_CERT_COORDINATOR_WALLET'',
      ''TLS_KMS_COORDINATOR_WALLET_KEY_ID'']"

section \<open>The nodes of the configuration\<close>

text \<open>The settings of the node at an index, with the defaults for the lists that are too short.\<close>

definition node_entry ::
  "string list \<Rightarrow> string list \<Rightarrow> u16 list \<Rightarrow> nat \<Rightarrow> string \<times> PlatformType \<times> u32" where
  "node_entry node_ids platforms shard_indices i =
     (if i < length node_ids then node_ids ! i else ''node_'' @ to_string (i + 1),
      PlatformTypeFromString (if i < length platforms then platforms ! i else ''LOCAL''),
      if i < length shard_indices then ucast (shard_indices ! i) else word_of_nat i)"

text \<open>The loop over the endpoints: the first registration that fails or throws ends it.\<close>

fun register_nodes ::
  "(string \<Rightarrow> PlatformType \<Rightarrow> string \<Rightarrow> u16 \<Rightarrow> u32 \<Rightarrow> 'f coordinator \<Rightarrow> (exn + bool) \<times> 'f coordinator)
     \<Rightarrow> (nat \<Rightarrow> string \<times> PlatformType \<times> u32) \<Rightarrow> nat \<Rightarrow> (string \<times> u16) list \<Rightarrow> 'f coordinator
     \<Rightarrow> (exn + bool) \<times> 'f coordinator" where
  "register_nodes register entry i [] s = (Inr True, s)"
| "register_nodes register entry i (e # es) s =
     (let (node_id, platform, shard_index) = entry i
      in case register node_id platform (fst e) (snd e) shard_index s of
           (Inr True, s') \<Rightarrow> register_nodes register entry (Suc i) es s'
         | (r, s') \<Rightarrow> (r, s'))"

text \<open>The attempts to connect: a failure is only logged. \<open>None\<close>: an attempt does not return.\<close>

fun connect_nodes ::
  "(string \<Rightarrow> 'f coordinator \<Rightarrow> (bool \<times> 'f coordinator) option) \<Rightarrow> string list \<Rightarrow> 'f coordinator
     \<Rightarrow> 'f coordinator option" where
  "connect_nodes connect [] s = Some s"
| "connect_nodes connect (n # ns) s =
     (case connect n s of None \<Rightarrow> None | Some (_, s') \<Rightarrow> connect_nodes connect ns s')"

section \<open>The program\<close>

record 'f coordinator_process =
  cp_env :: env_manager
  cp_resources :: res_manager
  cp_kms :: kms_manager
  cp_files :: file_system
  cp_server :: "'f coordinator"

record coordinator_system =
  cy_config_files :: "string \<Rightarrow> string option"
  cy_assertions :: bool
  cy_faults :: fs_faults
  cy_material :: "env_manager \<Rightarrow> res_manager \<Rightarrow> kms_manager \<Rightarrow> file_system \<Rightarrow> tls_material"
  cy_clock :: "nat \<Rightarrow> u64"
  cy_ssl :: ssl_operations
  cy_listening :: "exn + unit"
  cy_hardware_threads :: nat
  cy_tls_env :: tls_env
  cy_connect :: "node_client \<Rightarrow> (bool \<times> node_client) option"
  cy_now :: u64

datatype coordinator_end = Exits int | Waits | Aborts | Hangs

definition coordinator_nodes ::
  "coordinator_system \<Rightarrow> 'f coordinator_process \<Rightarrow> coordinator_end \<times> 'f coordinator_process" where
  "coordinator_nodes y p =
     (let em = cp_env p;
          w = cy_material y em (cp_resources p) (cp_kms p) (cp_files p)
      in case exn_bind (Manager_read GetNodeEndpoints em ''NODE_HOSTS'') (\<lambda>endpoints.
              exn_bind (Manager_read GetStringArray em ''NODE_IDS'') (\<lambda>node_ids.
              exn_bind (Manager_read GetStringArray em ''NODE_PLATFORMS'') (\<lambda>platforms.
              exn_bind (Manager_read GetUInt16Array em ''NODE_SHARD_INDICES'') (\<lambda>shards.
              exn_bind (Manager_read GetUInt32 em ''MPC_THRESHOLD'') (\<lambda>threshold.
              exn_bind (Manager_read GetUInt32 em ''MPC_TOTAL_SHARDS'') (\<lambda>total_shards.
                Inr (endpoints, node_ids, platforms, shards))))))) of
           Inl _ \<Rightarrow> (Exits 1, p)
         | Inr (endpoints, node_ids, platforms, shards) \<Rightarrow>
             if endpoints = [] then (Exits 1, p)
             else case register_nodes (RegisterNode em w (cy_tls_env y)) (node_entry node_ids platforms shards) 0
                        endpoints (cp_server p) of
               (Inl _, s) \<Rightarrow> (Exits 1, p\<lparr>cp_server := s\<rparr>)
             | (Inr False, s) \<Rightarrow> (Exits 1, p\<lparr>cp_server := s\<rparr>)
             | (Inr True, s) \<Rightarrow>
                 (case connect_nodes (\<lambda>n. ConnectToNode n (cy_connect y)) node_ids s of
                    None \<Rightarrow> (Hangs, p\<lparr>cp_server := s\<rparr>)
                  | Some s' \<Rightarrow>
                      (case exn_bind (Manager_read GetString em ''COORDINATOR_HTTPS_BIND'') (\<lambda>_.
                             Manager_read GetUInt16 em ''COORDINATOR_HTTPS_PORT'') of
                         Inl _ \<Rightarrow> (Exits 1, p\<lparr>cp_server := s'\<rparr>)
                       | Inr _ \<Rightarrow> (Waits, p\<lparr>cp_server := s'\<rparr>))))"

definition coordinator_servers ::
  "coordinator_system \<Rightarrow> 'f coordinator_process \<Rightarrow> coordinator_end \<times> 'f coordinator_process" where
  "coordinator_servers y p =
     (let w = cy_material y (cp_env p) (cp_resources p) (cp_kms p) (cp_files p);
          (ok, s) = Coordinator_Initialize (cp_server p)
      in if \<not> ok then (Exits 1, p\<lparr>cp_server := s\<rparr>) else
      let (ok, s) = Coordinator_Start s
      in if \<not> ok then (Exits 1, p\<lparr>cp_server := s\<rparr>) else
      let (ok, s) = InitializeHttpsServer (cp_env p) (cy_clock y) (cy_ssl y) w (cy_listening y) s
      in if \<not> ok then (Exits 1, p\<lparr>cp_server := s\<rparr>) else
      let (ok, s) = StartHttpsServer (cy_hardware_threads y) s
      in if \<not> ok then (Exits 1, p\<lparr>cp_server := s\<rparr>)
         else coordinator_nodes y (p\<lparr>cp_server := s\<rparr>))"

definition coordinator_boot ::
  "coordinator_system \<Rightarrow> PlatformType \<Rightarrow> 'f coordinator_process \<Rightarrow> coordinator_end \<times> 'f coordinator_process" where
  "coordinator_boot y platform p =
     (case ResManager_Initialize platform (cp_resources p) of
        (Inl _, rm) \<Rightarrow> (Exits 1, p\<lparr>cp_resources := rm\<rparr>)
      | (Inr _, rm) \<Rightarrow>
          (let p = p\<lparr>cp_resources := rm\<rparr>
           in case (if platform = LOCAL then Manager_read GetString (cp_env p) ''COORDINATOR_LOCAL_KMS_PATH''
                    else Inr []) of
                Inl _ \<Rightarrow> (Exits 1, p)
              | Inr path \<Rightarrow>
                  (case KMSManager_InitializeLocal (cy_assertions y) (cy_faults y) platform path
                          (cp_kms p) (cp_files p) of
                     None \<Rightarrow> (Aborts, p)
                   | Some (Inl _, km, fs) \<Rightarrow> (Exits 1, p\<lparr>cp_kms := km, cp_files := fs\<rparr>)
                   | Some (Inr _, km, fs) \<Rightarrow> coordinator_servers y (p\<lparr>cp_kms := km, cp_files := fs\<rparr>))))"

definition coordinator_main ::
  "coordinator_system \<Rightarrow> string list \<Rightarrow> 'f coordinator_process \<Rightarrow> coordinator_end \<times> 'f coordinator_process" where
  "coordinator_main y args p =
     (case coordinator_args args ''local'' of
        None \<Rightarrow> (Exits 0, p)
      | Some env_type \<Rightarrow>
          let (ok, em) = Manager_Initialize (cy_config_files y) env_type (cp_env p);
              p = p\<lparr>cp_env := em\<rparr>
          in if \<not> ok then (Exits 1, p)
             else case Manager_ValidateRequired em coordinator_required_keys of
               Inl _ \<Rightarrow> (Exits 1, p)
             | Inr _ \<Rightarrow>
                 (case Manager_read GetString em ''COORDINATOR_PLATFORM'' of
                    Inl _ \<Rightarrow> (Exits 1, p)
                  | Inr platform_type \<Rightarrow>
                      let platform = PlatformTypeFromString platform_type
                      in if platform = UNKNOWN then (Exits 1, p) else coordinator_boot y platform p))"

text \<open>After the signal: \<open>Stop\<close>, a second time when the handler has called it already.\<close>

definition coordinator_shutdown ::
  "coordinator_system \<Rightarrow> 'f coordinator_process \<Rightarrow> coordinator_end \<times> 'f coordinator_process" where
  "coordinator_shutdown y p =
     (case Coordinator_Stop (cy_now y) (cp_server p) of
        None \<Rightarrow> (Hangs, p)
      | Some s \<Rightarrow>
          (case Coordinator_Stop (cy_now y) s of
             None \<Rightarrow> (Hangs, p\<lparr>cp_server := s\<rparr>)
           | Some s' \<Rightarrow> (Exits 0, p\<lparr>cp_server := s'\<rparr>)))"

section \<open>The registry that the configuration gives\<close>

text \<open>The registry as a list: what is known of each node, in the order of registration.\<close>

definition node_table :: "'f coordinator \<Rightarrow> (string \<times> string \<times> u16 \<times> PlatformType \<times> u32) list" where
  "node_table s = map (\<lambda>(k, c). (k, node_info c)) (co_nodes s)"

fun configured_nodes ::
  "(nat \<Rightarrow> string \<times> PlatformType \<times> u32) \<Rightarrow> nat \<Rightarrow> (string \<times> u16) list \<Rightarrow> (string \<times> string \<times> u16 \<times> PlatformType \<times> u32) list" where
  "configured_nodes entry i [] = []"
| "configured_nodes entry i ((address, port) # es) =
     (let (n, p, sh) = entry i in (n, address, port, p, sh) # configured_nodes entry (Suc i) es)"

lemma registry_table: "registry s = map_of (node_table s)"
  by (simp add: registry_eq_map node_table_def)

lemma RegisterNode_table:
  assumes "RegisterNode config w e n p a port sh s = (Inr True, s')"
  shows "node_table s' = node_table s @ [(n, a, port, p, sh)] \<and> n \<notin> fst ` set (node_table s) \<and>
    n \<noteq> [] \<and> a \<noteq> [] \<and> port \<noteq> 0 \<and> co_running s' = co_running s \<and> co_https s' = co_https s"
  using assms
  by (cases rule: RegisterNode_cases)
    (auto simp: node_table_def HasNode_def map_of_eq_None_iff image_iff)

lemma register_nodes_table:
  "register_nodes (RegisterNode config w e) entry i es s = (Inr True, s') \<Longrightarrow> distinct (map fst (node_table s)) \<Longrightarrow>
   node_table s' = node_table s @ configured_nodes entry i es \<and> distinct (map fst (node_table s')) \<and>
   co_running s' = co_running s \<and> co_https s' = co_https s"
proof (induction es arbitrary: i s)
  case (Cons x es)
  obtain a port where x: "x = (a, port)" by (cases x)
  obtain n p sh where en: "entry i = (n, p, sh)" by (cases "entry i")
  obtain r s1 where r: "RegisterNode config w e n p a port sh s = (r, s1)" by fastforce
  with Cons.prems(1) x en have ok: "r = Inr True"
    and rest: "register_nodes (RegisterNode config w e) entry (Suc i) es s1 = (Inr True, s')"
    by (auto split: sum.splits bool.splits)
  note t = RegisterNode_table [OF r [unfolded ok]]
  then have "distinct (map fst (node_table s1))" using Cons.prems(2) by auto
  note d1 = this
  from Cons.IH [OF rest d1] have "node_table s' = node_table s1 @ configured_nodes entry (Suc i) es"
    "distinct (map fst (node_table s'))" "co_running s' = co_running s1 \<and> co_https s' = co_https s1" by blast+
  with t x en show ?case by (simp del: distinct_append map_append)
qed simp

lemma put_client_table:
  "map_of (co_nodes s) n = Some c \<Longrightarrow> node_info c' = node_info c \<Longrightarrow> distinct (map fst (node_table s)) \<Longrightarrow>
   node_table (put_client n c' s) = node_table s"
proof -
  assume c: "map_of (co_nodes s) n = Some c" "node_info c' = node_info c"
    and d: "distinct (map fst (node_table s))"
  have "distinct (map fst (co_nodes s))" using d by (simp add: node_table_def comp_def split_def)
  then have "b = c" if "(n, b) \<in> set (co_nodes s)" for b
    using c(1) map_of_is_SomeI that by fastforce
  then show ?thesis using c(2) by (auto simp: node_table_def put_client_def)
qed

text \<open>An attempt to connect keeps what is known of the node.\<close>

definition keeps_identity :: "(node_client \<Rightarrow> (bool \<times> node_client) option) \<Rightarrow> bool" where
  "keeps_identity connect \<longleftrightarrow> (\<forall>c ok c'. connect c = Some (ok, c') \<longrightarrow> node_info c' = node_info c)"

lemma connect_nodes_table:
  "connect_nodes (\<lambda>n. ConnectToNode n connect) ns s = Some s' \<Longrightarrow> keeps_identity connect \<Longrightarrow>
   distinct (map fst (node_table s)) \<Longrightarrow>
   node_table s' = node_table s \<and> co_running s' = co_running s \<and> co_https s' = co_https s"
proof (induction ns arbitrary: s)
  case (Cons n ns)
  from Cons.prems(1) obtain ok s1 where c: "ConnectToNode n connect s = Some (ok, s1)"
    and rest: "connect_nodes (\<lambda>n. ConnectToNode n connect) ns s1 = Some s'"
    by (auto split: option.splits)
  have s1: "node_table s1 = node_table s \<and> co_running s1 = co_running s \<and> co_https s1 = co_https s"
  proof (cases "map_of (co_nodes s) n")
    case None
    with c show ?thesis by (simp add: ConnectToNode_def FindNodeClientInternal_def)
  next
    case (Some client)
    with c obtain client' where cl: "connect client = Some (ok, client')" "s1 = put_client n client' s"
      by (auto simp: ConnectToNode_def FindNodeClientInternal_def split: option.splits)
    with Cons.prems(2) have "node_info client' = node_info client" by (auto simp: keeps_identity_def)
    from put_client_table [OF Some this Cons.prems(3)] cl(2) show ?thesis by (simp add: put_client_def)
  qed
  with Cons.IH [OF rest Cons.prems(2)] Cons.prems(3) show ?case by simp
qed simp

section \<open>Property\<close>

text \<open>Each step of the set-up, when the program gets to the wait.\<close>

lemma coordinator_nodes_Waits:
  assumes "coordinator_nodes y p = (Waits, p')" and connect: "keeps_identity (cy_connect y)"
    and d: "distinct (map fst (node_table (cp_server p)))"
  shows "\<exists>endpoints node_ids platforms shards.
    Manager_read GetNodeEndpoints (cp_env p) ''NODE_HOSTS'' = Inr endpoints \<and>
    Manager_read GetStringArray (cp_env p) ''NODE_IDS'' = Inr node_ids \<and>
    Manager_read GetStringArray (cp_env p) ''NODE_PLATFORMS'' = Inr platforms \<and>
    Manager_read GetUInt16Array (cp_env p) ''NODE_SHARD_INDICES'' = Inr shards \<and>
    node_table (cp_server p') = node_table (cp_server p) @ configured_nodes (node_entry node_ids platforms shards) 0 endpoints \<and>
    distinct (map fst (node_table (cp_server p'))) \<and>
    co_running (cp_server p') = co_running (cp_server p) \<and> co_https (cp_server p') = co_https (cp_server p) \<and>
    cp_env p' = cp_env p \<and> cp_resources p' = cp_resources p"
proof -
  define w where "w = cy_material y (cp_env p) (cp_resources p) (cp_kms p) (cp_files p)"
  from assms(1) obtain endpoints node_ids platforms shards where
    reads: "Manager_read GetNodeEndpoints (cp_env p) ''NODE_HOSTS'' = Inr endpoints"
      "Manager_read GetStringArray (cp_env p) ''NODE_IDS'' = Inr node_ids"
      "Manager_read GetStringArray (cp_env p) ''NODE_PLATFORMS'' = Inr platforms"
      "Manager_read GetUInt16Array (cp_env p) ''NODE_SHARD_INDICES'' = Inr shards"
    and run: "(if endpoints = [] then (Exits 1, p)
             else case register_nodes (RegisterNode (cp_env p) w (cy_tls_env y)) (node_entry node_ids platforms shards) 0
                        endpoints (cp_server p) of
               (Inl _, s) \<Rightarrow> (Exits 1, p\<lparr>cp_server := s\<rparr>)
             | (Inr False, s) \<Rightarrow> (Exits 1, p\<lparr>cp_server := s\<rparr>)
             | (Inr True, s) \<Rightarrow>
                 (case connect_nodes (\<lambda>n. ConnectToNode n (cy_connect y)) node_ids s of
                    None \<Rightarrow> (Hangs, p\<lparr>cp_server := s\<rparr>)
                  | Some s' \<Rightarrow>
                      (case exn_bind (Manager_read GetString (cp_env p) ''COORDINATOR_HTTPS_BIND'') (\<lambda>_.
                             Manager_read GetUInt16 (cp_env p) ''COORDINATOR_HTTPS_PORT'') of
                         Inl _ \<Rightarrow> (Exits 1, p\<lparr>cp_server := s'\<rparr>)
                       | Inr _ \<Rightarrow> (Waits, p\<lparr>cp_server := s'\<rparr>)))) = (Waits, p')"
    unfolding coordinator_nodes_def Let_def w_def [symmetric]
    by (auto simp: exn_bind_eq_Inr split: sum.split_asm prod.split_asm)
  obtain r s1 where reg: "register_nodes (RegisterNode (cp_env p) w (cy_tls_env y)) (node_entry node_ids platforms shards) 0
      endpoints (cp_server p) = (r, s1)" by fastforce
  with run have r: "r = Inr True" by (auto split: if_splits sum.splits bool.splits)
  from run reg r obtain s2 where con: "connect_nodes (\<lambda>n. ConnectToNode n (cy_connect y)) node_ids s1 = Some s2"
    and p': "p' = p\<lparr>cp_server := s2\<rparr>"
    by (auto split: if_splits option.splits sum.splits)
  note t1 = register_nodes_table [OF reg [unfolded r] d]
  with connect_nodes_table [OF con connect] reads p' show ?thesis by auto
qed

lemma coordinator_servers_Waits:
  assumes "coordinator_servers y p = (Waits, p')"
  shows "\<exists>s. coordinator_nodes y (p\<lparr>cp_server := s\<rparr>) = (Waits, p') \<and> co_running s \<and> IsHttpsServerRunning s \<and>
    node_table s = node_table (cp_server p)"
proof -
  define w where "w = cy_material y (cp_env p) (cp_resources p) (cp_kms p) (cp_files p)"
  obtain b1 s1 where i: "Coordinator_Initialize (cp_server p) = (b1, s1)" by fastforce
  obtain b2 s2 where st: "Coordinator_Start s1 = (b2, s2)" by fastforce
  obtain b3 s3 where h: "InitializeHttpsServer (cp_env p) (cy_clock y) (cy_ssl y) w (cy_listening y) s2 = (b3, s3)"
    by fastforce
  obtain b4 s4 where hs: "StartHttpsServer (cy_hardware_threads y) s3 = (b4, s4)" by fastforce
  from assms i st h hs have ok: "b1" "b2" "b3" "b4" and n: "coordinator_nodes y (p\<lparr>cp_server := s4\<rparr>) = (Waits, p')"
    by (auto simp: coordinator_servers_def Let_def w_def split: if_splits)
  have "co_nodes s1 = co_nodes (cp_server p)" using i by (auto simp: Coordinator_Initialize_def split: if_splits)
  moreover have "co_nodes s2 = co_nodes s1 \<and> co_running s2"
    using st ok by (auto simp: Coordinator_Start_def split: if_splits)
  moreover have "co_nodes s3 = co_nodes s2 \<and> co_running s3 = co_running s2"
    using h by (auto simp: InitializeHttpsServer_def split: sum.splits if_splits prod.splits)
  moreover have "co_nodes s4 = co_nodes s3 \<and> co_running s4 = co_running s3"
    using hs by (auto simp: StartHttpsServer_def split: option.splits prod.splits)
  moreover have "IsHttpsServerRunning s4"
    using hs ok by (auto simp: StartHttpsServer_def IsHttpsServerRunning_def Https_Start_def DoAccept_def
        split: option.splits prod.splits if_splits)
  ultimately show ?thesis using n by (auto simp: node_table_def)
qed

lemma coordinator_boot_Waits:
  assumes "coordinator_boot y platform p = (Waits, p')"
  shows "platform = LOCAL \<and> (\<exists>rm km fs. ResManager_IsInitialized rm \<and>
    coordinator_servers y (p\<lparr>cp_resources := rm, cp_kms := km, cp_files := fs\<rparr>) = (Waits, p'))"
proof -
  obtain r rm where rm: "ResManager_Initialize platform (cp_resources p) = (r, rm)" by fastforce
  with assms have r: "r = Inr ()" by (cases r) (simp_all add: coordinator_boot_def)
  have local: "platform = LOCAL" and ready: "ResManager_IsInitialized rm"
    using ResManager_Initialize_Inr [OF rm [unfolded r]] by simp_all
  from assms rm r local obtain path where path: "Manager_read GetString (cp_env p) ''COORDINATOR_LOCAL_KMS_PATH'' = Inr path"
    by (cases "Manager_read GetString (cp_env p) ''COORDINATOR_LOCAL_KMS_PATH''") (simp_all add: coordinator_boot_def)
  obtain r2 km fs where k: "KMSManager_InitializeLocal (cy_assertions y) (cy_faults y) LOCAL path (cp_kms p) (cp_files p)
      = Some (r2, km, fs)"
    by (cases "KMSManager_InitializeLocal (cy_assertions y) (cy_faults y) LOCAL path (cp_kms p) (cp_files p)")
      (auto simp: KMSManager_InitializeLocal_def split: if_splits)
  from assms rm r local path k have "r2 = Inr ()" by (cases r2) (simp_all add: coordinator_boot_def)
  with assms rm r local path k ready show ?thesis by (auto simp: coordinator_boot_def)
qed

text \<open>
  C21. When the program of the coordinator gets as far as waiting for a signal, its platform is
  \<open>LOCAL\<close>, the coordinator and its HTTPS server run, and the registry holds exactly the endpoints
  of the configuration in their order, under distinct names: each with the name, the platform
  and the shard index at its position, or \<open>node_<i+1>\<close>, \<open>LOCAL\<close> and \<open>i\<close> where a list is too short.
  Whether any node is connected does not matter.
\<close>

theorem coordinator_main_serves:
  assumes main: "coordinator_main y args p = (Waits, p')" and fresh: "co_nodes (cp_server p) = []"
    and connect: "keeps_identity (cy_connect y)"
  shows "\<exists>env_type endpoints node_ids platforms shards ptext.
    coordinator_args args ''local'' = Some env_type \<and>
    Manager_Initialize (cy_config_files y) env_type (cp_env p) = (True, cp_env p') \<and>
    Manager_read GetString (cp_env p') ''COORDINATOR_PLATFORM'' = Inr ptext \<and> PlatformTypeFromString ptext = LOCAL \<and>
    Manager_read GetNodeEndpoints (cp_env p') ''NODE_HOSTS'' = Inr endpoints \<and>
    Manager_read GetStringArray (cp_env p') ''NODE_IDS'' = Inr node_ids \<and>
    Manager_read GetStringArray (cp_env p') ''NODE_PLATFORMS'' = Inr platforms \<and>
    Manager_read GetUInt16Array (cp_env p') ''NODE_SHARD_INDICES'' = Inr shards \<and>
    node_table (cp_server p') = configured_nodes (node_entry node_ids platforms shards) 0 endpoints \<and>
    distinct (map fst (node_table (cp_server p'))) \<and>
    co_running (cp_server p') \<and> IsHttpsServerRunning (cp_server p') \<and> ResManager_IsInitialized (cp_resources p')"
proof -
  from main obtain env_type where a: "coordinator_args args ''local'' = Some env_type"
    by (auto simp: coordinator_main_def split: option.splits)
  obtain ok em where e: "Manager_Initialize (cy_config_files y) env_type (cp_env p) = (ok, em)" by fastforce
  from main a e have "ok" by (cases ok) (simp_all add: coordinator_main_def)
  with main a e obtain ptext where ptext: "Manager_read GetString em ''COORDINATOR_PLATFORM'' = Inr ptext"
    and b: "coordinator_boot y (PlatformTypeFromString ptext) (p\<lparr>cp_env := em\<rparr>) = (Waits, p')"
    by (auto simp: coordinator_main_def Let_def split: sum.splits if_splits)
  from coordinator_boot_Waits [OF b] obtain rm km fs where local: "PlatformTypeFromString ptext = LOCAL"
    and rm: "ResManager_IsInitialized rm"
    and s: "coordinator_servers y (p\<lparr>cp_env := em, cp_resources := rm, cp_kms := km, cp_files := fs\<rparr>) = (Waits, p')"
    by auto
  from coordinator_servers_Waits [OF s] obtain t where
    n: "coordinator_nodes y (p\<lparr>cp_env := em, cp_resources := rm, cp_kms := km, cp_files := fs, cp_server := t\<rparr>) = (Waits, p')"
    and t: "co_running t" "IsHttpsServerRunning t" "node_table t = []"
    using fresh by (auto simp: node_table_def)
  from coordinator_nodes_Waits [OF n connect] t ptext local rm a e \<open>ok\<close> show ?thesis
    by (auto simp: IsHttpsServerRunning_def)
qed

text \<open>A coordinator with two nodes, the second of them without a platform and a shard index.\<close>

definition demo_coordinator_env :: env_manager where
  "demo_coordinator_env = \<lparr>em_config = Some (EnvConfig_default\<lparr>ec_env_type := ''local'', ec_map :=
     [''COORDINATOR_PLATFORM'' \<mapsto> ''LOCAL'', ''NODE_HOSTS'' \<mapsto> join_with CHR '','' (map endpoint_text [(''h'', 9081), (''i'', 9082)]),
      ''NODE_IDS'' \<mapsto> ''a,b'', ''NODE_PLATFORMS'' \<mapsto> ''AWS'', ''NODE_SHARD_INDICES'' \<mapsto> to_string 5,
      ''MPC_THRESHOLD'' \<mapsto> to_string 2, ''MPC_TOTAL_SHARDS'' \<mapsto> to_string 3,
      ''COORDINATOR_HTTPS_PORT'' \<mapsto> to_string 9080, ''TLS_CERT_COORDINATOR_WALLET'' \<mapsto> ''w.pem'',
      ''TLS_KMS_COORDINATOR_WALLET_KEY_ID'' \<mapsto> ''wk'', ''COORDINATOR_LOCAL_KMS_PATH'' \<mapsto> ''./kms'',
      ''COORDINATOR_HTTPS_BIND'' \<mapsto> ''127.0.0.1'', ''COORDINATOR_HTTPS_MAX_CONNECTIONS'' \<mapsto> to_string 10,
      ''COORDINATOR_HTTPS_HANDLER_THREADS'' \<mapsto> to_string 2, ''TLS_CERT_PATHS'' \<mapsto> ''a.pem,b.pem'',
      ''TLS_KMS_NODES_COORDINATOR_KEY_IDS'' \<mapsto> ''ka,kb'']\<rparr>), em_initialized = True\<rparr>"

definition demo_coordinator_process :: "unit coordinator_process" where
  "demo_coordinator_process = \<lparr>cp_env = demo_coordinator_env, cp_resources = ResManager_start,
     cp_kms = KMSManager_start, cp_files = demo_fs, cp_server = CoordinatorServer_new 0\<rparr>"

definition demo_coordinator_system :: coordinator_system where
  "demo_coordinator_system = \<lparr>cy_config_files = \<lambda>_. None, cy_assertions = True, cy_faults = no_faults,
     cy_material = \<lambda>_ _ _ _. demo_material, cy_clock = \<lambda>_. 0,
     cy_ssl = \<lparr>so_create = Inr (), so_load_verify_file = \<lambda>_. Inr (), so_use_certificate_chain_file = \<lambda>_. Inr (),
       so_use_private_key = \<lambda>_. Inr ()\<rparr>,
     cy_listening = Inr (), cy_hardware_threads = 4, cy_tls_env = idle_env, cy_connect = \<lambda>c. Some (False, c), cy_now = 9\<rparr>"

lemma demo_coordinator_numbers:
  "Manager_read GetUInt32 demo_coordinator_env ''MPC_THRESHOLD'' = Inr 2"
  "Manager_read GetUInt32 demo_coordinator_env ''MPC_TOTAL_SHARDS'' = Inr 3"
  "Manager_read GetUInt32 demo_coordinator_env ''COORDINATOR_HTTPS_MAX_CONNECTIONS'' = Inr 10"
  "Manager_read GetUInt32 demo_coordinator_env ''COORDINATOR_HTTPS_HANDLER_THREADS'' = Inr 2"
  "Manager_read GetUInt16 demo_coordinator_env ''COORDINATOR_HTTPS_PORT'' = Inr 9080"
  "Manager_read GetUInt16Array demo_coordinator_env ''NODE_SHARD_INDICES'' = Inr [5]"
  using GetUInt32_text [of 2 "the (em_config demo_coordinator_env)" "''MPC_THRESHOLD''"]
    GetUInt32_text [of 3 "the (em_config demo_coordinator_env)" "''MPC_TOTAL_SHARDS''"]
    GetUInt32_text [of 10 "the (em_config demo_coordinator_env)" "''COORDINATOR_HTTPS_MAX_CONNECTIONS''"]
    GetUInt32_text [of 2 "the (em_config demo_coordinator_env)" "''COORDINATOR_HTTPS_HANDLER_THREADS''"]
    parse_u16_text [of 0 9080] parse_u16_text [of 0 5] to_string_plain [of 5]
  by (simp_all add: Manager_read_def GetConfig_def demo_coordinator_env_def GetUInt16_def GetString_def
      GetUInt16Array_def GetStringArray_def getlines_last trim_trimmed)

lemma demo_coordinator_texts:
  "Manager_read GetStringArray demo_coordinator_env ''NODE_IDS'' = Inr [''a'', ''b'']"
  "Manager_read GetStringArray demo_coordinator_env ''NODE_PLATFORMS'' = Inr [''AWS'']"
  "Manager_read GetStringArray demo_coordinator_env ''TLS_CERT_PATHS'' = Inr [''a.pem'', ''b.pem'']"
  "Manager_read GetStringArray demo_coordinator_env ''TLS_KMS_NODES_COORDINATOR_KEY_IDS'' = Inr [''ka'', ''kb'']"
  "Manager_read GetString demo_coordinator_env ''COORDINATOR_PLATFORM'' = Inr ''LOCAL''"
  "Manager_read GetString demo_coordinator_env ''COORDINATOR_LOCAL_KMS_PATH'' = Inr ''./kms''"
  "Manager_read GetString demo_coordinator_env ''COORDINATOR_HTTPS_BIND'' = Inr ''127.0.0.1''"
  "Manager_read GetString demo_coordinator_env ''TLS_CERT_COORDINATOR_WALLET'' = Inr ''w.pem''"
  "Manager_read GetString demo_coordinator_env ''TLS_KMS_COORDINATOR_WALLET_KEY_ID'' = Inr ''wk''"
  "Manager_ValidateRequired demo_coordinator_env coordinator_required_keys = Inr ()"
  by (simp_all add: Manager_read_def Manager_ValidateRequired_def ValidateRequired_def GetConfig_def demo_coordinator_env_def
      GetStringArray_def GetString_def getlines_def trim_trimmed trimmed_def is_blank_def coordinator_required_keys_def
      HasKey_def endpoint_text_def)

lemma demo_coordinator_endpoints:
  "Manager_read GetNodeEndpoints demo_coordinator_env ''NODE_HOSTS'' = Inr [(''h'', 9081), (''i'', 9082)]"
proof -
  have "GetNodeEndpoints (the (em_config demo_coordinator_env)) ''NODE_HOSTS'' = Inr [(''h'', 9081), (''i'', 9082)]"
    by (rule GetNodeEndpoints_text) (auto simp: demo_coordinator_env_def endpoint_ok_def trimmed_def is_blank_def)
  then show ?thesis by (simp add: Manager_read_def GetConfig_def demo_coordinator_env_def)
qed

lemma demo_register_node:
  assumes "node_id = ''a'' \<or> node_id = ''b''" and "\<not> HasNode node_id s" and "address \<noteq> []" and "port \<noteq> 0"
  shows "\<exists>s'. RegisterNode demo_coordinator_env demo_material idle_env node_id p address port sh s = (Inr True, s') \<and>
    (\<forall>n. HasNode n s' \<longleftrightarrow> n = node_id \<or> HasNode n s) \<and> co_https s' = co_https s"
  using assms
  by (auto simp: RegisterNode_def demo_coordinator_texts Client_Initialize_def NodeTcpClient_new_def
      Client_InitializeTlsContext_def load_material_def demo_material_def ThreadSafeQueue_def HasNode_def map_add_def
      split: option.splits)

lemma demo_https_server:
  "\<exists>s3. InitializeHttpsServer demo_coordinator_env (\<lambda>_. 0) (cy_ssl demo_coordinator_system) demo_material (Inr ()) s =
     (True, s3) \<and> co_nodes s3 = co_nodes s \<and> (\<exists>h. co_https s3 = Some h \<and> hv_initialized h)"
proof -
  define cfg where "cfg = HttpsServerConfig_default\<lparr>hc_bind_address := ''127.0.0.1'', hc_bind_port := 9080,
    hc_max_connections := 10, hc_handler_threads := 2, hc_tls_cert_path := ''w.pem'', hc_tls_key_id := ''wk''\<rparr>"
  have cfg: "https_config demo_coordinator_env = Inr cfg"
    by (simp add: https_config_def demo_coordinator_texts demo_coordinator_numbers cfg_def)
  have sizes: "hc_handler_threads cfg = 2" "hc_max_connections cfg = 10" "hc_tls_cert_path cfg \<noteq> []" "hc_tls_key_id cfg \<noteq> []"
    by (simp_all add: cfg_def)
  then obtain h :: "'a https_server" where h: "CoordinatorHttpsServer_new cfg = Inr h" "\<not> hv_initialized h" "hv_config h = cfg"
    by (auto simp: CoordinatorHttpsServer_new_def)
  obtain h1 where h1: "InitializeRouter (\<lambda>_. 0) h = (True, h1)" "hv_config h1 = cfg"
    using h(3) by (cases "mr_initialized (hv_router h)")
      (simp_all add: InitializeRouter_def WalletMessageRouter_Initialize_def Let_def)
  have tls: "Https_InitializeTlsContext (cy_ssl demo_coordinator_system) demo_material"
    by (simp add: Https_InitializeTlsContext_def https_tls_body_def demo_material_def demo_coordinator_system_def)
  obtain q :: "'a pool" where "ThreadPool_new 2 = Inr q" by (simp add: ThreadPool_new_def ThreadSafeQueue_def)
  then have "InitializeThreadPool (h1\<lparr>hv_tls := True\<rparr>) = (True, h1\<lparr>hv_tls := True, hv_pool := Some q\<rparr>)"
    using h1 sizes by (simp add: InitializeThreadPool_def)
  with h h1 tls have "Https_Initialize (\<lambda>_. 0) (cy_ssl demo_coordinator_system) demo_material (Inr ()) h =
      (True, h1\<lparr>hv_tls := True, hv_pool := Some q, hv_acceptor_open := True, hv_initialized := True\<rparr>)"
    by (simp add: Https_Initialize_def)
  with cfg sizes h show ?thesis by (simp add: InitializeHttpsServer_def)
qed

lemma demo_coordinator_waits: "fst (coordinator_main demo_coordinator_system [] demo_coordinator_process) = Waits"
proof -
  let ?entry = "node_entry [''a'', ''b''] [''AWS''] [5]"
  have n0: "\<not> HasNode n (s :: unit coordinator)" if "co_nodes s = []" for n s using that by (simp add: HasNode_def)
  have reg: "\<exists>s'. register_nodes (RegisterNode demo_coordinator_env demo_material idle_env) ?entry 0
      [(''h'', 9081), (''i'', 9082)] s = (Inr True, s')" if empty: "co_nodes s = []" for s :: "unit coordinator"
  proof -
    obtain s1 where s1: "RegisterNode demo_coordinator_env demo_material idle_env ''a'' AWS ''h'' 9081 5 s = (Inr True, s1)"
      and h1: "\<forall>n. HasNode n s1 \<longleftrightarrow> n = ''a'' \<or> HasNode n s"
      using demo_register_node [of "''a''" s "''h''" 9081 AWS 5] n0 [OF empty] by auto
    have "\<not> HasNode ''b'' s1" using h1 n0 [OF empty] by simp
    then obtain s2 where "RegisterNode demo_coordinator_env demo_material idle_env ''b'' LOCAL ''i'' 9082 1 s1 = (Inr True, s2)"
      using demo_register_node [of "''b''" s1 "''i''" 9082 LOCAL 1] by auto
    with s1 show ?thesis by (simp add: node_entry_def PlatformTypeFromString_def)
  qed
  have con: "\<exists>s'. connect_nodes (\<lambda>n. ConnectToNode n (\<lambda>c. Some (False, c))) ns s = Some s'" for ns and s :: "unit coordinator"
  proof (induction ns arbitrary: s)
    case (Cons n ns)
    show ?case
      using Cons.IH by (auto simp: ConnectToNode_def split: option.splits)
  qed simp
  have nodes: "fst (coordinator_nodes demo_coordinator_system p) = Waits"
    if p: "cp_env p = demo_coordinator_env" "co_nodes (cp_server p) = []" for p :: "unit coordinator_process"
  proof -
    obtain s1 where s1: "register_nodes (RegisterNode demo_coordinator_env demo_material idle_env) ?entry 0
      [(''h'', 9081), (''i'', 9082)] (cp_server p) = (Inr True, s1)" using reg [OF p(2)] by blast
    obtain s2 where "connect_nodes (\<lambda>n. ConnectToNode n (\<lambda>c. Some (False, c))) [''a'', ''b''] s1 = Some s2"
      using con by blast
    with p s1 show ?thesis
      unfolding coordinator_nodes_def
      by (simp add: demo_coordinator_endpoints demo_coordinator_texts demo_coordinator_numbers
          demo_coordinator_system_def Let_def del: register_nodes.simps connect_nodes.simps)
  qed
  have servers: "fst (coordinator_servers demo_coordinator_system p) = Waits"
    if p: "cp_env p = demo_coordinator_env" "cp_server p = CoordinatorServer_new 0" for p :: "unit coordinator_process"
  proof -
    define s2 where "s2 = (CoordinatorServer_new 0 :: unit coordinator)\<lparr>co_initialized := True, co_running := True\<rparr>"
    obtain s3 where h: "InitializeHttpsServer demo_coordinator_env (\<lambda>_. 0) (cy_ssl demo_coordinator_system)
        demo_material (Inr ()) s2 = (True, s3)" and n3: "co_nodes s3 = co_nodes s2"
        and c3: "\<exists>h. co_https s3 = Some h \<and> hv_initialized h"
      using demo_https_server by blast
    have n3: "co_nodes s3 = []" using n3 by (simp add: s2_def CoordinatorServer_new_def)
    obtain b4 s4 where st: "StartHttpsServer 4 s3 = (b4, s4)" by fastforce
    with c3 n3 have "b4" "co_nodes s4 = []"
      by (auto simp: StartHttpsServer_def Https_Start_def split: if_splits)
    then show ?thesis
      using nodes [of "p\<lparr>cp_server := s4\<rparr>"] p h st
      by (simp add: coordinator_servers_def Coordinator_Initialize_def Coordinator_Start_def s2_def
          CoordinatorServer_new_def demo_coordinator_system_def)
  qed
  have "Manager_Initialize (cy_config_files demo_coordinator_system) ''local'' demo_coordinator_env = (True, demo_coordinator_env)"
    by (simp add: Manager_Initialize_def demo_coordinator_env_def)
  moreover have "cy_faults demo_coordinator_system = no_faults" "cy_assertions demo_coordinator_system"
    by (simp_all add: demo_coordinator_system_def)
  ultimately show ?thesis
    using servers
    by (simp add: coordinator_main_def demo_coordinator_texts PlatformTypeFromString_def coordinator_boot_def
        ResManager_Initialize_def ResManager_start_def demo_coordinator_process_def KMSManager_InitializeLocal_def
        KMSManager_start_def start_service_def LocalKMS_Initialize_def LocalKMS_def fs_exists_def demo_fs_def)
qed

theorem coordinator_main_serves_witness:
  "node_table (cp_server (snd (coordinator_main demo_coordinator_system [] demo_coordinator_process))) =
     [(''a'', ''h'', 9081, AWS, 5), (''b'', ''i'', 9082, LOCAL, 1)]"
proof -
  obtain p' where m: "coordinator_main demo_coordinator_system [] demo_coordinator_process = (Waits, p')"
    using demo_coordinator_waits by (cases "coordinator_main demo_coordinator_system [] demo_coordinator_process") auto
  have "co_nodes (cp_server demo_coordinator_process) = []"
    by (simp add: demo_coordinator_process_def CoordinatorServer_new_def)
  moreover have "keeps_identity (cy_connect demo_coordinator_system)"
    by (simp add: keeps_identity_def demo_coordinator_system_def)
  moreover have env: "Manager_Initialize (cy_config_files demo_coordinator_system) ''local'' demo_coordinator_env =
      (True, demo_coordinator_env)"
    by (simp add: Manager_Initialize_def demo_coordinator_env_def)
  ultimately obtain endpoints node_ids platforms shards where
    e: "Manager_Initialize (cy_config_files demo_coordinator_system) ''local'' (cp_env demo_coordinator_process) =
      (True, cp_env p')"
    and r: "Manager_read GetNodeEndpoints (cp_env p') ''NODE_HOSTS'' = Inr endpoints"
      "Manager_read GetStringArray (cp_env p') ''NODE_IDS'' = Inr node_ids"
      "Manager_read GetStringArray (cp_env p') ''NODE_PLATFORMS'' = Inr platforms"
      "Manager_read GetUInt16Array (cp_env p') ''NODE_SHARD_INDICES'' = Inr shards"
    and t: "node_table (cp_server p') = configured_nodes (node_entry node_ids platforms shards) 0 endpoints"
    using coordinator_main_serves [OF m] by auto
  from e env have c: "cp_env p' = demo_coordinator_env" by (simp add: demo_coordinator_process_def)
  have "endpoints = [(''h'', 9081), (''i'', 9082)]" "node_ids = [''a'', ''b'']" "platforms = [''AWS'']" "shards = [5]"
    using r unfolding c demo_coordinator_endpoints demo_coordinator_texts demo_coordinator_numbers by simp_all
  with t m show ?thesis by (simp add: node_entry_def PlatformTypeFromString_def)
qed

end
