(* ===== verification/Signing_Round.thy ===== *)
theory Signing_Round
  imports Node_Tcp_Client Node_Server "HOL-Library.Sublist"
begin

text \<open>
  The coordinator's client and a node's server joined by their connection: what one end has
  written to its socket is moved, in pieces of any size, to what the other end reads. The
  components are the models of \<open>Node_Tcp_Client\<close>, \<open>Node_Tcp_Server\<close> and \<open>Node_Server\<close>; the
  theory holds what their composition adds, up to the answer of a signing request.
\<close>

section \<open>An open link\<close>

text \<open>
  The state of one end whose connection can still transfer \<open>r\<close> bytes in and \<open>w\<close> bytes out: the
  scripts of the socket only make progress or ask for a retry of their own direction, and there
  is a wait that ends well for every retry.
\<close>

definition retries :: "ssl_outcome list \<Rightarrow> nat" where
  "retries rs = length rs - progress_count rs"

definition open_link :: "nat \<Rightarrow> nat \<Rightarrow> tls_conn \<Rightarrow> tls_env \<Rightarrow> bool" where
  "open_link r w c e \<longleftrightarrow>
     tc_state c = S_CONNECTED
     \<and> list_all (\<lambda>x. case x of Progress _ \<Rightarrow> True | Failed err \<Rightarrow> err = SSL_ERROR_WANT_READ) (te_reads e)
     \<and> list_all (\<lambda>x. case x of Progress _ \<Rightarrow> True | Failed err \<Rightarrow> err = SSL_ERROR_WANT_WRITE) (te_writes e)
     \<and> list_all (\<lambda>s. s > 0) (te_selects e)
     \<and> retries (te_reads e) + retries (te_writes e) \<le> length (te_selects e)
     \<and> r \<le> progress_count (te_reads e) \<and> w \<le> progress_count (te_writes e)"

lemma retries_simps [simp]:
  "retries (Progress k # rs) = retries rs" "retries (Failed err # rs) = Suc (retries rs)"
  using progress_count_le [of rs] by (auto simp: retries_def Suc_diff_le)

lemma open_link_healthy:
  assumes "open_link r w c e"
  shows "healthy SSL_ERROR_WANT_READ (te_reads e) (te_selects e)"
    and "healthy SSL_ERROR_WANT_WRITE (te_writes e) (te_selects e)"
  using assms by (auto simp: open_link_def healthy_def retries_def)

text \<open>What a transfer leaves alone, and how many waits it used.\<close>

lemma Write_frame:
  "Write bs c e = Some (r, n, c', e') \<Longrightarrow> te_reads e' = te_reads e \<and> te_selects e' = te_selects e
     \<and> (r = TlsError.NONE \<longrightarrow> retries (te_writes e') \<le> retries (te_writes e))
     \<and> (r = WANT_WRITE \<longrightarrow> retries (te_writes e) = Suc (retries (te_writes e')))"
proof (erule Write_cases, goal_cases)
  case (3 err rs)
  then show ?case by (cases err) (auto simp: SetError_def)
qed auto

lemma WaitForIO_frame:
  "WaitForIO d t e = Some (b, e') \<Longrightarrow> te_reads e' = te_reads e \<and> te_writes e' = te_writes e
     \<and> te_out e' = te_out e \<and> te_in e' = te_in e \<and> (\<exists>x. te_selects e = x # te_selects e')"
  by (auto simp: WaitForIO_Some_iff)

lemma WriteExact_frame:
  "WriteExact bs c e = Some (TlsError.NONE, c', e') \<Longrightarrow>
     te_reads e' = te_reads e \<and> suffix (te_selects e') (te_selects e)
     \<and> retries (te_writes e') + length (te_selects e) \<le> retries (te_writes e) + length (te_selects e')"
proof (induction bs c e rule: WriteExact.induct)
  case (1 bs c e)
  show ?case
  proof (cases "bs = []")
    case True
    with "1.prems" show ?thesis by (simp add: WriteExact.simps)
  next
    case False
    with "1.prems" obtain err n c1 e1 where wr: "Write bs c e = Some (err, n, c1, e1)"
      by (auto simp: WriteExact.simps [of bs c e] split: option.splits)
    note run = "1.prems" [unfolded WriteExact.simps [of bs c e] wr, simplified False]
    consider (want) "err = WANT_WRITE" | (more) "err = TlsError.NONE"
      using run by (auto split: if_splits)
    then show ?thesis
    proof cases
      case want
      with run obtain e2 where w: "WaitForIO False (cc_write_timeout_ms (tc_config c1)) e1 = Some (True, e2)"
        and rec: "WriteExact bs c1 e2 = Some (TlsError.NONE, c', e')"
        by (auto split: option.splits if_splits)
      have "te_reads e' = te_reads e2 \<and> suffix (te_selects e') (te_selects e2)
          \<and> retries (te_writes e') + length (te_selects e2) \<le> retries (te_writes e2) + length (te_selects e')"
        using "1.IH"(1) [OF False wr refl refl refl _ want w refl _ rec] want by simp
      moreover obtain x where "te_selects e1 = x # te_selects e2" "te_reads e2 = te_reads e1" "te_writes e2 = te_writes e1"
        using WaitForIO_frame [OF w] by auto
      ultimately show ?thesis using Write_frame [OF wr] want by (auto simp: suffix_def)
    next
      case more
      with run have rec: "WriteExact (drop n bs) c1 e1 = Some (TlsError.NONE, c', e')" by simp
      from "1.IH"(2) [OF False wr refl refl refl _ _ rec] Write_frame [OF wr] more show ?thesis by simp
    qed
  qed
qed

lemma Read_frame:
  "Read n c e = Some (r, bs, c', e') \<Longrightarrow> te_writes e' = te_writes e \<and> te_selects e' = te_selects e
     \<and> te_out e' = te_out e
     \<and> (r = TlsError.NONE \<longrightarrow> retries (te_reads e') \<le> retries (te_reads e))
     \<and> (r = WANT_READ \<longrightarrow> retries (te_reads e) = Suc (retries (te_reads e')))"
proof (erule Read_cases, goal_cases)
  case (3 err rs)
  then show ?case by (cases err) (auto simp: SetError_def)
qed auto

lemma ReadExact_loop_frame:
  "ReadExact_loop n acc c e = Some (TlsError.NONE, bs, c', e') \<Longrightarrow>
     te_writes e' = te_writes e \<and> te_out e' = te_out e \<and> suffix (te_selects e') (te_selects e)
     \<and> retries (te_reads e') + length (te_selects e) \<le> retries (te_reads e) + length (te_selects e')"
proof (induction n acc c e rule: ReadExact_loop.induct)
  case (1 n acc c e)
  show ?case
  proof (cases "length acc < n")
    case False
    with "1.prems" show ?thesis by (simp add: ReadExact_loop.simps)
  next
    case True
    with "1.prems" obtain err ys c1 e1 where rd: "Read (n - length acc) c e = Some (err, ys, c1, e1)"
      by (auto simp: ReadExact_loop.simps [of n acc c e] split: option.splits)
    note run = "1.prems" [unfolded ReadExact_loop.simps [of n acc c e] rd, simplified True]
    consider (want) "err = WANT_READ" | (more) "err = TlsError.NONE"
      using run by (auto split: if_splits)
    then show ?thesis
    proof cases
      case want
      with run obtain e2 where w: "WaitForIO True (cc_read_timeout_ms (tc_config c1)) e1 = Some (True, e2)"
        and rec: "ReadExact_loop n acc c1 e2 = Some (TlsError.NONE, bs, c', e')"
        by (auto split: option.splits if_splits)
      have "te_writes e' = te_writes e2 \<and> te_out e' = te_out e2 \<and> suffix (te_selects e') (te_selects e2)
          \<and> retries (te_reads e') + length (te_selects e2) \<le> retries (te_reads e2) + length (te_selects e')"
        using "1.IH"(1) [OF True rd refl refl refl _ want w refl _ rec] want by simp
      moreover obtain x where "te_selects e1 = x # te_selects e2" "te_reads e2 = te_reads e1"
          "te_writes e2 = te_writes e1" "te_out e2 = te_out e1"
        using WaitForIO_frame [OF w] by auto
      ultimately show ?thesis using Read_frame [OF rd] want by (auto simp: suffix_def)
    next
      case more
      with run have rec: "ReadExact_loop n (acc @ ys) c1 e1 = Some (TlsError.NONE, bs, c', e')" by simp
      from "1.IH"(2) [OF True rd refl refl refl _ _ rec] Read_frame [OF rd] more show ?thesis by simp
    qed
  qed
qed


lemmas ReadExact_frame = ReadExact_loop_frame [where acc = "[]", folded ReadExact_def]

text \<open>Whole messages.\<close>

lemma Node_WriteMessage_frame:
  assumes "Node_WriteMessage m c e = Some (True, c', e')"
  shows "te_reads e' = te_reads e \<and> suffix (te_selects e') (te_selects e)
     \<and> retries (te_writes e') + length (te_selects e) \<le> retries (te_writes e) + length (te_selects e')"
proof -
  from assms obtain c1 e1 where w1: "WriteExact (header_image (nm_header m)) c e = Some (TlsError.NONE, c1, e1)"
    and rest: "WriteExact (nm_body m) c1 e1 = Some (TlsError.NONE, c', e') \<or> e' = e1"
    by (auto simp: Node_WriteMessage_def split: option.splits if_splits)
  from rest show ?thesis
  proof
    assume "WriteExact (nm_body m) c1 e1 = Some (TlsError.NONE, c', e')"
    from WriteExact_frame [OF w1] WriteExact_frame [OF this] show ?thesis
      by (auto intro: suffix_order.trans)
  qed (use WriteExact_frame [OF w1] in simp)
qed

lemma ReadMessage_frame:
  assumes "ReadMessage c e = Some (Some m, c', e')"
  shows "te_writes e' = te_writes e \<and> te_out e' = te_out e \<and> suffix (te_selects e') (te_selects e)
     \<and> retries (te_reads e') + length (te_selects e) \<le> retries (te_reads e) + length (te_selects e')"
proof -
  from assms obtain hbytes c1 e1 where r1: "ReadExact sizeof_MessageHeader c e = Some (TlsError.NONE, hbytes, c1, e1)"
    by (auto simp: ReadMessage_def split: option.splits if_splits)
  with assms have rest: "(\<exists>n bs. ReadExact n c1 e1 = Some (TlsError.NONE, bs, c', e')) \<or> e' = e1"
    by (auto simp: ReadMessage_def Let_def split: option.splits if_splits) blast
  from rest show ?thesis
  proof
    assume "\<exists>n bs. ReadExact n c1 e1 = Some (TlsError.NONE, bs, c', e')"
    then obtain n bs where r2: "ReadExact n c1 e1 = Some (TlsError.NONE, bs, c', e')" by blast
    from ReadExact_frame [OF r1] ReadExact_frame [OF r2] show ?thesis
      by (auto intro: suffix_order.trans)
  qed (use ReadExact_frame [OF r1] in simp)
qed

lemma positive_suffix: "suffix xs ys \<Longrightarrow> list_all P ys \<Longrightarrow> list_all P xs"
  by (auto simp: suffix_def)

text \<open>An open link accepts a message and delivers one, and stays open for what remains.\<close>

lemma open_link_write:
  assumes "open_link r w c e" and "well_sized m" and "GetTotalSize m \<le> w"
  shows "\<exists>c' e'. Node_WriteMessage m c e = Some (True, c', e') \<and> te_out e' = te_out e @ message_image m
    \<and> te_in e' = te_in e \<and> open_link r (w - GetTotalSize m) c' e'"
proof -
  have "tc_state c = S_CONNECTED" "GetTotalSize m \<le> progress_count (te_writes e)"
    using assms by (auto simp: open_link_def)
  from Node_WriteMessage_complete [OF this(1) open_link_healthy(2) [OF assms(1)] assms(2) this(2)]
  obtain c' e' where w: "Node_WriteMessage m c e = Some (True, c', e')" "te_out e' = te_out e @ message_image m"
    "tc_state c' = S_CONNECTED" "te_in e' = te_in e" "healthy SSL_ERROR_WANT_WRITE (te_writes e') (te_selects e')"
    "progress_count (te_writes e) \<le> progress_count (te_writes e') + GetTotalSize m" by blast
  have "open_link r (w - GetTotalSize m) c' e'"
    using assms(1) Node_WriteMessage_frame [OF w(1)] w(3,5,6)
    by (auto simp: open_link_def healthy_def intro: positive_suffix)
  with w show ?thesis by blast
qed

lemma open_link_read:
  assumes "open_link r w c e" and "Validate m = OK" and "GetTotalSize m \<le> r" and "te_in e = message_image m @ rest"
  shows "\<exists>c' e'. ReadMessage c e = Some (Some m, c', e') \<and> te_in e' = rest \<and> te_out e' = te_out e
    \<and> open_link (r - GetTotalSize m) w c' e'"
proof -
  have "tc_state c = S_CONNECTED" "GetTotalSize m \<le> progress_count (te_reads e)"
    using assms by (auto simp: open_link_def)
  from ReadMessage_complete [OF this(1) open_link_healthy(1) [OF assms(1)] this(2) assms(2,4)]
  obtain c' e' where r: "ReadMessage c e = Some (Some m, c', e')" "te_in e' = rest"
    "tc_state c' = S_CONNECTED" "healthy SSL_ERROR_WANT_READ (te_reads e') (te_selects e')"
    "progress_count (te_reads e) \<le> progress_count (te_reads e') + GetTotalSize m" by blast
  have "open_link (r - GetTotalSize m) w c' e'"
    using assms(1) ReadMessage_frame [OF r(1)] r(3,4,5)
    by (auto simp: open_link_def healthy_def intro: positive_suffix)
  with r ReadMessage_frame [OF r(1)] show ?thesis by blast
qed

section \<open>A session\<close>

text \<open>
  A run of both ends over one connection, in any order: calls of \<open>SendRequestAsync\<close> with their
  two parts, timeouts, the two loops of the client and of the node, the workers of the node's
  pool, and the network, which moves the first \<open>k\<close> bytes that one end has written. The client
  may disconnect; a further connection is not part of the session. The list collects the
  requests with the ids that they were given.
\<close>

inductive link_session ::
  "(CoordinatorNodeMessage \<Rightarrow> string option) \<Rightarrow> node_client \<times> node_server
     \<Rightarrow> (u64 \<times> CoordinatorNodeMessage) list \<Rightarrow> node_client \<times> node_server \<Rightarrow> bool"
  for serialize x0 where
  se_start: "link_session serialize x0 [] x0"
| se_register: "\<lbrakk>link_session serialize x0 L (s, n); Async_register (Some r) s = (Inr i, s')\<rbrakk>
    \<Longrightarrow> link_session serialize x0 (L @ [(i, r)]) (s', n)"
| se_push: "\<lbrakk>link_session serialize x0 L (s, n); job \<in> set (cl_sending s); Async_push serialize now job s = Some (x, s')\<rbrakk>
    \<Longrightarrow> link_session serialize x0 L (s', n)"
| se_timeout: "link_session serialize x0 L (s, n) \<Longrightarrow> link_session serialize x0 L (SendRequest_timeout req_id s, n)"
| se_client_send: "\<lbrakk>link_session serialize x0 L (s, n); Client_SendLoop_step now s = Some s'\<rbrakk> \<Longrightarrow> link_session serialize x0 L (s', n)"
| se_client_receive:
    "\<lbrakk>link_session serialize x0 L (s, n); Client_ReceiveLoop_step now s = Some s'\<rbrakk> \<Longrightarrow> link_session serialize x0 L (s', n)"
| se_disconnect: "\<lbrakk>link_session serialize x0 L (s, n); Disconnect_begin s = (r, s')\<rbrakk> \<Longrightarrow> link_session serialize x0 L (s', n)"
| se_finish: "\<lbrakk>link_session serialize x0 L (s, n); Disconnect_finish s = Some s'\<rbrakk> \<Longrightarrow> link_session serialize x0 L (s', n)"
| se_node_receive: "\<lbrakk>link_session serialize x0 L (s, n); ReceiveLoop_step now u n = Some n'\<rbrakk> \<Longrightarrow> link_session serialize x0 L (s, n')"
| se_node_task: "\<lbrakk>link_session serialize x0 L (s, n); m \<in># ts_tasks n\<rbrakk> \<Longrightarrow> link_session serialize x0 L (s, finish_task m n)"
| se_node_send: "\<lbrakk>link_session serialize x0 L (s, n); SendLoop_step now n = Some n'\<rbrakk> \<Longrightarrow> link_session serialize x0 L (s, n')"
| se_to_node: "link_session serialize x0 L (s, n) \<Longrightarrow> link_session serialize x0 L
       (s\<lparr>cl_env := (cl_env s)\<lparr>te_out := drop k (te_out (cl_env s))\<rparr>\<rparr>,
        n\<lparr>ts_env := (ts_env n)\<lparr>te_in := te_in (ts_env n) @ take k (te_out (cl_env s))\<rparr>\<rparr>)"
| se_to_client: "link_session serialize x0 L (s, n) \<Longrightarrow> link_session serialize x0 L
       (s\<lparr>cl_env := (cl_env s)\<lparr>te_in := te_in (cl_env s) @ take k (te_out (ts_env n))\<rparr>\<rparr>,
        n\<lparr>ts_env := (ts_env n)\<lparr>te_out := drop k (te_out (ts_env n))\<rparr>\<rparr>)"

lemma link_session_trans:
  assumes "link_session serialize y M z" and "link_session serialize x L y"
  shows "link_session serialize x (L @ M) z"
  using assms(1)
proof induction
  case se_start
  show ?case using assms(2) by simp
next
  case (se_register L' s n r i s')
  from link_session.se_register [OF se_register(3,2)] show ?case by simp
qed (blast intro: link_session.intros)+

text \<open>
  A client between two requests, with its loops waiting for work, and a node that serves it.
\<close>

definition client_ready :: "nat \<Rightarrow> nat \<Rightarrow> node_client \<Rightarrow> bool" where
  "client_ready r w s \<longleftrightarrow>
     cl_connected s \<and> cl_send_pc s = T_io \<and> cl_recv_pc s = T_io \<and> cl_next_id s \<notin> set (cl_pending s)
     \<and> (\<exists>c. cl_tls s = Some c \<and> open_link r w c (cl_env s))
     \<and> (\<exists>q. cl_queue s = Some q \<and> q_items q = [] \<and> q_max_size q > 0 \<and> \<not> q_shutdown q)
     \<and> te_in (cl_env s) = [] \<and> te_out (cl_env s) = []"

definition node_ready :: "nat \<Rightarrow> nat \<Rightarrow> node_server \<Rightarrow> bool" where
  "node_ready r w n \<longleftrightarrow>
     ts_recv_pc n = L_io \<and> ts_send_pc n = L_io \<and> ts_pool_stopped n = Some False
     \<and> (\<exists>nc c. ts_conn n = Some nc \<and> nc_tls nc = Some c \<and> open_link r w c (ts_env n))
     \<and> (\<exists>q. ts_queue n = Some q \<and> q_items q = [] \<and> q_max_size q > 0 \<and> \<not> q_shutdown q)
     \<and> te_in (ts_env n) = [] \<and> te_out (ts_env n) = []"


section \<open>A round in three parts\<close>

text \<open>The frame of a request, as \<open>SendRequestAsync\<close> queues it.\<close>

definition request_frame :: "u64 \<Rightarrow> u64 \<Rightarrow> u32 \<Rightarrow> string \<Rightarrow> NetworkMessage" where
  "request_frame req_id now type body =
     \<lparr>nm_header = MessageHeader_default\<lparr>mh_message_type := ucast type, mh_body_length := word_of_nat (length body),
        mh_checksum := ComputeChecksum (bytes_of_string body), mh_request_id := req_id, mh_timestamp := now\<rparr>,
      nm_body = bytes_of_string body\<rparr>"

lemma request_frame_facts [simp]:
  "mh_request_id (nm_header (request_frame i now t body)) = i"
  "nm_body (request_frame i now t body) = bytes_of_string body"
  "GetTotalSize (request_frame i now t body) = sizeof_MessageHeader + length body"
  by (simp_all add: request_frame_def GetTotalSize_def)

lemma request_frame_valid: "length body \<le> 1024 * 1024 \<Longrightarrow> Validate (request_frame i now t body) = OK"
  by (simp add: request_frame_def Validate_OK_iff MessageHeader_default_def MessageHeader_new_def MAX_BODY_SIZE_def
      word_le_nat_alt unat_u32_of_nat)

lemma client_sends_request:
  fixes now :: u64 and request :: CoordinatorNodeMessage
  assumes "client_ready r w s" and "serialize request = Some body" and "length body \<le> 1024 * 1024"
    and "sizeof_MessageHeader + length body \<le> w"
  defines "m \<equiv> request_frame (cl_next_id s) now (cm_message_type request) body"
  obtains s1 s2 s' c' where "Async_register (Some request) s = (Inr (cl_next_id s), s1)"
    and "(cl_next_id s, request) \<in> set (cl_sending s1)"
    and "Async_push serialize now (cl_next_id s, request) s1 = Some (Inr (cl_next_id s), s2)"
    and "Client_SendLoop_step now s2 = Some s'" and "te_out (cl_env s') = message_image m"
    and "te_in (cl_env s') = []" and "cl_pending s' = cl_pending s @ [cl_next_id s]"
    and "cl_resolved s' = cl_resolved s" and "cl_connected s'" and "cl_recv_pc s' = T_io"
    and "cl_tls s' = Some c'" and "open_link r (w - GetTotalSize m) c' (cl_env s')"
proof -
  from assms(1) obtain c q where s: "cl_connected s" "cl_send_pc s = T_io" "cl_recv_pc s = T_io"
    "cl_next_id s \<notin> set (cl_pending s)" "cl_tls s = Some c" "open_link r w c (cl_env s)" "cl_queue s = Some q"
    "q_items q = []" "q_max_size q > 0" "\<not> q_shutdown q" "te_in (cl_env s) = []" "te_out (cl_env s) = []"
    by (auto simp: client_ready_def)
  have v: "Validate m = OK" unfolding m_def by (rule request_frame_valid [OF assms(3)])
  have "GetTotalSize m \<le> w" using assms(4) by (simp add: m_def)
  from open_link_write [OF s(6) valid_well_sized [OF v] this] obtain c' e' where
    "Node_WriteMessage m c (cl_env s) = Some (True, c', e')" and e': "te_out e' = message_image m" "te_in e' = []"
    "open_link r (w - GetTotalSize m) c' e'" using s by auto
  then have wr: "Client_WriteMessage m c (cl_env s) = Some (True, c', e')"
    by (simp add: Client_WriteMessage_eq valid_well_sized v)
  let ?job = "(cl_next_id s, request)"
  define s1 where "s1 = snd (Async_register (Some request) s)"
  define s2 where "s2 = snd (the (Async_push serialize now ?job s1))"
  define s3 where "s3 = the (Client_SendLoop_step now s2)"
  have s1: "Async_register (Some request) s = (Inr (cl_next_id s), s1)" "?job \<in> set (cl_sending s1)"
    "cl_pending s1 = cl_pending s @ [cl_next_id s]" "cl_resolved s1 = cl_resolved s" "cl_connected s1"
    "cl_send_pc s1 = T_io" "cl_recv_pc s1 = T_io" "cl_tls s1 = Some c" "cl_queue s1 = Some q" "cl_env s1 = cl_env s"
    using s by (simp_all add: s1_def Async_register_def Let_def)
  have msg: "\<exists>f. ConvertToNetworkMessage serialize (Some request) = Inr f
      \<and> f\<lparr>nm_header := (nm_header f)\<lparr>mh_request_id := cl_next_id s, mh_timestamp := now\<rparr>\<rparr> = m"
    by (simp add: ConvertToNetworkMessage_def assms(2) m_def request_frame_def Let_def)
  have push: "TryPush m q = (SUCCESS, q\<lparr>q_items := [m]\<rparr>)"
    using s by (simp add: TryPush_def push_locked_def not_full_or_shutdown_def)
  have s2: "Async_push serialize now ?job s1 = Some (Inr (cl_next_id s), s2)"
    "cl_pending s2 = cl_pending s1" "cl_resolved s2 = cl_resolved s1" "cl_connected s2"
    "cl_send_pc s2 = T_io" "cl_recv_pc s2 = T_io" "cl_tls s2 = Some c"
    "cl_queue s2 = Some (q\<lparr>q_items := [m]\<rparr>)" "cl_env s2 = cl_env s"
    using s1 msg push by (auto simp: s2_def Async_push_def Let_def)
  have s3: "Client_SendLoop_step now s2 = Some s3" "cl_pending s3 = cl_pending s2"
    "cl_resolved s3 = cl_resolved s2" "cl_connected s3" "cl_recv_pc s3 = T_io" "cl_tls s3 = Some c'" "cl_env s3 = e'"
    using s2 wr by (simp_all add: s3_def Client_SendLoop_step_def Client_SendMessage_def Pop_def pop_locked_def
        not_empty_or_shutdown_def Let_def)
  from that [OF s1(1,2) s2(1) s3(1), of c'] s1 s2 s3 e' show thesis by simp
qed

text \<open>The call of \<open>SendRequest\<close> gets to its wait, and then the frame leaves the client.\<close>

lemma session_sends:
  fixes now :: u64 and request :: CoordinatorNodeMessage
  assumes "client_ready r w s" and "serialize request = Some body" and "length body \<le> 1024 * 1024"
    and "sizeof_MessageHeader + length body \<le> w"
  defines "m \<equiv> request_frame (cl_next_id s) now (cm_message_type request) body"
  obtains s2 s' c' where "SendRequest_begin connect serialize now (Some request) s = Some (Some (cl_next_id s), s2)"
    and "link_session serialize (s, n) [(cl_next_id s, request)] (s2, n)"
    and "link_session serialize (s2, n) [] (s', n)"
    and "te_out (cl_env s') = message_image m"
    and "te_in (cl_env s') = []" and "cl_pending s' = cl_pending s @ [cl_next_id s]"
    and "cl_resolved s' = cl_resolved s" and "cl_connected s'" and "cl_recv_pc s' = T_io"
    and "cl_tls s' = Some c'" and "open_link r (w - GetTotalSize m) c' (cl_env s')"
proof (rule client_sends_request [where serialize = serialize and request = request and now = now, OF assms(1-4)])
  fix s1 s2 s' c'
  assume run: "Async_register (Some request) s = (Inr (cl_next_id s), s1)"
    "(cl_next_id s, request) \<in> set (cl_sending s1)"
    "Async_push serialize now (cl_next_id s, request) s1 = Some (Inr (cl_next_id s), s2)"
    "Client_SendLoop_step now s2 = Some s'"
    and end_state: "te_out (cl_env s') = message_image (request_frame (cl_next_id s) now (cm_message_type request) body)"
    "te_in (cl_env s') = []" "cl_pending s' = cl_pending s @ [cl_next_id s]"
    "cl_resolved s' = cl_resolved s" "cl_connected s'" "cl_recv_pc s' = T_io" "cl_tls s' = Some c'"
    "open_link r (w - GetTotalSize (request_frame (cl_next_id s) now (cm_message_type request) body)) c' (cl_env s')"
  have started: "SendRequest_begin connect serialize now (Some request) s = Some (Some (cl_next_id s), s2)"
    using assms(1) run by (simp add: SendRequest_begin_def EnsureConnection_def client_ready_def)
  have "link_session serialize (s, n) ([] @ [(cl_next_id s, request)]) (s1, n)"
    by (rule se_register [OF se_start run(1)])
  then have "link_session serialize (s, n) [(cl_next_id s, request)] (s1, n)" by simp
  note pushed = se_push [OF this run(2,3)]
  have "link_session serialize (s2, n) [] (s', n)" by (rule se_client_send [OF se_start run(4)])
  from that [OF started pushed this] end_state show thesis by (simp add: m_def)
qed

lemma node_answers_frame:
  assumes "ts_recv_pc n = L_io" and "ts_send_pc n = L_io" and "ts_pool_stopped n = Some False"
    and "ts_conn n = Some nc" and "nc_tls nc = Some c" and "open_link r w c (ts_env n)"
    and "ts_queue n = Some q" and "q_items q = []" and "q_max_size q > 0" and "\<not> q_shutdown q"
    and "te_in (ts_env n) = message_image m" and "te_out (ts_env n) = []"
    and "Validate m = OK" and "GetTotalSize m \<le> r"
    and "Validate (response_for (ts_handler n) m) = OK" and "GetTotalSize (response_for (ts_handler n) m) \<le> w"
  obtains n1 n' where "ReceiveLoop_step 0 (Inr ()) n = Some n1" and "m \<in># ts_tasks n1"
    and "SendLoop_step 0 (finish_task m n1) = Some n'" and "te_out (ts_env n') = message_image (response_for (ts_handler n) m)"
    and "ts_sent n' = ts_sent n @ [mh_request_id (nm_header m)]"
proof -
  let ?reply = "response_for (ts_handler n) m"
  have "te_in (ts_env n) = message_image m @ []" using assms(11) by simp
  from open_link_read [OF assms(6,13,14) this] obtain c1 e1 where
    rd: "ReadMessage c (ts_env n) = Some (Some m, c1, e1)" "te_out e1 = []" "open_link (r - GetTotalSize m) w c1 e1"
    using assms(12) by auto
  from open_link_write [OF rd(3) valid_well_sized [OF assms(15)] assms(16)] obtain c2 e2 where
    wr: "Node_WriteMessage ?reply c1 e1 = Some (True, c2, e2)" "te_out e2 = message_image ?reply"
    using rd(2) by auto
  define n1 where "n1 = the (ReceiveLoop_step 0 (Inr ()) n)"
  define n2 where "n2 = finish_task m n1"
  define n3 where "n3 = the (SendLoop_step 0 n2)"
  have n1: "ReceiveLoop_step 0 (Inr ()) n = Some n1" "m \<in># ts_tasks n1" "ts_send_pc n1 = L_io" "ts_env n1 = e1"
    "ts_queue n1 = Some q" "ts_handler n1 = ts_handler n" "ts_sent n1 = ts_sent n"
    "\<exists>nc. ts_conn n1 = Some nc \<and> nc_tls nc = Some c1"
    using assms(1-7) rd(1) by (simp_all add: n1_def ReceiveLoop_step_def Node_ReceiveMessage_def GetTlsConnection_def
        put_tls_def submit_possible_def submit_request_def touch_request_def Let_def)
  have push: "TryPush ?reply q = (SUCCESS, q\<lparr>q_items := [?reply]\<rparr>)"
    using assms(8-10) by (simp add: TryPush_def push_locked_def not_full_or_shutdown_def)
  have n2: "ts_send_pc n2 = L_io" "ts_env n2 = e1" "ts_queue n2 = Some (q\<lparr>q_items := [?reply]\<rparr>)"
    "ts_sent n2 = ts_sent n" "\<exists>nc. ts_conn n2 = Some nc \<and> nc_tls nc = Some c1"
    using n1 push by (simp_all add: n2_def finish_task_def push_response_def)
  from n2(5) obtain nc1 where nc1: "ts_conn n2 = Some nc1" "nc_tls nc1 = Some c1" by blast
  have n3: "SendLoop_step 0 n2 = Some n3" "te_out (ts_env n3) = message_image ?reply"
    "ts_sent n3 = ts_sent n @ [mh_request_id (nm_header m)]"
    using n2 nc1 wr by (simp_all add: n3_def SendLoop_step_def Pop_def pop_locked_def not_empty_or_shutdown_def
        Node_SendMessage_def GetTlsConnection_def put_tls_def touch_response_def response_for_id Let_def)
  from that [OF n1(1,2), of n3] n3 show thesis by (simp add: n2_def)
qed

lemma client_takes_reply:
  assumes "cl_connected s" and "cl_recv_pc s = T_io" and "cl_tls s = Some c" and "open_link r w c (cl_env s)"
    and "te_in (cl_env s) = message_image m" and "Validate m = OK" and "GetTotalSize m \<le> r"
    and "mh_request_id (nm_header m) \<in> set (cl_pending s)"
  obtains s' where "Client_ReceiveLoop_step 0 s = Some s'" and "cl_resolved s' = cl_resolved s @ [(mh_request_id (nm_header m), Reply m)]"
    and "cl_pending s' = removeAll (mh_request_id (nm_header m)) (cl_pending s)"
proof -
  have "te_in (cl_env s) = message_image m @ []" using assms(5) by simp
  from open_link_read [OF assms(4,6,7) this] obtain c1 e1 where
    rd: "ReadMessage c (cl_env s) = Some (Some m, c1, e1)" by blast
  define s1 where "s1 = the (Client_ReceiveLoop_step 0 s)"
  have "Client_ReceiveLoop_step 0 s = Some s1" and r: "cl_resolved s1 = cl_resolved s @ [(mh_request_id (nm_header m), Reply m)]"
    "cl_pending s1 = removeAll (mh_request_id (nm_header m)) (cl_pending s)"
    using assms(1-3,8) rd by (simp_all add: s1_def Client_ReceiveLoop_step_def Client_ReceiveMessage_def resolve_def Let_def)
  from that [OF this(1) r] show thesis .
qed

section \<open>A signing request from end to end\<close>

lemma response_for_frame:
  assumes "Validate m = OK" and "h m = Inr (proto_frame 0 answer)" and "length answer \<le> 1024 * 1024"
  shows "Validate (response_for (Some h) m) = OK"
    and "GetTotalSize (response_for (Some h) m) = sizeof_MessageHeader + length answer"
    and "nm_body (response_for (Some h) m) = bytes_of_string answer"
  using assms proto_frame_valid [of answer 0]
  by (simp_all add: response_for_def Let_def proto_frame_body GetTotalSize_def Validate_OK_iff)

lemma ConvertFrom_reply:
  assumes "nm_body reply = bytes_of_string answer" and "answer \<noteq> []"
    and "NetworkMessageToProto parse (proto_frame 0 answer) = Some response"
  shows "SendRequest_result parse (Some (Reply reply)) = Some response"
  using assms by (simp add: SendRequest_result_def ConvertFromNetworkMessage_def NetworkMessageToProto_def
      proto_frame_body bytes_of_string_def)

lemma session_answers:
  fixes now :: u64 and request :: CoordinatorNodeMessage
  assumes "client_ready (sizeof_MessageHeader + length answer) (sizeof_MessageHeader + length body) s"
    and "node_ready (sizeof_MessageHeader + length body) (sizeof_MessageHeader + length answer) n"
    and "serialize request = Some body" and "length body \<le> 1024 * 1024" and "length answer \<le> 1024 * 1024"
    and "ts_handler n = Some h"
    and "h (request_frame (cl_next_id s) now (cm_message_type request) body) = Inr (proto_frame 0 answer)"
  defines "reply \<equiv> response_for (Some h) (request_frame (cl_next_id s) now (cm_message_type request) body)"
  obtains s2 s' n' where "SendRequest_begin connect serialize now (Some request) s = Some (Some (cl_next_id s), s2)"
    and "link_session serialize (s2, n) [] (s', n')"
    and "link_session serialize (s, n) [(cl_next_id s, request)] (s', n')"
    and "cl_resolved s' = cl_resolved s @ [(cl_next_id s, Reply reply)]" and "cl_pending s' = cl_pending s"
    and "ts_sent n' = ts_sent n @ [cl_next_id s]" and "nm_body reply = bytes_of_string answer"
proof -
  let ?r = "sizeof_MessageHeader + length answer" and ?w = "sizeof_MessageHeader + length body"
  let ?m = "request_frame (cl_next_id s) now (cm_message_type request) body" 
  obtain s0 s1 c1 where started: "SendRequest_begin connect serialize now (Some request) s = Some (Some (cl_next_id s), s0)"
    "link_session serialize (s, n) [(cl_next_id s, request)] (s0, n)" and sent: "link_session serialize (s0, n) [] (s1, n)" and
    s1: "te_out (cl_env s1) = message_image ?m" "te_in (cl_env s1) = []"
    "cl_pending s1 = cl_pending s @ [cl_next_id s]" "cl_resolved s1 = cl_resolved s" "cl_connected s1"
    "cl_recv_pc s1 = T_io" "cl_tls s1 = Some c1" "open_link ?r (?w - GetTotalSize ?m) c1 (cl_env s1)"
    by (rule session_sends [where serialize = serialize and request = request and now = now and connect = connect,
          OF assms(1,3,4) order_refl])
  have v: "Validate ?m = OK" by (rule request_frame_valid [OF assms(4)])
  note reply = response_for_frame [where h = h, OF v assms(7,5), folded reply_def]
  let ?s2 = "s1\<lparr>cl_env := (cl_env s1)\<lparr>te_out := []\<rparr>\<rparr>"
  let ?n1 = "n\<lparr>ts_env := (ts_env n)\<lparr>te_in := message_image ?m\<rparr>\<rparr>"
  have to_node: "link_session serialize (s0, n) [] (?s2, ?n1)"
    using se_to_node [OF sent, of "length (message_image ?m)"] s1(1) assms(2) by (simp add: node_ready_def)
  from assms(2) obtain nc c q where n: "ts_conn n = Some nc" "nc_tls nc = Some c" "open_link ?w ?r c (ts_env n)"
    "ts_queue n = Some q" "q_items q = []" "q_max_size q > 0" "\<not> q_shutdown q" "te_out (ts_env n) = []"
    "ts_recv_pc n = L_io" "ts_send_pc n = L_io" "ts_pool_stopped n = Some False"
    by (auto simp: node_ready_def)
  have "open_link ?w ?r c (ts_env ?n1)" using n(3) by (simp add: open_link_def)
  then obtain na n2 where work: "ReceiveLoop_step 0 (Inr ()) ?n1 = Some na" "?m \<in># ts_tasks na"
    "SendLoop_step 0 (finish_task ?m na) = Some n2" and n2: "te_out (ts_env n2) = message_image reply"
    "ts_sent n2 = ts_sent n @ [cl_next_id s]"
    using node_answers_frame [of ?n1 nc c ?w ?r q ?m] n v reply assms(6) by (auto simp: reply_def)
  let ?s3 = "?s2\<lparr>cl_env := (cl_env ?s2)\<lparr>te_in := message_image reply\<rparr>\<rparr>"
  let ?n3 = "n2\<lparr>ts_env := (ts_env n2)\<lparr>te_out := []\<rparr>\<rparr>"
  have "link_session serialize (s0, n) [] (?s2, n2)"
    by (rule se_node_send [OF se_node_task [OF se_node_receive [OF to_node work(1)] work(2)] work(3)])
  from se_to_client [OF this, of "length (message_image reply)"]
  have to_client: "link_session serialize (s0, n) [] (?s3, ?n3)" using s1(2) n2(1) by simp
  have id: "mh_request_id (nm_header reply) = cl_next_id s" by (simp add: reply_def response_for_id)
  have "open_link ?r (?w - GetTotalSize ?m) c1 (cl_env ?s3)" using s1(8) by (simp add: open_link_def)
  from client_takes_reply [of ?s3, OF _ _ _ this, of reply] s1 reply id obtain s4 where
    s4: "Client_ReceiveLoop_step 0 ?s3 = Some s4" "cl_resolved s4 = cl_resolved s @ [(cl_next_id s, Reply reply)]"
      "cl_pending s4 = removeAll (cl_next_id s) (cl_pending s1)"
    by auto
  have run: "link_session serialize (s0, n) [] (s4, ?n3)" by (rule se_client_receive [OF to_client s4(1)])
  have "cl_pending s4 = cl_pending s"
    using s4(3) s1(3) assms(1) by (auto simp: client_ready_def removeAll_id)
  then show thesis using that [OF started(1) run] link_session_trans [OF run started(2)] s4(2) n2(2) reply(3) by simp
qed

text \<open>A concrete system: a client and a node after one wait for the socket on either side.\<close>

definition round_env :: tls_env where
  "round_env = idle_env\<lparr>te_reads := Failed SSL_ERROR_WANT_READ # replicate 33 (Progress 0),
     te_writes := replicate 33 (Progress 40), te_selects := [1]\<rparr>"

definition round_client :: node_client where
  "round_client = (NodeTcpClient_new ''n1'' ''10.0.0.7'' 9000 AWS 1 ''c.pem'' ''k1'' round_env)
     \<lparr>cl_connected := True, cl_threads_running := True, cl_tls := Some connected_conn,
      cl_queue := Some \<lparr>q_items = [], q_max_size = 100, q_shutdown = False\<rparr>,
      cl_send_pc := T_io, cl_recv_pc := T_io\<rparr>"

definition round_node :: "message_handler \<Rightarrow> node_server" where
  "round_node h = demo_server\<lparr>ts_handler := Some h, ts_env := round_env, ts_recv_pc := L_io, ts_send_pc := L_io,
     ts_conn := Some (NodeConnectionInfo_default\<lparr>nc_tls := Some connected_conn\<rparr>)\<rparr>"

lemma round_link: "open_link 33 33 connected_conn round_env"
proof -
  have "progress_count (replicate n (Progress k)) = n" "retries (replicate n (Progress k)) = 0" for n k
    by (induction n) (auto simp: retries_def)
  then show ?thesis
    by (simp add: open_link_def round_env_def connected_conn_def idle_env_def list_all_iff)
qed

lemma round_ready: "client_ready 33 33 round_client" "node_ready 33 33 (round_node h)"
  using round_link by (simp_all add: client_ready_def node_ready_def round_client_def round_node_def
      NodeTcpClient_new_def demo_server_def) (simp_all add: round_env_def idle_env_def)

text \<open>A request and its answer, a codec for the two, and the handler that the node installs.\<close>

definition demo_signing :: SigningRequest where
  "demo_signing = \<lparr>sq_header = Some \<lparr>rq_uid = ''u'', rq_send_time = ''t'', rq_request_id = 5\<rparr>, sq_key_id = ''key-1'',
     sq_transaction_data = ''tx'', sq_threshold = 2, sq_total_shards = 3\<rparr>"

definition demo_request :: CoordinatorNodeMessage where
  "demo_request = \<lparr>cm_message_type = 0, cm_payload = Some (Signing_request demo_signing)\<rparr>"

definition demo_response :: CoordinatorNodeMessage where
  "demo_response = signing_success ''NODE_MOCK_SIGNATURE_'' 7 demo_signing"

definition demo_serialize :: "CoordinatorNodeMessage \<Rightarrow> string option" where
  "demo_serialize m = (if m = demo_request then Some ''q'' else if m = demo_response then Some ''a'' else None)"

definition demo_parse :: "bytes \<Rightarrow> CoordinatorNodeMessage option" where
  "demo_parse b = (if b = bytes_of_string ''q'' then Some demo_request
     else if b = bytes_of_string ''a'' then Some demo_response else None)"

definition demo_router :: node_router_state where
  "demo_router = snd (NodeMessageRouter_Initialize 7 (router_new 1))"

definition demo_handler :: message_handler where
  "demo_handler m = (case NodeServer_ProcessMessage demo_parse demo_serialize demo_router m of
     Undefined \<Rightarrow> Inl (Runtime_error '''') | Returns r \<Rightarrow> Inr r)"

lemma demo_codec: "proto_codec demo_serialize demo_parse" "demo_response \<noteq> demo_request"
proof -
  have ne: "bytes_of_string ''a'' \<noteq> bytes_of_string ''q''" by (simp add: bytes_of_string_def byte_of_char_def)
  show r: "demo_response \<noteq> demo_request" by (simp add: demo_response_def demo_request_def signing_success_def)
  show "proto_codec demo_serialize demo_parse"
    using ne r by (auto simp: proto_codec_def demo_serialize_def demo_parse_def)
qed

lemma demo_handler_process:
  "demo_handler q = Inr r \<longleftrightarrow> NodeServer_ProcessMessage demo_parse demo_serialize demo_router q = Returns r"
  by (simp add: demo_handler_def split: behaviour.split)

lemma demo_ready:
  "client_ready (sizeof_MessageHeader + length ''a'') (sizeof_MessageHeader + length ''q'') round_client"
  "node_ready (sizeof_MessageHeader + length ''q'') (sizeof_MessageHeader + length ''a'') (round_node h)"
  using round_ready by (simp_all add: sizeof_MessageHeader_def)

lemma demo_serialized:
  "demo_serialize demo_request = Some ''q''" "demo_serialize demo_response = Some ''a''"
  using demo_codec(2) by (simp_all add: demo_serialize_def)

lemma demo_fields:
  "cl_next_id round_client = 1" "cl_resolved round_client = []" "ts_sent (round_node h) = []"
  "ts_handler (round_node h) = Some h"
  by (simp_all add: round_client_def round_node_def NodeTcpClient_new_def demo_server_def)

lemma signing_call_answered:
  assumes "proto_codec serialize parse"
    and "router = snd (NodeMessageRouter_Initialize start (router_new 1))"
    and "ts_handler n = Some h"
    and "\<And>m r. NodeServer_ProcessMessage parse serialize router m = Returns r \<Longrightarrow> h m = Inr r"
    and "cm_message_type request = 0" and "cm_payload request = Some (Signing_request req)"
    and "serialize request = Some body" and "body \<noteq> []" and "length body \<le> 1024 * 1024"
    and "serialize (signing_success ''NODE_MOCK_SIGNATURE_'' start req) = Some answer"
    and "answer \<noteq> []" and "length answer \<le> 1024 * 1024"
    and "client_ready (sizeof_MessageHeader + length answer) (sizeof_MessageHeader + length body) s"
    and "node_ready (sizeof_MessageHeader + length body) (sizeof_MessageHeader + length answer) n"
  shows "\<exists>s1 s' n' reply.
      SendRequest_begin connect serialize now (Some request) s = Some (Some (cl_next_id s), s1)
    \<and> link_session serialize (s1, n) [] (s', n')
    \<and> link_session serialize (s, n) [(cl_next_id s, request)] (s', n')
    \<and> cl_resolved s' = cl_resolved s @ [(cl_next_id s, Reply reply)] \<and> cl_pending s' = cl_pending s
    \<and> ts_sent n' = ts_sent n @ [cl_next_id s]
    \<and> SendRequest connect serialize parse now (\<lambda>_. s') False (Some request) s
        = Some (Some (signing_success ''NODE_MOCK_SIGNATURE_'' start req), s')"
proof -
  note reply = node_signing_reply [where serialize = serialize and request = request and req = req,
      OF assms(1,2,5,6,7,8) _ assms(10,11)]
  let ?reply = "response_for (Some h) (request_frame (cl_next_id s) now (cm_message_type request) body)"
  have h: "h (request_frame (cl_next_id s) now (cm_message_type request) body) = Inr (proto_frame 0 answer)"
    by (rule assms(4), rule reply(1)) simp
  obtain s1 s' n' where started: "SendRequest_begin connect serialize now (Some request) s = Some (Some (cl_next_id s), s1)"
    and run: "link_session serialize (s1, n) [] (s', n')" "link_session serialize (s, n) [(cl_next_id s, request)] (s', n')"
    "cl_resolved s' = cl_resolved s @ [(cl_next_id s, Reply ?reply)]"
    "cl_pending s' = cl_pending s" "ts_sent n' = ts_sent n @ [cl_next_id s]"
    and body: "nm_body ?reply = bytes_of_string answer"
    by (rule session_answers [where serialize = serialize and request = request and h = h and now = now
          and connect = connect, OF assms(13,14,7,9,12,3) h])
  have "SendRequest_result parse (Some (Reply ?reply)) = Some (signing_success ''NODE_MOCK_SIGNATURE_'' start req)"
    by (rule ConvertFrom_reply [OF body assms(11)], rule reply(2)) (rule request_frame_facts(2))
  then have "SendRequest connect serialize parse now (\<lambda>_. s') False (Some request) s
      = Some (Some (signing_success ''NODE_MOCK_SIGNATURE_'' start req), s')"
    by (simp add: SendRequest_def started future_result_def run(3))
  with started run show ?thesis by blast
qed



end
