(* ===== verification/Wire_Frames.thy ===== *)
theory Wire_Frames
  imports Signing_Round
begin

text \<open>
  Well-formed frames: what every producer of a message in the client and in the node gives, and
  what the receivers make of it.
\<close>

section \<open>The type of a frame\<close>

definition wf_frame :: "NetworkMessage \<Rightarrow> bool" where
  "wf_frame m \<longleftrightarrow> mh_magic (nm_header m) = MAGIC_NUMBER \<and> mh_version (nm_header m) = PROTOCOL_VERSION
     \<and> mh_body_length (nm_header m) = word_of_nat (length (nm_body m)) \<and> length (nm_body m) < 2 ^ 32
     \<and> mh_checksum (nm_header m) = ComputeChecksum (nm_body m)"

lemma wf_frame_well_sized: "wf_frame m \<Longrightarrow> well_sized m"
  by (simp add: wf_frame_def well_sized_def unat_u32_of_nat)

text \<open>A well-formed frame is refused for its size or not at all.\<close>

lemma wf_frame_Validate: "wf_frame m \<Longrightarrow> Validate m = OK \<longleftrightarrow> length (nm_body m) \<le> 1024 * 1024"
  by (auto simp: wf_frame_def Validate_OK_iff MAX_BODY_SIZE_def word_le_nat_alt unat_u32_of_nat)


lemma wf_frame_update [simp]:
  "wf_frame (m\<lparr>nm_header := (nm_header m)\<lparr>mh_request_id := i\<rparr>\<rparr>) \<longleftrightarrow> wf_frame m"
  "wf_frame (m\<lparr>nm_header := (nm_header m)\<lparr>mh_request_id := i, mh_timestamp := t\<rparr>\<rparr>) \<longleftrightarrow> wf_frame m"
  by (simp_all add: wf_frame_def)

section \<open>The producers\<close>

lemmas header_defs = MessageHeader_default_def MessageHeader_new_def

lemma wf_NetworkMessage_string: "length d < 2 ^ 32 \<Longrightarrow> wf_frame (NetworkMessage_string ty d)"
  by (simp add: wf_frame_def NetworkMessage_string_def header_defs Let_def)

lemma wf_proto_frame: "length b < 2 ^ 32 \<Longrightarrow> wf_frame (proto_frame ty b)"
  by (simp add: wf_frame_def proto_frame_def header_defs Let_def)

lemma wf_error_responses:
  assumes "length msg < 2 ^ 31"
  shows "wf_frame (CreateErrorResponse ty msg i)" and "wf_frame (Node_CreateErrorResponse ty msg)"
proof -
  have "length (''success=false|error='' @ msg) < 2 ^ 32" using assms by simp
  from wf_NetworkMessage_string [OF this] show "wf_frame (CreateErrorResponse ty msg i)" "wf_frame (Node_CreateErrorResponse ty msg)"
    unfolding CreateErrorResponse_def Node_CreateErrorResponse_def Let_def by (simp_all only: wf_frame_update)
qed

lemma wf_ConvertToNetworkMessage:
  assumes "\<And>r b. serialize r = Some b \<Longrightarrow> length b < 2 ^ 32" and "ConvertToNetworkMessage serialize request = Inr m"
  shows "wf_frame m"
  using assms(2) assms(1)
  by (auto simp: ConvertToNetworkMessage_def wf_frame_def header_defs Let_def split: option.splits)

lemma wf_NodeServer_ProcessMessage:
  assumes "\<And>r b. serialize r = Some b \<Longrightarrow> length b < 2 ^ 32"
    and "NodeServer_ProcessMessage parse serialize router q = Returns r"
  shows "wf_frame r"
  using assms(2) assms(1) wf_error_responses(2) wf_proto_frame
  by (auto simp: NodeServer_ProcessMessage_def ProtoToNetworkMessage_def Let_def
      split: option.splits behaviour.splits sum.splits)

lemma wf_response_for:
  assumes "\<And>h q r. handler = Some h \<Longrightarrow> h q = Inr r \<Longrightarrow> wf_frame r"
  shows "wf_frame (response_for handler q)"
proof (cases "\<exists>h r. Validate q = OK \<and> handler = Some h \<and> h q = Inr r")
  case True
  then obtain h r where "Validate q = OK" "handler = Some h" "h q = Inr r" by blast
  then show ?thesis using assms [of h q r] by (simp add: response_for_def Let_def)
next
  case False
  then have "Validate q \<noteq> OK \<or> handler = None \<or> (\<exists>h e. handler = Some h \<and> h q = Inl e)"
    by (cases handler) (metis old.sum.exhaust)+
  then obtain msg where "length msg \<le> 1000"
    and r: "response_for handler q = CreateErrorResponse (mh_message_type (nm_header q)) msg (mh_request_id (nm_header q))"
    using response_for_error by blast
  then have "length msg < 2 ^ 31" by simp
  from wf_error_responses(1) [OF this] show ?thesis unfolding r .
qed

lemma Async_push_queued:
  assumes "\<And>r b. serialize r = Some b \<Longrightarrow> length b < 2 ^ 32"
    and "Async_push serialize now job s = Some (Inr i, s')"
  shows "\<exists>q q' f. cl_queue s = Some q \<and> cl_queue s' = Some q' \<and> q_items q' = q_items q @ [f]
    \<and> wf_frame f \<and> mh_request_id (nm_header f) = i"
proof -
  obtain j r where job: "job = (j, r)" by fastforce
  from assms(2) job obtain q m where q: "cl_queue s = Some q" and m: "ConvertToNetworkMessage serialize (Some r) = Inr m"
    by (auto simp: Async_push_def Let_def split: option.splits sum.splits)
  let ?f = "m\<lparr>nm_header := (nm_header m)\<lparr>mh_request_id := j, mh_timestamp := now\<rparr>\<rparr>"
  have "wf_frame ?f" using wf_ConvertToNetworkMessage [OF assms(1) m] by simp
  moreover have "i = j \<and> cl_queue s' = Some (q\<lparr>q_items := q_items q @ [?f]\<rparr>)"
    by (cases rule: TryPush_cases [of ?f q])
      (use assms(2) job q m in \<open>auto simp: Async_push_def Let_def split: if_splits\<close>)
  ultimately show ?thesis using q by (intro exI [of _ q] exI) auto
qed

section \<open>Well-formedness of everything sent\<close>

text \<open>
  C29. Every frame that the client queues and every frame that the node answers with is well
  formed: the magic number and version of the protocol, the length and the checksum of its own
  body, and, for a request, the id it was given. This holds of every outcome of a handler,
  errors included, as long as a serialised message is shorter than 4 GB. The receiver accepts
  such a frame unchanged exactly when its body is at most one megabyte; neither sender checks
  this bound, so a longer one is sent and then refused.
\<close>

theorem frames_well_formed:
  assumes "\<And>r b. serialize r = Some b \<Longrightarrow> length b < 2 ^ 32"
    and "\<And>q r. h q = Inr r \<Longrightarrow> NodeServer_ProcessMessage parse serialize router q = Returns r"
  shows "(Async_push serialize now job s = Some (Inr i, s') \<longrightarrow>
      (\<exists>q q' f. cl_queue s = Some q \<and> cl_queue s' = Some q' \<and> q_items q' = q_items q @ [f]
         \<and> wf_frame f \<and> mh_request_id (nm_header f) = i))
    \<and> wf_frame (response_for (Some h) request) \<and> wf_frame (response_for None request)
    \<and> (wf_frame f \<and> te_in e = message_image f @ rest \<and> ReadMessage c e = Some (Some m, c', e') \<longrightarrow>
         m = f \<and> length (nm_body f) \<le> 1024 * 1024)
    \<and> (wf_frame f \<longrightarrow> (Validate f = OK \<longleftrightarrow> length (nm_body f) \<le> 1024 * 1024))"
proof (intro conjI impI)
  show "\<exists>q q' f. cl_queue s = Some q \<and> cl_queue s' = Some q' \<and> q_items q' = q_items q @ [f]
      \<and> wf_frame f \<and> mh_request_id (nm_header f) = i" if "Async_push serialize now job s = Some (Inr i, s')"
    using Async_push_queued [OF assms(1) that] .
  show "wf_frame (response_for (Some h) request)"
    by (rule wf_response_for) (use wf_NodeServer_ProcessMessage [OF assms(1) assms(2)] in auto)
  show "wf_frame (response_for None request)" by (rule wf_response_for) simp
  assume a: "wf_frame f \<and> te_in e = message_image f @ rest \<and> ReadMessage c e = Some (Some m, c', e')"
  then have m: "message_image m @ te_in e' = message_image f @ rest" "Validate m = OK"
    using ReadMessage_image [of c e m c' e'] by auto
  from image_prefix_free [OF valid_well_sized [OF m(2)] wf_frame_well_sized m(1)] a show "m = f" by simp
  with m(2) a show "length (nm_body f) \<le> 1024 * 1024" using wf_frame_Validate by simp
next
  show "Validate f = OK \<longleftrightarrow> length (nm_body f) \<le> 1024 * 1024" if "wf_frame f"
    using wf_frame_Validate [OF that] .
qed

theorem frames_well_formed_witness:
  "wf_frame (response_for (Some demo_handler) hello) \<and> wf_frame (response_for None hello)
   \<and> (Validate (response_for (Some demo_handler) hello) = OK \<longleftrightarrow>
        length (nm_body (response_for (Some demo_handler) hello)) \<le> 1024 * 1024)"
proof -
  have small: "length b < 2 ^ 32" if "demo_serialize r = Some b" for r b
    using that by (auto simp: demo_serialize_def split: if_splits)
  have h: "NodeServer_ProcessMessage demo_parse demo_serialize demo_router q = Returns r" if "demo_handler q = Inr r" for q r
    using that by (simp add: demo_handler_process)
  note all = frames_well_formed [where serialize = demo_serialize and h = demo_handler and parse = demo_parse
      and router = demo_router and request = hello and f = "response_for (Some demo_handler) hello"]
  have "wf_frame (response_for (Some demo_handler) hello) \<and> wf_frame (response_for None hello)
    \<and> (wf_frame (response_for (Some demo_handler) hello) \<longrightarrow>
      (Validate (response_for (Some demo_handler) hello) = OK \<longleftrightarrow>
        length (nm_body (response_for (Some demo_handler) hello)) \<le> 1024 * 1024))"
    by (intro conjI; rule all [THEN conjunct2, THEN conjunct1] all [THEN conjunct2, THEN conjunct2, THEN conjunct1]
        all [THEN conjunct2, THEN conjunct2, THEN conjunct2, THEN conjunct2]; (erule small | erule h))
  then show ?thesis by blast
qed

end
