(* ===== verification/Correlation.thy ===== *)
theory Correlation
  imports Wire_Frames
begin

text \<open>
  Safety of the composition: in every session of a client and a node, whatever the interleaving,
  a reply that completes a promise is the node's answer to the very request of this promise. The
  bytes under way in one direction are a \<open>stream\<close>; the locale \<open>stream_channel\<close> extends the
  interface of \<open>Message_Io\<close> by what a failing sender and a reader leave, and follows streams
  through both; it is interpreted for both directions.
\<close>

section \<open>Streams\<close>

text \<open>
  The bytes that a reader has still to read, when every message written satisfies \<open>P\<close>: whole
  messages, and after a failed write a part of one more. Nothing is said once the reader has
  given up, because it may have stopped inside a message.
\<close>

definition stream :: "(NetworkMessage \<Rightarrow> bool) \<Rightarrow> bool \<Rightarrow> bool \<Rightarrow> bytes \<Rightarrow> bool" where
  "stream P writing reading bs \<longleftrightarrow> (reading \<longrightarrow>
     (\<exists>ms part. bs = concat (map message_image ms) @ part \<and> list_all (\<lambda>m. P m \<and> well_sized m) ms
        \<and> (writing \<longrightarrow> part = [])
        \<and> (part \<noteq> [] \<longrightarrow> (\<exists>m z. P m \<and> well_sized m \<and> message_image m = part @ z))))"

lemma streamI:
  "\<lbrakk>bs = concat (map message_image ms) @ part; list_all (\<lambda>m. P m \<and> well_sized m) ms; w \<longrightarrow> part = [];
    part = [] \<or> (\<exists>m z. P m \<and> well_sized m \<and> message_image m = part @ z)\<rbrakk> \<Longrightarrow> stream P w r bs"
  unfolding stream_def by blast

lemma streamE:
  assumes "stream P w True bs"
  obtains ms part where "bs = concat (map message_image ms) @ part" "list_all (\<lambda>m. P m \<and> well_sized m) ms"
    "w \<longrightarrow> part = []" "part = [] \<or> (\<exists>m z. P m \<and> well_sized m \<and> message_image m = part @ z)"
  using assms unfolding stream_def by blast

lemma stream_wholeE:
  assumes "stream P True True bs"
  obtains ms where "bs = concat (map message_image ms)" "list_all (\<lambda>m. P m \<and> well_sized m) ms"
  using assms by (rule streamE) (auto intro: that)

lemma stream_Nil [simp]: "stream P w r []"
  by (rule streamI [of _ "[]" "[]"]) simp_all

lemma stream_unread [simp]: "stream P w False bs"
  by (simp add: stream_def)

lemma stream_mono: "stream P w r bs \<Longrightarrow> (\<And>m. P m \<Longrightarrow> Q m) \<Longrightarrow> stream Q w r bs"
proof (cases r)
  case True
  assume "stream P w r bs" and PQ: "\<And>m. P m \<Longrightarrow> Q m"
  with True have "stream P w True bs" by simp
  then obtain ms part where ms: "bs = concat (map message_image ms) @ part" "list_all (\<lambda>m. P m \<and> well_sized m) ms"
    "w \<longrightarrow> part = []" "part = [] \<or> (\<exists>m z. P m \<and> well_sized m \<and> message_image m = part @ z)"
    by (rule streamE)
  show ?thesis by (rule streamI [OF ms(1)]) (use ms PQ in \<open>auto simp: list_all_iff\<close>)
qed simp

lemma stream_less: "stream P w r bs \<Longrightarrow> (w' \<Longrightarrow> w) \<Longrightarrow> (r' \<Longrightarrow> r) \<Longrightarrow> stream P w' r' bs"
  unfolding stream_def by blast

lemma stream_write:
  assumes "stream P True r bs" and "P m" and "well_sized m"
  shows "stream P True r (bs @ message_image m)"
proof (cases r)
  case True
  with assms(1) have "stream P True True bs" by simp
  then obtain ms where "bs = concat (map message_image ms)" "list_all (\<lambda>m. P m \<and> well_sized m) ms"
    by (rule stream_wholeE)
  with assms(2,3) show ?thesis by (intro streamI [of _ "ms @ [m]" "[]"]) simp_all
qed simp

lemma stream_write_part:
  assumes "stream P True r bs" and "P m" and "well_sized m"
  shows "stream P False r (bs @ take k (message_image m))"
proof (cases r)
  case True
  with assms(1) have "stream P True True bs" by simp
  then obtain ms where ms: "bs = concat (map message_image ms)" "list_all (\<lambda>m. P m \<and> well_sized m) ms"
    by (rule stream_wholeE)
  have "\<exists>m' z. P m' \<and> well_sized m' \<and> message_image m' = take k (message_image m) @ z"
    using assms(2,3) by (intro exI [of _ m] exI [of _ "drop k (message_image m)"]) simp
  with ms show ?thesis by (intro streamI [of _ ms "take k (message_image m)"]) simp_all
qed simp

text \<open>The header tells where a message ends, so that a message read is the message written.\<close>

lemma stream_read:
  assumes "stream P w True (message_image m @ bs)" and "well_sized m"
  shows "P m \<and> stream P w True bs"
proof -
  obtain ms part where eq: "message_image m @ bs = concat (map message_image ms) @ part"
    and ms: "list_all (\<lambda>m. P m \<and> well_sized m) ms" and w: "w \<longrightarrow> part = []"
    and part: "part = [] \<or> (\<exists>m z. P m \<and> well_sized m \<and> message_image m = part @ z)"
    by (rule streamE [OF assms(1)])
  have ne: "message_image m \<noteq> []" using length_header_image [of "nm_header m"]
    by (auto simp: message_image_def sizeof_MessageHeader_def simp del: length_header_image)
  show ?thesis
  proof (cases ms)
    case Nil
    with eq ne have p: "part = message_image m @ bs" "part \<noteq> []" by auto
    with part obtain q z where q: "P q" "well_sized q" "message_image q = part @ z" by blast
    with p have "message_image m @ (bs @ z) = message_image q @ []" by simp
    from image_prefix_free [OF assms(2) q(2) this] q(1) show ?thesis by simp
  next
    case (Cons q ms')
    with eq have "message_image m @ bs = message_image q @ (concat (map message_image ms') @ part)" by simp
    from image_prefix_free [OF assms(2) _ this] ms Cons
    have mq: "m = q" "bs = concat (map message_image ms') @ part" by auto
    have "stream P w True bs" by (rule streamI [OF mq(2)]) (use ms Cons w part in auto)
    with mq(1) ms Cons show ?thesis by simp
  qed
qed

section \<open>Channels\<close>

locale stream_channel = framed_channel +
  assumes send_part: "send m c e = Some (False, c', e') \<Longrightarrow> well_sized m \<Longrightarrow>
      \<exists>k. te_out e' = te_out e @ take k (message_image m)"
    and send_keeps: "send m c e = Some (ok, c', e') \<Longrightarrow> te_in e' = te_in e"
    and recv_keeps: "recv c e = Some (x, c', e') \<Longrightarrow> te_out e' = te_out e"
begin

lemma send_stream:
  assumes "send m c e = Some (ok, c', e')" and "stream P True r (ahead @ te_out e)" and "P m" and "well_sized m"
  shows "stream P ok r (ahead @ te_out e')" and "te_in e' = te_in e"
proof -
  show "te_in e' = te_in e" using send_keeps [OF assms(1)] .
  show "stream P ok r (ahead @ te_out e')"
  proof (cases ok)
    case True
    with assms(1,4) have "te_out e' = te_out e @ message_image m" using send_image by simp
    with stream_write [OF assms(2-4)] True show ?thesis by simp
  next
    case False
    with assms(1,4) obtain k where "te_out e' = te_out e @ take k (message_image m)" using send_part [of m c e c' e'] by auto
    with stream_write_part [OF assms(2-4), of k] False show ?thesis by simp
  qed
qed

lemma recv_stream:
  assumes "recv c e = Some (Some m, c', e')" and "stream P w True (te_in e @ behind)"
  shows "P m" and "Validate m = OK" and "stream P w True (te_in e' @ behind)" and "te_out e' = te_out e"
proof -
  from recv_image [OF assms(1)] have i: "te_in e = message_image m @ te_in e'" "Validate m = OK" by auto
  with stream_read [of P w m "te_in e' @ behind"] assms(2)
  show "P m" "Validate m = OK" "stream P w True (te_in e' @ behind)" "te_out e' = te_out e"
    using valid_well_sized recv_keeps [OF assms(1)] by auto
qed

end

lemma Node_WriteMessage_part:
  assumes "Node_WriteMessage m c e = Some (ok, c', e')"
  shows "(\<exists>k. te_out e' = te_out e @ take k (message_image m)) \<and> te_in e' = te_in e"
proof -
  let ?h = "header_image (nm_header m)"
  from assms obtain r c1 e1 where w1: "WriteExact ?h c e = Some (r, c1, e1)"
    and rest: "e' = e1 \<or> r = TlsError.NONE \<and> (\<exists>r' c2. WriteExact (nm_body m) c1 e1 = Some (r', c2, e'))"
    by (auto simp: Node_WriteMessage_def split: option.splits if_splits)
  from WriteExact_sound [OF w1] obtain k where k: "te_out e1 = te_out e @ take k ?h" "k \<le> length ?h"
    "r = TlsError.NONE \<longleftrightarrow> k = length ?h" "te_in e1 = te_in e" by blast
  from rest show ?thesis
  proof
    assume "e' = e1"
    with k show ?thesis by (auto simp: message_image_def intro!: exI [of _ k])
  next
    assume "r = TlsError.NONE \<and> (\<exists>r' c2. WriteExact (nm_body m) c1 e1 = Some (r', c2, e'))"
    then obtain r' c2 where "r = TlsError.NONE" "WriteExact (nm_body m) c1 e1 = Some (r', c2, e')" by blast
    with k WriteExact_sound [OF this(2)] obtain k' where
      "te_out e' = te_out e @ ?h @ take k' (nm_body m)" "te_in e' = te_in e" by auto
    then show ?thesis by (auto simp: message_image_def intro!: exI [of _ "length ?h + k'"])
  qed
qed

lemma ReadMessage_keeps_out: "ReadMessage c e = Some (x, c', e') \<Longrightarrow> te_out e' = te_out e"
proof -
  have r: "te_out e' = te_out e" if "ReadExact n c e = Some (r, bs, c', e')" for n c e r bs c' e'
    using ReadExact_loop_sound [of n "[]" c e r bs c' e'] that by (auto simp: ReadExact_def)
  show "ReadMessage c e = Some (x, c', e') \<Longrightarrow> te_out e' = te_out e"
    by (auto simp: ReadMessage_def Let_def dest!: r split: option.splits if_splits)
qed

lemma Client_WriteMessage_keeps_in: "Client_WriteMessage m c e = Some (ok, c', e') \<Longrightarrow> te_in e' = te_in e"
  by (auto simp: Client_WriteMessage_def dest!: WriteExact_sound split: option.splits if_splits)

interpretation up: stream_channel Client_WriteMessage ReadMessage
  by unfold_locales (auto simp: Client_WriteMessage_eq dest: Node_WriteMessage_part Client_WriteMessage_keeps_in
      ReadMessage_keeps_out)

interpretation down: stream_channel Node_WriteMessage ReadMessage
  by unfold_locales (auto dest: Node_WriteMessage_part ReadMessage_keeps_out)


section \<open>What is under way\<close>

text \<open>The frames of the requests made so far, and the frames that answer one of them.\<close>

definition asked ::
  "(CoordinatorNodeMessage \<Rightarrow> string option) \<Rightarrow> (u64 \<times> CoordinatorNodeMessage) list \<Rightarrow> NetworkMessage \<Rightarrow> bool" where
  "asked serialize L q \<longleftrightarrow> (\<exists>i r body t. (i, r) \<in> set L \<and> serialize r = Some body
     \<and> q = request_frame i t (cm_message_type r) body)"

definition answer ::
  "message_handler \<Rightarrow> (CoordinatorNodeMessage \<Rightarrow> string option) \<Rightarrow> (u64 \<times> CoordinatorNodeMessage) list
     \<Rightarrow> NetworkMessage \<Rightarrow> bool" where
  "answer h serialize L m \<longleftrightarrow> well_sized m
     \<and> (mh_request_id (nm_header m) = - 1 \<or> (\<exists>q. asked serialize L q \<and> m = response_for (Some h) q))"

lemma asked_more: "asked serialize L q \<Longrightarrow> asked serialize (L @ L') q"
  unfolding asked_def by (metis Un_iff set_append)

lemma answer_more: "answer h serialize L m \<Longrightarrow> answer h serialize (L @ L') m"
  unfolding answer_def using asked_more by metis

lemma request_frame_well_sized: "length body < 2 ^ 32 \<Longrightarrow> well_sized (request_frame i t ty body)"
  by (simp add: well_sized_def request_frame_def unat_u32_of_nat)

lemma asked_well_sized:
  assumes "asked serialize L q" and "\<And>r b. serialize r = Some b \<Longrightarrow> length b < 2 ^ 32"
  shows "well_sized q"
  using assms request_frame_well_sized unfolding asked_def by blast

lemma response_for_well_sized:
  assumes "\<And>q r. h q = Inr r \<Longrightarrow> well_sized r"
  shows "well_sized (response_for (Some h) q)"
proof (cases "\<exists>r. Validate q = OK \<and> h q = Inr r")
  case True
  then obtain r where "Validate q = OK" "h q = Inr r" by blast
  then show ?thesis using assms [of q r] by (simp add: response_for_def Let_def well_sized_def)
next
  case False
  then have "Validate q \<noteq> OK \<or> Some h = None \<or> (\<exists>h' e. Some h = Some h' \<and> h' q = Inl e)"
    by (cases "h q") auto
  from response_for_error [OF this] show ?thesis
    using CreateErrorResponse_valid valid_well_sized by metis
qed

lemma error_answer: "length msg \<le> 1000 \<Longrightarrow> answer h serialize L (CreateErrorResponse ty msg (- 1))"
  using CreateErrorResponse_valid valid_well_sized by (auto simp: answer_def)

section \<open>The invariant of a session\<close>

definition client_writing :: "node_client \<Rightarrow> bool" where
  "client_writing s \<longleftrightarrow> cl_send_pc s = T_check \<or> cl_send_pc s = T_io"

definition client_reading :: "node_client \<Rightarrow> bool" where
  "client_reading s \<longleftrightarrow> cl_recv_pc s = T_check \<or> cl_recv_pc s = T_io"

definition node_writing :: "node_server \<Rightarrow> bool" where
  "node_writing n \<longleftrightarrow> ts_send_pc n = L_check \<or> ts_send_pc n = L_io"

definition node_reading :: "node_server \<Rightarrow> bool" where
  "node_reading n \<longleftrightarrow> ts_recv_pc n = L_check \<or> ts_recv_pc n = L_io"

lemmas pc_defs = client_writing_def client_reading_def node_writing_def node_reading_def

text \<open>What the client's books, the node's work and the two streams satisfy.\<close>

definition completed ::
  "message_handler \<Rightarrow> (CoordinatorNodeMessage \<Rightarrow> string option) \<Rightarrow> (u64 \<times> CoordinatorNodeMessage) list
     \<Rightarrow> node_client \<Rightarrow> u64 \<Rightarrow> NetworkMessage \<Rightarrow> bool" where
  "completed h serialize L s0 i m \<longleftrightarrow> (i, Reply m) \<in> set (cl_resolved s0)
     \<or> i \<in> fst ` set L \<and> mh_request_id (nm_header m) = i \<and> Validate m = OK \<and> answer h serialize L m"

lemma completed_more: "completed h serialize L s0 i m \<Longrightarrow> completed h serialize (L @ L') s0 i m"
  using answer_more by (auto simp: completed_def)

definition books_ok ::
  "message_handler \<Rightarrow> (CoordinatorNodeMessage \<Rightarrow> string option) \<Rightarrow> (u64 \<times> CoordinatorNodeMessage) list
     \<Rightarrow> node_client \<Rightarrow> node_client \<Rightarrow> bool" where
  "books_ok h serialize L s0 s \<longleftrightarrow>
     set (cl_sending s) \<subseteq> set L \<and> set (cl_pending s) \<subseteq> fst ` set L
     \<and> (\<forall>q. cl_queue s = Some q \<longrightarrow> list_all (asked serialize L) (q_items q))
     \<and> (\<forall>i m. (i, Reply m) \<in> set (cl_resolved s) \<longrightarrow> completed h serialize L s0 i m)
     \<and> cl_next_id s = cl_next_id s0 + word_of_nat (length L)
     \<and> map fst L = map (\<lambda>k. cl_next_id s0 + word_of_nat k) [0..<length L]"

definition work_ok ::
  "message_handler \<Rightarrow> (CoordinatorNodeMessage \<Rightarrow> string option) \<Rightarrow> (u64 \<times> CoordinatorNodeMessage) list
     \<Rightarrow> node_server \<Rightarrow> bool" where
  "work_ok h serialize L n \<longleftrightarrow> ts_handler n = Some h \<and> (\<forall>q\<in>#ts_tasks n. asked serialize L q)
     \<and> (\<forall>q. ts_queue n = Some q \<longrightarrow> list_all (answer h serialize L) (q_items q))"

definition up_ok ::
  "(CoordinatorNodeMessage \<Rightarrow> string option) \<Rightarrow> (u64 \<times> CoordinatorNodeMessage) list \<Rightarrow> node_client \<Rightarrow> node_server \<Rightarrow> bool" where
  "up_ok serialize L s n \<longleftrightarrow>
     stream (asked serialize L) (client_writing s) (node_reading n) (te_in (ts_env n) @ te_out (cl_env s))"

definition down_ok ::
  "message_handler \<Rightarrow> (CoordinatorNodeMessage \<Rightarrow> string option) \<Rightarrow> (u64 \<times> CoordinatorNodeMessage) list
     \<Rightarrow> node_client \<Rightarrow> node_server \<Rightarrow> bool" where
  "down_ok h serialize L s n \<longleftrightarrow>
     stream (answer h serialize L) (node_writing n) (client_reading s) (te_in (cl_env s) @ te_out (ts_env n))"

definition session_inv ::
  "message_handler \<Rightarrow> (CoordinatorNodeMessage \<Rightarrow> string option) \<Rightarrow> (u64 \<times> CoordinatorNodeMessage) list
     \<Rightarrow> node_client \<Rightarrow> node_client \<Rightarrow> node_server \<Rightarrow> bool" where
  "session_inv h serialize L s0 s n \<longleftrightarrow>
     books_ok h serialize L s0 s \<and> work_ok h serialize L n \<and> up_ok serialize L s n \<and> down_ok h serialize L s n"

text \<open>What the parts look at.\<close>

definition client_books where
  "client_books s = (cl_queue s, cl_pending s, cl_sending s, cl_resolved s, cl_next_id s)"

lemma books_ok_cong: "client_books s = client_books s' \<Longrightarrow> books_ok h serialize L s0 s \<longleftrightarrow> books_ok h serialize L s0 s'"
  by (simp add: books_ok_def client_books_def)

lemma Client_SendMessage_client_books: "Client_SendMessage m now s = Some (ok, s') \<Longrightarrow> client_books s' = client_books s
     \<and> cl_recv_pc s' = cl_recv_pc s"
  by (auto simp: Client_SendMessage_def client_books_def NotifyError_def Let_def
      split: option.splits bool.splits prod.splits if_splits)

lemma Client_ReceiveMessage_client_books:
  "Client_ReceiveMessage now s = Some (x, s') \<Longrightarrow> client_books s' = client_books s \<and> cl_send_pc s' = cl_send_pc s"
  by (auto simp: Client_ReceiveMessage_def client_books_def split: option.splits bool.splits prod.splits if_splits)

text \<open>The transfers of the four loops.\<close>

lemma Client_SendMessage_stream:
  assumes "Client_SendMessage m now s = Some (ok, s')" and "stream P True r (ahead @ te_out (cl_env s))"
    and "P m" and "well_sized m"
  shows "stream P ok r (ahead @ te_out (cl_env s'))" and "te_in (cl_env s') = te_in (cl_env s)"
proof -
  have "stream P ok r (ahead @ te_out (cl_env s')) \<and> te_in (cl_env s') = te_in (cl_env s)"
  proof (cases "cl_connected s \<and> cl_tls s \<noteq> None")
    case True
    then obtain c where c: "cl_connected s" "cl_tls s = Some c" by blast
    with assms(1) obtain c' e' where w: "Client_WriteMessage m c (cl_env s) = Some (ok, c', e')" "cl_env s' = e'"
      by (auto simp: Client_SendMessage_def NotifyError_def Let_def split: option.splits if_splits)
    from up.send_stream [OF w(1) assms(2-4)] w(2) show ?thesis by simp
  next
    case False
    with assms(1) have "ok = False" "cl_env s' = cl_env s"
      by (auto simp: Client_SendMessage_def NotifyError_def split: bool.splits option.splits)
    with assms(2) show ?thesis by (auto intro: stream_less)
  qed
  then show "stream P ok r (ahead @ te_out (cl_env s'))" "te_in (cl_env s') = te_in (cl_env s)" by auto
qed

lemma Client_ReceiveMessage_stream:
  assumes "Client_ReceiveMessage now s = Some (x, s')" and "stream P w True (te_in (cl_env s) @ behind)"
  shows "te_out (cl_env s') = te_out (cl_env s)"
    and "x = Some m \<Longrightarrow> P m \<and> Validate m = OK \<and> stream P w True (te_in (cl_env s') @ behind)"
proof -
  show "te_out (cl_env s') = te_out (cl_env s)"
    using assms(1) by (auto simp: Client_ReceiveMessage_def dest: ReadMessage_keeps_out
        split: option.splits bool.splits prod.splits)
  assume "x = Some m"
  with assms(1) obtain c c' e' where "ReadMessage c (cl_env s) = Some (Some m, c', e')" "cl_env s' = e'"
    by (auto simp: Client_ReceiveMessage_def split: option.splits bool.splits prod.splits)
  with down.recv_stream [OF this(1) assms(2)] show "P m \<and> Validate m = OK \<and> stream P w True (te_in (cl_env s') @ behind)"
    by simp
qed

lemma Node_SendMessage_stream:
  assumes "Node_SendMessage m n = Some (x, n')" and "stream P True r (ahead @ te_out (ts_env n))"
    and "P m" and "well_sized m"
  shows "stream P (x = Inr True) r (ahead @ te_out (ts_env n'))" and "te_in (ts_env n') = te_in (ts_env n)"
    and "n' = n\<lparr>ts_conn := ts_conn n', ts_env := ts_env n'\<rparr>"
proof -
  have "stream P (x = Inr True) r (ahead @ te_out (ts_env n')) \<and> te_in (ts_env n') = te_in (ts_env n)
      \<and> n' = n\<lparr>ts_conn := ts_conn n', ts_env := ts_env n'\<rparr>"
  proof (cases "\<exists>nc c. ts_conn n = Some nc \<and> nc_tls nc = Some c")
    case True
    then obtain nc c where c: "ts_conn n = Some nc" "nc_tls nc = Some c" by blast
    with assms(1) obtain ok c' e' where w: "Node_WriteMessage m c (ts_env n) = Some (ok, c', e')" "x = Inr ok"
      "n' = put_tls c' e' n"
      by (auto simp: Node_SendMessage_def GetTlsConnection_def split: option.splits)
    from down.send_stream [OF w(1) assms(2-4)] w(2,3) show ?thesis by (cases ok) (simp_all add: put_tls_def)
  next
    case False
    with assms(1) have "x \<noteq> Inr True" "n' = n"
      by (auto simp: Node_SendMessage_def GetTlsConnection_def split: option.splits)
    with assms(2) show ?thesis by (auto intro: stream_less)
  qed
  then show "stream P (x = Inr True) r (ahead @ te_out (ts_env n'))" "te_in (ts_env n') = te_in (ts_env n)"
    "n' = n\<lparr>ts_conn := ts_conn n', ts_env := ts_env n'\<rparr>" by auto
qed

lemma Node_ReceiveMessage_stream:
  assumes "Node_ReceiveMessage n = Some (x, n')" and "stream P w True (te_in (ts_env n) @ behind)"
  shows "te_out (ts_env n') = te_out (ts_env n)" and "n' = n\<lparr>ts_conn := ts_conn n', ts_env := ts_env n'\<rparr>"
    and "x = Inr (Some m) \<Longrightarrow> P m \<and> stream P w True (te_in (ts_env n') @ behind)"
proof -
  show "te_out (ts_env n') = te_out (ts_env n)" "n' = n\<lparr>ts_conn := ts_conn n', ts_env := ts_env n'\<rparr>"
    using assms(1) by (auto simp: Node_ReceiveMessage_def GetTlsConnection_def put_tls_def dest: ReadMessage_keeps_out
        split: option.splits)
  assume "x = Inr (Some m)"
  with assms(1) obtain c c' e' where "ReadMessage c (ts_env n) = Some (Some m, c', e')" "ts_env n' = e'"
    by (auto simp: Node_ReceiveMessage_def GetTlsConnection_def put_tls_def split: option.splits sum.splits)
  with up.recv_stream [OF this(1) assms(2)] show "P m \<and> stream P w True (te_in (ts_env n') @ behind)" by simp
qed


section \<open>Every step keeps the invariant\<close>

lemma list_all_more: "list_all P xs \<Longrightarrow> (\<And>x. P x \<Longrightarrow> Q x) \<Longrightarrow> list_all Q xs"
  by (simp add: list_all_iff)

lemma register_inv:
  assumes "session_inv h serialize L s0 s n" and "Async_register (Some r) s = (Inr i, s')"
  shows "session_inv h serialize (L @ [(i, r)]) s0 s' n"
proof -
  from assms(2) have i: "i = cl_next_id s" "cl_env s' = cl_env s" "cl_queue s' = cl_queue s"
    "cl_send_pc s' = cl_send_pc s" "cl_recv_pc s' = cl_recv_pc s" "cl_resolved s' = cl_resolved s"
    "cl_sending s' = cl_sending s @ [(i, r)]" "set (cl_pending s') \<subseteq> insert i (set (cl_pending s))"
    "cl_next_id s' = cl_next_id s + 1"
    by (auto simp: Async_register_def Let_def split: if_splits)
  let ?L = "L @ [(i, r)]"
  from assms(1) have b: "books_ok h serialize L s0 s" and w: "work_ok h serialize L n"
    and u: "up_ok serialize L s n" and d: "down_ok h serialize L s n" by (simp_all add: session_inv_def)
  have "books_ok h serialize ?L s0 s'"
    using b i unfolding books_ok_def by (auto simp: list_all_iff intro: asked_more completed_more)
  moreover have "work_ok h serialize ?L n"
    using w unfolding work_ok_def by (auto simp: list_all_iff intro: asked_more answer_more)
  moreover have "up_ok serialize ?L s' n"
    using stream_mono [OF u [unfolded up_ok_def] asked_more] i unfolding up_ok_def by (simp add: pc_defs)
  moreover have "down_ok h serialize ?L s' n"
    using stream_mono [OF d [unfolded down_ok_def] answer_more] i unfolding down_ok_def by (simp add: pc_defs)
  ultimately show ?thesis by (simp add: session_inv_def)
qed

text \<open>A step that only changes the client's books.\<close>

lemma books_step:
  assumes "session_inv h serialize L s0 s n" and "books_ok h serialize L s0 s'"
    and "cl_env s' = cl_env s" and "client_writing s' \<Longrightarrow> client_writing s" and "client_reading s' \<Longrightarrow> client_reading s"
  shows "session_inv h serialize L s0 s' n"
  using assms by (auto simp: session_inv_def up_ok_def down_ok_def intro: stream_less)

lemma books_okD:
  assumes "books_ok h serialize L s0 s"
  shows "set (cl_sending s) \<subseteq> set L" and "set (cl_pending s) \<subseteq> fst ` set L"
    and "cl_queue s = Some q \<Longrightarrow> list_all (asked serialize L) (q_items q)"
  using assms by (simp_all add: books_ok_def)

lemma Async_push_books:
  assumes "books_ok h serialize L s0 s" and "job \<in> set (cl_sending s)" and "Async_push serialize now job s = Some (x, s')"
  shows "books_ok h serialize L s0 s' \<and> cl_env s' = cl_env s \<and> cl_send_pc s' = cl_send_pc s \<and> cl_recv_pc s' = cl_recv_pc s"
proof -
  obtain i r where job: "job = (i, r)" by fastforce
  with assms(2) books_okD(1) [OF assms(1)] have L: "(i, r) \<in> set L" by auto
  from assms(3) job obtain q where q: "cl_queue s = Some q"
    by (auto simp: Async_push_def Let_def split: option.splits)
  have sub: "set (remove1 job (cl_sending s)) \<subseteq> set L"
    using set_remove1_subset [of job "cl_sending s"] books_okD(1) [OF assms(1)] by blast
  show ?thesis
  proof (cases "serialize r")
    case None
    with assms job q sub show ?thesis
      by (auto simp: Async_push_def ConvertToNetworkMessage_def Let_def books_ok_def)
  next
    case (Some body)
    define m where "m = request_frame i now (cm_message_type r) body"
    have a: "asked serialize L m" using L Some by (auto simp: asked_def m_def)
    have msg: "(case ConvertToNetworkMessage serialize (Some r) of Inl e \<Rightarrow> Inl e
        | Inr f \<Rightarrow> Inr (f\<lparr>nm_header := (nm_header f)\<lparr>mh_request_id := i, mh_timestamp := now\<rparr>\<rparr>)) = Inr m"
      using Some by (simp add: ConvertToNetworkMessage_def m_def request_frame_def Let_def)
    then obtain f where f: "ConvertToNetworkMessage serialize (Some r) = Inr f"
      "f\<lparr>nm_header := (nm_header f)\<lparr>mh_request_id := i, mh_timestamp := now\<rparr>\<rparr> = m" by (auto split: sum.splits)
    show ?thesis
      by (cases rule: TryPush_cases [of m q])
        (use assms job q f sub a in \<open>auto simp: Async_push_def Let_def books_ok_def list_all_iff split: if_splits\<close>)
  qed
qed

lemma resolve_failure_books:
  "books_ok h serialize L s0 s \<Longrightarrow> books_ok h serialize L s0 (resolve i (Failure f) s)"
  unfolding books_ok_def resolve_def by auto

lemma resolve_fields [simp]:
  "cl_env (resolve i o' s) = cl_env s" "cl_send_pc (resolve i o' s) = cl_send_pc s"
  "cl_recv_pc (resolve i o' s) = cl_recv_pc s"
  by (simp_all add: resolve_def)

lemma push_inv:
  assumes "session_inv h serialize L s0 s n" and "job \<in> set (cl_sending s)"
    and "Async_push serialize now job s = Some (x, s')"
  shows "session_inv h serialize L s0 s' n"
proof -
  have "books_ok h serialize L s0 s" using assms(1) by (simp add: session_inv_def)
  from Async_push_books [OF this assms(2,3)] show ?thesis
    by (intro books_step [OF assms(1)]) (simp_all add: pc_defs)
qed

lemma timeout_inv: "session_inv h serialize L s0 s n \<Longrightarrow> session_inv h serialize L s0 (SendRequest_timeout i s) n"
  unfolding SendRequest_timeout_def
  by (rule books_step) (auto simp: session_inv_def pc_defs intro: resolve_failure_books)

lemma CleanupSocket_fields:
  "te_in (cl_env (CleanupSocket s)) = te_in (cl_env s)" "te_out (cl_env (CleanupSocket s)) = te_out (cl_env s)"
  "cl_send_pc (CleanupSocket s) = cl_send_pc s" "cl_recv_pc (CleanupSocket s) = cl_recv_pc s"
  "client_books (CleanupSocket s) = client_books s"
  by (simp_all add: CleanupSocket_def Tls_Close_def SSL_free_def client_books_def Let_def split: option.split)

lemma disconnect_inv:
  assumes "session_inv h serialize L s0 s n" and "Disconnect_begin s = (r, s')"
  shows "session_inv h serialize L s0 s' n"
proof (cases "cl_connected s")
  case False
  with assms show ?thesis by (simp add: Disconnect_begin_def)
next
  case True
  define t where "t = s\<lparr>cl_connected := False, cl_threads_running := False, cl_queue := map_option Shutdown (cl_queue s)\<rparr>"
  note c = CleanupSocket_fields [of t]
  have "client_books s' = client_books t"
    using True assms(2) c(5) by (auto simp: Disconnect_begin_def t_def client_books_def Let_def)
  moreover have "books_ok h serialize L s0 t"
    using assms(1) by (auto simp: session_inv_def books_ok_def t_def Shutdown_def)
  ultimately have "books_ok h serialize L s0 s'" using books_ok_cong by blast
  moreover have "te_in (cl_env s') = te_in (cl_env s)" "te_out (cl_env s') = te_out (cl_env s)"
    "cl_send_pc s' = cl_send_pc s" "cl_recv_pc s' = cl_recv_pc s"
    using True assms(2) c by (auto simp: Disconnect_begin_def t_def Let_def)
  ultimately show ?thesis using assms(1) by (simp add: session_inv_def up_ok_def down_ok_def pc_defs)
qed

lemma finish_inv:
  assumes "session_inv h serialize L s0 s n" and "Disconnect_finish s = Some s'"
  shows "session_inv h serialize L s0 s' n"
proof (rule books_step [OF assms(1)])
  show "books_ok h serialize L s0 s'"
    using assms by (auto simp: session_inv_def books_ok_def Disconnect_finish_def split: if_splits)
qed (use assms(2) in \<open>auto simp: Disconnect_finish_def pc_defs split: if_splits\<close>)


lemma client_send_inv:
  assumes inv: "session_inv h serialize L s0 s n" and step: "Client_SendLoop_step now s = Some s'"
    and small: "\<And>r b. serialize r = Some b \<Longrightarrow> length b < 2 ^ 32"
  shows "session_inv h serialize L s0 s' n"
proof (cases "cl_send_pc s")
  case T_check
  with step have s': "s' = s\<lparr>cl_send_pc := if cl_threads_running s then T_io else T_done\<rparr>"
    by (simp add: Client_SendLoop_step_def)
  with T_check show ?thesis
    by (intro books_step [OF inv]) (use inv in \<open>simp_all add: session_inv_def books_ok_def pc_defs\<close>)
next
  case T_io
  with step obtain q r item q' where q: "cl_queue s = Some q" "Pop q = Some (r, item, q')"
    by (auto simp: Client_SendLoop_step_def split: option.splits)
  show ?thesis
  proof (cases "r = SUCCESS \<and> item \<noteq> None")
    case False
    with T_io step q have "s' = s\<lparr>cl_send_pc := T_done\<rparr>"
      by (cases r; cases item) (auto simp: Client_SendLoop_step_def)
    then show ?thesis
      by (intro books_step [OF inv]) (use inv in \<open>simp_all add: session_inv_def books_ok_def pc_defs\<close>)
  next
    case True
    then obtain m where m: "r = SUCCESS" "item = Some m" by blast
    with q(2) have items: "q_items q = m # q_items q'" by (auto simp: Pop_Some_SUCCESS_iff)
    define t where "t = s\<lparr>cl_queue := Some q'\<rparr>"
    from inv have b: "books_ok h serialize L s0 s" by (simp add: session_inv_def)
    with q(1) items have a: "asked serialize L m" and bt: "books_ok h serialize L s0 t"
      by (auto simp: books_ok_def t_def)
    from T_io step q m obtain ok s1 where w: "Client_SendMessage m now t = Some (ok, s1)"
      and s': "s' = (if ok then s1\<lparr>cl_send_pc := T_check, cl_info := (cl_info s1)\<lparr>ci_last_comm := now\<rparr>\<rparr>
        else (resolve (mh_request_id (nm_header m)) (Failure ''Send failed'') s1)\<lparr>cl_send_pc := T_done\<rparr>)"
      by (auto simp: Client_SendLoop_step_def t_def split: option.splits bool.splits)
    have "stream (asked serialize L) True (node_reading n) (te_in (ts_env n) @ te_out (cl_env t))"
      using inv T_io by (simp add: session_inv_def up_ok_def pc_defs t_def)
    note sent = Client_SendMessage_stream [OF w this a asked_well_sized [OF a small]]
    have c: "client_books s1 = client_books t" "cl_recv_pc s1 = cl_recv_pc s"
      using Client_SendMessage_client_books [OF w] by (simp_all add: t_def)
    then have b1: "books_ok h serialize L s0 s1" using bt books_ok_cong by blast
    have "books_ok h serialize L s0 s'"
    proof (cases ok)
      case True
      then have "client_books s' = client_books s1" using s' by (simp add: client_books_def)
      with b1 show ?thesis using books_ok_cong by blast
    next
      case False
      let ?r = "resolve (mh_request_id (nm_header m)) (Failure ''Send failed'') s1"
      from False have "client_books s' = client_books ?r" using s' by (simp add: client_books_def)
      with resolve_failure_books [OF b1] show ?thesis using books_ok_cong by blast
    qed
    moreover have "cl_env s' = cl_env s1" "client_writing s' = ok" "client_reading s' = client_reading s"
      using s' c(2) by (simp_all add: pc_defs)
    moreover have "te_in (cl_env s1) = te_in (cl_env s)" using sent(2) by (simp add: t_def)
    ultimately show ?thesis using inv sent(1) by (simp add: session_inv_def up_ok_def down_ok_def)
  qed
qed (use step in \<open>simp_all add: Client_SendLoop_step_def\<close>)

lemma client_receive_inv:
  assumes inv: "session_inv h serialize L s0 s n" and step: "Client_ReceiveLoop_step now s = Some s'"
  shows "session_inv h serialize L s0 s' n"
proof (cases "cl_recv_pc s")
  case T_check
  with step have s': "s' = s\<lparr>cl_recv_pc := if cl_threads_running s then T_io else T_done\<rparr>"
    by (simp add: Client_ReceiveLoop_step_def)
  with T_check show ?thesis
    by (intro books_step [OF inv]) (use inv in \<open>simp_all add: session_inv_def books_ok_def pc_defs\<close>)
next
  case T_io
  with step obtain x s1 where rc: "Client_ReceiveMessage now s = Some (x, s1)"
    by (auto simp: Client_ReceiveLoop_step_def split: option.splits)
  have "stream (answer h serialize L) (node_writing n) True (te_in (cl_env s) @ te_out (ts_env n))"
    using inv T_io by (simp add: session_inv_def down_ok_def pc_defs)
  note got = Client_ReceiveMessage_stream [OF rc this]
  have c: "client_books s1 = client_books s" "cl_send_pc s1 = cl_send_pc s"
    using Client_ReceiveMessage_client_books [OF rc] by auto
  from inv c(1) have b1: "books_ok h serialize L s0 s1" using books_ok_cong session_inv_def by blast
  show ?thesis
  proof (cases x)
    case None
    with T_io step rc have s': "s' = s1\<lparr>cl_recv_pc := T_done\<rparr>" by (simp add: Client_ReceiveLoop_step_def)
    have "books_ok h serialize L s0 s'" using b1 s' by (simp add: books_ok_def)
    moreover have "up_ok serialize L s' n" using inv got(1) c(2) s' by (simp add: session_inv_def up_ok_def pc_defs)
    ultimately show ?thesis using inv s' by (simp add: session_inv_def down_ok_def pc_defs)
  next
    case (Some m)
    let ?i = "mh_request_id (nm_header m)"
    from T_io step rc Some obtain info where s': "s' = (resolve ?i (Reply m) s1)\<lparr>cl_recv_pc := T_check, cl_info := info\<rparr>"
      by (auto simp: Client_ReceiveLoop_step_def Let_def)
    from got(2) [OF Some] have m: "answer h serialize L m" "Validate m = OK"
      "stream (answer h serialize L) (node_writing n) True (te_in (cl_env s1) @ te_out (ts_env n))" by auto
    have "?i \<in> set (cl_pending s1) \<Longrightarrow> completed h serialize L s0 ?i m"
      using m books_okD(2) [OF b1] by (auto simp: completed_def)
    then have "books_ok h serialize L s0 (resolve ?i (Reply m) s1)"
      using b1 by (auto simp: books_ok_def resolve_def)
    then have "books_ok h serialize L s0 s'" using s' by (simp add: books_ok_def)
    moreover have "up_ok serialize L s' n" using inv got(1) c(2) s' by (simp add: session_inv_def up_ok_def pc_defs)
    moreover have "down_ok h serialize L s' n" using m(3) s' by (simp add: down_ok_def pc_defs)
    ultimately show ?thesis using inv by (simp add: session_inv_def)
  qed
qed (use step in \<open>simp_all add: Client_ReceiveLoop_step_def\<close>)


text \<open>The node's side. A step that moves no bytes needs only the node's work.\<close>

lemma work_step:
  assumes "session_inv h serialize L s0 s n" and "work_ok h serialize L n'"
    and "ts_env n' = ts_env n" and "node_writing n' \<Longrightarrow> node_writing n" and "node_reading n' \<Longrightarrow> node_reading n"
  shows "session_inv h serialize L s0 s n'"
  using assms by (auto simp: session_inv_def up_ok_def down_ok_def intro: stream_less)

lemma push_response_work:
  assumes "work_ok h serialize L n" and "answer h serialize L m"
  shows "work_ok h serialize L (push_response i m n)"
    and "ts_env (push_response i m n) = ts_env n" and "ts_send_pc (push_response i m n) = ts_send_pc n"
    and "ts_recv_pc (push_response i m n) = ts_recv_pc n"
proof -
  have "work_ok h serialize L (push_response i m n) \<and> ts_env (push_response i m n) = ts_env n
      \<and> ts_send_pc (push_response i m n) = ts_send_pc n \<and> ts_recv_pc (push_response i m n) = ts_recv_pc n"
  proof (cases "ts_queue n")
    case None
    with assms show ?thesis by (simp add: push_response_def)
  next
    case (Some q)
    show ?thesis
      by (cases rule: TryPush_cases [of m q]) (use assms Some in \<open>auto simp: push_response_def work_ok_def\<close>)
  qed
  then show "work_ok h serialize L (push_response i m n)" "ts_env (push_response i m n) = ts_env n"
    "ts_send_pc (push_response i m n) = ts_send_pc n" "ts_recv_pc (push_response i m n) = ts_recv_pc n" by auto
qed

lemma submit_request_work:
  assumes "work_ok h serialize L n" and "asked serialize L m"
  shows "work_ok h serialize L (submit_request r m n) \<and> ts_env (submit_request r m n) = ts_env n
    \<and> ts_send_pc (submit_request r m n) = ts_send_pc n"
proof (cases r)
  case (Inr u)
  with assms show ?thesis by (auto simp: submit_request_def work_ok_def Let_def)
next
  case (Inl ex)
  define t where "t = n\<lparr>ts_received := ts_received n @ [mh_request_id (nm_header m)],
      ts_dropped := ts_dropped n @ [mh_request_id (nm_header m)], ts_extra := ts_extra n @ [- 1]\<rparr>"
  have t: "work_ok h serialize L t" "ts_env t = ts_env n" "ts_send_pc t = ts_send_pc n"
    using assms(1) by (simp_all add: t_def work_ok_def)
  have e: "answer h serialize L (CreateErrorResponse ty ''Server shutting down'' (- 1))"
    "answer h serialize L (CreateErrorResponse ty ''Server busy'' (- 1))" for ty
    by (rule error_answer, simp)+
  let ?t = "mh_message_type (nm_header m)"
  have "submit_request r m n =
      (push_response (- 1) (CreateErrorResponse ?t ''Server shutting down'' (- 1)) t)\<lparr>ts_recv_pc := L_done\<rparr>
    \<or> submit_request r m n =
      (push_response (- 1) (CreateErrorResponse ?t ''Server busy'' (- 1)) t)
        \<lparr>ts_handler_errors := ts_handler_errors n + 1, ts_recv_pc := L_check\<rparr>"
    using Inl by (cases ex) (simp_all add: submit_request_def t_def Let_def)
  then show ?thesis
    using push_response_work [OF t(1) e(1), of "- 1" ?t] push_response_work [OF t(1) e(2), of "- 1" ?t] t(2,3)
    by (elim disjE) (simp_all add: work_ok_def)
qed

lemma touch_request_fields:
  "ts_handler (touch_request now n) = ts_handler n" "ts_tasks (touch_request now n) = ts_tasks n"
  "ts_queue (touch_request now n) = ts_queue n" "ts_env (touch_request now n) = ts_env n"
  "ts_send_pc (touch_request now n) = ts_send_pc n"
  by (simp_all add: touch_request_def)

lemma node_receive_inv:
  assumes inv: "session_inv h serialize L s0 s n" and step: "ReceiveLoop_step now r n = Some n'"
  shows "session_inv h serialize L s0 s n'"
proof (cases "ts_recv_pc n")
  case L_check
  with step have n': "n' = n\<lparr>ts_recv_pc := if ts_running n \<and> HasActiveConnection n then L_io else L_done\<rparr>"
    by (simp add: ReceiveLoop_step_def)
  with L_check show ?thesis
    by (intro work_step [OF inv]) (use inv in \<open>simp_all add: session_inv_def work_ok_def pc_defs\<close>)
next
  case L_io
  with step obtain x n1 where rc: "Node_ReceiveMessage n = Some (x, n1)"
    by (auto simp: ReceiveLoop_step_def split: option.splits)
  have "stream (asked serialize L) (client_writing s) True (te_in (ts_env n) @ te_out (cl_env s))"
    using inv L_io by (simp add: session_inv_def up_ok_def pc_defs)
  note got = Node_ReceiveMessage_stream [OF rc this]
  obtain c e where n1: "n1 = n\<lparr>ts_conn := c, ts_env := e\<rparr>" using got(2) by blast
  have w1: "work_ok h serialize L n1" using inv n1 by (simp add: session_inv_def work_ok_def)
  have down: "stream (answer h serialize L) (node_writing n) (client_reading s) (te_in (cl_env s) @ te_out (ts_env n1))"
    using inv got(1) by (simp add: session_inv_def down_ok_def)
  show ?thesis
  proof (cases "\<exists>m. x = Inr (Some m)")
    case False
    with L_io step rc obtain pc where "n' = n1\<lparr>ts_recv_pc := pc\<rparr>" "pc \<noteq> L_check" "pc \<noteq> L_io"
      by (auto simp: ReceiveLoop_step_def split: sum.splits option.splits)
    then show ?thesis using inv w1 down n1
      by (simp add: session_inv_def work_ok_def up_ok_def down_ok_def pc_defs)
  next
    case True
    then obtain m where x: "x = Inr (Some m)" by blast
    with L_io step rc have n': "n' = submit_request r m (touch_request now n1)"
      by (auto simp: ReceiveLoop_step_def split: if_splits)
    from got(3) [OF x] have m: "asked serialize L m"
      "stream (asked serialize L) (client_writing s) True (te_in (ts_env n1) @ te_out (cl_env s))" by auto
    have "work_ok h serialize L (touch_request now n1)"
      using w1 by (simp add: work_ok_def touch_request_fields)
    from submit_request_work [OF this m(1), of r] have
      "work_ok h serialize L n'" "ts_env n' = ts_env n1" "ts_send_pc n' = ts_send_pc n"
      using n' n1 by (simp_all add: touch_request_fields)
    then show ?thesis using inv m(2) down
      by (auto simp: session_inv_def up_ok_def down_ok_def pc_defs intro: stream_less)
  qed
qed (use step in \<open>simp_all add: ReceiveLoop_step_def\<close>)

lemma node_task_inv:
  assumes "session_inv h serialize L s0 s n" and "m \<in># ts_tasks n"
    and wf: "\<And>q r. h q = Inr r \<Longrightarrow> well_sized r"
  shows "session_inv h serialize L s0 s (finish_task m n)"
proof -
  from assms(1) have w: "work_ok h serialize L n" by (simp add: session_inv_def)
  with assms(2) have "asked serialize L m" "ts_handler n = Some h" by (auto simp: work_ok_def)
  then have a: "answer h serialize L (response_for (ts_handler n) m)"
    using response_for_well_sized [of h, OF wf] by (auto simp: answer_def)
  have "work_ok h serialize L (n\<lparr>ts_tasks := ts_tasks n - {#m#}\<rparr>)"
    using w by (auto simp: work_ok_def dest: in_diffD)
  from push_response_work [OF this a] show ?thesis
    unfolding finish_task_def by (intro work_step [OF assms(1)]) (simp_all add: pc_defs)
qed

lemma node_send_inv:
  assumes inv: "session_inv h serialize L s0 s n" and step: "SendLoop_step now n = Some n'"
  shows "session_inv h serialize L s0 s n'"
proof (cases "ts_send_pc n")
  case L_check
  with step have n': "n' = n\<lparr>ts_send_pc := if ts_running n \<and> HasActiveConnection n then L_io else L_done\<rparr>"
    by (simp add: SendLoop_step_def)
  with L_check show ?thesis
    by (intro work_step [OF inv]) (use inv in \<open>simp_all add: session_inv_def work_ok_def pc_defs\<close>)
next
  case L_io
  with step obtain q r item q' where q: "ts_queue n = Some q" "Pop q = Some (r, item, q')"
    by (auto simp: SendLoop_step_def split: option.splits)
  show ?thesis
  proof (cases "r = SUCCESS \<and> item \<noteq> None")
    case False
    with L_io step q have "n' = n\<lparr>ts_send_pc := L_check\<rparr>"
      by (cases r; cases item) (auto simp: SendLoop_step_def)
    then show ?thesis using L_io
      by (intro work_step [OF inv]) (use inv in \<open>simp_all add: session_inv_def work_ok_def pc_defs\<close>)
  next
    case True
    then obtain m where m: "r = SUCCESS" "item = Some m" by blast
    with q(2) have items: "q_items q = m # q_items q'" by (auto simp: Pop_Some_SUCCESS_iff)
    define t where "t = n\<lparr>ts_queue := Some q'\<rparr>"
    from inv have "work_ok h serialize L n" by (simp add: session_inv_def)
    with q(1) items have a: "answer h serialize L m" and wt: "work_ok h serialize L t"
      by (auto simp: work_ok_def t_def)
    from L_io step q m obtain x n1 where w: "Node_SendMessage m t = Some (x, n1)"
      by (auto simp: SendLoop_step_def t_def Let_def split: option.splits)
    have "stream (answer h serialize L) True (client_reading s) (te_in (cl_env s) @ te_out (ts_env t))"
      using inv L_io by (simp add: session_inv_def down_ok_def pc_defs t_def)
    note sent = Node_SendMessage_stream [OF w this a]
    have ws: "well_sized m" using a by (simp add: answer_def)
    obtain c e where n1: "n1 = t\<lparr>ts_conn := c, ts_env := e\<rparr>" using sent(3) [OF ws] by blast
    have n': "ts_handler n' = ts_handler n1 \<and> ts_tasks n' = ts_tasks n1 \<and> ts_queue n' = ts_queue n1
        \<and> ts_env n' = ts_env n1 \<and> ts_recv_pc n' = ts_recv_pc n1 \<and> (node_writing n' \<longrightarrow> x = Inr True)"
      using L_io step q m w
      by (auto simp: SendLoop_step_def t_def pc_defs touch_response_def Let_def split: sum.splits bool.splits)
    have "work_ok h serialize L n'" using wt n1 n' by (simp add: work_ok_def)
    moreover have "up_ok serialize L s n'"
      using inv n1 n' sent(2) [OF ws] by (simp add: session_inv_def up_ok_def pc_defs t_def)
    moreover have "down_ok h serialize L s n'"
      using sent(1) [OF ws] n' unfolding down_ok_def by (auto intro: stream_less)
    ultimately show ?thesis using inv by (simp add: session_inv_def)
  qed
qed (use step in \<open>simp_all add: SendLoop_step_def\<close>)

text \<open>The network: what is unread and what is on the way stay the same bytes.\<close>

lemma to_node_inv:
  assumes "session_inv h serialize L s0 s n"
  shows "session_inv h serialize L s0 (s\<lparr>cl_env := (cl_env s)\<lparr>te_out := drop k (te_out (cl_env s))\<rparr>\<rparr>)
    (n\<lparr>ts_env := (ts_env n)\<lparr>te_in := te_in (ts_env n) @ take k (te_out (cl_env s))\<rparr>\<rparr>)"
  using assms by (simp add: session_inv_def books_ok_def work_ok_def up_ok_def down_ok_def pc_defs)

lemma to_client_inv:
  assumes "session_inv h serialize L s0 s n"
  shows "session_inv h serialize L s0 (s\<lparr>cl_env := (cl_env s)\<lparr>te_in := te_in (cl_env s) @ take k (te_out (ts_env n))\<rparr>\<rparr>)
    (n\<lparr>ts_env := (ts_env n)\<lparr>te_out := drop k (te_out (ts_env n))\<rparr>\<rparr>)"
  using assms by (simp add: session_inv_def books_ok_def work_ok_def up_ok_def down_ok_def pc_defs)


section \<open>Replies belong to their requests\<close>

text \<open>The two ends before anything is under way.\<close>

definition session_start :: "message_handler \<Rightarrow> node_client \<times> node_server \<Rightarrow> bool" where
  "session_start h x \<longleftrightarrow> (case x of (s, n) \<Rightarrow>
     cl_sending s = [] \<and> cl_pending s = [] \<and> (\<forall>q. cl_queue s = Some q \<longrightarrow> q_items q = [])
     \<and> te_in (cl_env s) = [] \<and> te_out (cl_env s) = []
     \<and> ts_handler n = Some h \<and> ts_tasks n = {#} \<and> (\<forall>q. ts_queue n = Some q \<longrightarrow> q_items q = [])
     \<and> te_in (ts_env n) = [] \<and> te_out (ts_env n) = [])"

lemma session_keeps:
  assumes "link_session serialize x0 L x" and "session_start h x0"
    and small: "\<And>r b. serialize r = Some b \<Longrightarrow> length b < 2 ^ 32" and wf: "\<And>q r. h q = Inr r \<Longrightarrow> well_sized r"
  shows "session_inv h serialize L (fst x0) (fst x) (snd x)"
  using assms(1)
proof (induction rule: link_session.induct)
  case se_start
  obtain s n where x0: "x0 = (s, n)" by fastforce
  with assms(2) show ?case
    by (auto simp: session_start_def session_inv_def books_ok_def work_ok_def up_ok_def down_ok_def completed_def)
next
  case (se_node_task L s n m)
  from node_task_inv [OF se_node_task.IH [simplified] se_node_task.hyps(2) wf] show ?case by simp
qed (auto intro: register_inv push_inv timeout_inv client_send_inv [OF _ _ small] client_receive_inv
      disconnect_inv finish_inv node_receive_inv node_send_inv to_node_inv to_client_inv)

lemma numbered_ids:
  fixes L :: "(u64 \<times> 'r) list"
  assumes "map fst L = map (\<lambda>k. i0 + word_of_nat k) [0..<length L]" and "unat i0 + length L < 2 ^ 64"
  shows "distinct (map fst L)" and "- 1 \<notin> fst ` set L"
proof -
  have u: "unat (i0 + word_of_nat k) = unat i0 + k" if "k < length L" for k
  proof -
    have "unat (word_of_nat k :: u64) = k"
      using that assms(2) by (simp add: unsigned_of_nat take_bit_nat_eq_self)
    with that assms(2) show ?thesis using unat_add_lem [of i0 "word_of_nat k"] by simp
  qed
  have "inj_on (\<lambda>k. i0 + word_of_nat k) {0..<length L}"
  proof (rule inj_onI)
    fix j k assume jk: "j \<in> {0..<length L}" "k \<in> {0..<length L}" and eq: "i0 + word_of_nat j = i0 + (word_of_nat k :: u64)"
    then have "j < length L" "k < length L" by simp_all
    from u [OF this(1)] u [OF this(2)] have "unat i0 + j = unat i0 + k" unfolding eq by (rule trans [OF sym])
    then show "j = k" by (rule add_left_imp_eq)
  qed
  then show "distinct (map fst L)" unfolding assms(1) by (simp add: distinct_map)
  show "- 1 \<notin> fst ` set L"
  proof
    assume "- 1 \<in> fst ` set L"
    then have "- 1 \<in> set (map fst L)" by simp
    then obtain k where k: "k < length L" "- 1 = i0 + (word_of_nat k :: u64)" unfolding assms(1) by auto
    have "unat (- 1 :: u64) = 2 ^ 64 - 1" by (simp add: unsigned_minus_1_eq_mask mask_eq_exp_minus_1)
    with k(2) u [OF k(1)] have "unat i0 + k = 2 ^ 64 - 1" by (simp only:)
    with k(1) assms(2) show False by simp
  qed
qed

text \<open>
  C1. A reply belongs to its request, in every interleaving of the callers, the loops of both
  ends, the workers of the node, timeouts, a disconnection and a network that delivers in pieces
  of any size: whenever the promise with the id \<open>i\<close> has been completed by a reply, exactly one
  request was made with this id, and the reply is what the node's handler wrapper computes for
  the frame of this very request, and valid. No reply is mixed up, altered or made up, also not
  when a transfer fails in the middle of a message.
\<close>

theorem replies_belong_to_requests:
  assumes "link_session serialize (s, n) L (s', n')" and "session_start h (s, n)"
    and "\<And>r b. serialize r = Some b \<Longrightarrow> length b < 2 ^ 32"
    and "\<And>q r. h q = Inr r \<Longrightarrow> NodeServer_ProcessMessage parse serialize router q = Returns r"
    and "unat (cl_next_id s) + length L < 2 ^ 64"
    and "(i, Reply m) \<in> set (cl_resolved s') - set (cl_resolved s)"
  shows "\<exists>request body t. (i, request) \<in> set L \<and> (\<forall>r. (i, r) \<in> set L \<longrightarrow> r = request)
    \<and> serialize request = Some body \<and> Validate m = OK
    \<and> m = response_for (Some h) (request_frame i t (cm_message_type request) body)"
proof -
  have wf: "well_sized r" if "h q = Inr r" for q r
    by (rule wf_frame_well_sized [OF wf_NodeServer_ProcessMessage [OF assms(3) assms(4) [OF that]]])
  have "session_inv h serialize L s s' n'"
    using session_keeps [OF assms(1,2,3) wf] by simp
  then have b: "books_ok h serialize L s s'" by (simp add: session_inv_def)
  with assms(6) have c: "i \<in> fst ` set L" "mh_request_id (nm_header m) = i" "Validate m = OK" "answer h serialize L m"
    by (auto simp: books_ok_def completed_def)
  from b have "map fst L = map (\<lambda>k. cl_next_id s + word_of_nat k) [0..<length L]" by (simp add: books_ok_def)
  note ids = numbered_ids [OF this assms(5)]
  have "i \<noteq> - 1" using c(1) ids(2) by metis
  with c obtain q where q: "asked serialize L q" "m = response_for (Some h) q" by (auto simp: answer_def)
  then obtain j r body t where r: "(j, r) \<in> set L" "serialize r = Some body" "q = request_frame j t (cm_message_type r) body"
    by (auto simp: asked_def)
  with q c(2) have "j = i" by (simp add: response_for_id)
  moreover have "\<forall>r'. (i, r') \<in> set L \<longrightarrow> r' = r"
    using ids(1) r(1) \<open>j = i\<close> eq_key_imp_eq_value by metis
  ultimately show ?thesis using q r c(3) by blast
qed

text \<open>The concrete system, with one request answered.\<close>

lemma demo_round:
  obtains s' n' reply where "link_session demo_serialize (round_client, round_node demo_handler) [(1, demo_request)] (s', n')"
    and "cl_resolved s' = [(1, Reply reply)]"
proof -
  have "demo_handler (request_frame (cl_next_id round_client) 0 (cm_message_type demo_request) ''q'') = Inr (proto_frame 0 ''a'')"
    unfolding demo_handler_process
    by (rule node_signing_reply(1) [where request = demo_request and req = demo_signing and now = 7 and body = "''q''"])
      (simp_all only: demo_codec demo_router_def demo_serialized demo_response_def [symmetric],
        simp_all add: demo_request_def)
  note answered = session_answers [where serialize = demo_serialize and request = demo_request and h = demo_handler
      and now = 0, OF demo_ready demo_serialized(1) _ _ demo_fields(4) this]
  show thesis
  proof (rule answered)
    fix s1 s' n'
    assume "link_session demo_serialize (round_client, round_node demo_handler) [(cl_next_id round_client, demo_request)] (s', n')"
      "cl_resolved s' = cl_resolved round_client @ [(cl_next_id round_client, Reply (response_for (Some demo_handler)
         (request_frame (cl_next_id round_client) 0 (cm_message_type demo_request) ''q'')))]"
    with that show thesis unfolding demo_fields by simp
  qed simp_all
qed

theorem replies_belong_to_requests_witness:
  "\<exists>s' n' m t. link_session demo_serialize (round_client, round_node demo_handler) [(1, demo_request)] (s', n')
     \<and> (1, Reply m) \<in> set (cl_resolved s') \<and> Validate m = OK
     \<and> m = response_for (Some demo_handler) (request_frame 1 t 0 ''q'')"
proof -
  obtain s' n' reply where run: "link_session demo_serialize (round_client, round_node demo_handler) [(1, demo_request)] (s', n')"
    and r: "cl_resolved s' = [(1, Reply reply)]" by (rule demo_round)
  have start: "session_start demo_handler (round_client, round_node demo_handler)"
    by (simp add: session_start_def round_client_def round_node_def NodeTcpClient_new_def demo_server_def)
      (simp add: round_env_def idle_env_def)
  have small: "length b < 2 ^ 32" if "demo_serialize r = Some b" for r b
    using that by (auto simp: demo_serialize_def split: if_splits)
  have ids: "unat (cl_next_id round_client) + length [(1 :: u64, demo_request)] < 2 ^ 64"
    and new: "(1, Reply reply) \<in> set (cl_resolved s') - set (cl_resolved round_client)"
    using r by (simp_all add: demo_fields)
  have "\<exists>request body t. (1 :: u64, request) \<in> set [(1, demo_request)] \<and> (\<forall>r. (1, r) \<in> set [(1 :: u64, demo_request)] \<longrightarrow> r = request)
    \<and> demo_serialize request = Some body \<and> Validate reply = OK
    \<and> reply = response_for (Some demo_handler) (request_frame 1 t (cm_message_type request) body)"
    by (rule replies_belong_to_requests [where parse = demo_parse and router = demo_router])
      (rule run, rule start, erule small, simp add: demo_handler_process, rule ids, rule new)
  moreover have "cm_message_type demo_request = 0" by (simp add: demo_request_def)
  ultimately obtain t where "Validate reply = OK" "reply = response_for (Some demo_handler) (request_frame 1 t 0 ''q'')"
    by (auto simp: demo_serialized)
  with run r show ?thesis
    by (intro exI [of _ s'] exI [of _ n'] exI [of _ reply] exI [of _ t]) simp
qed

end
