(* ===== verification/Broadcast_Round.thy ===== *)
theory Broadcast_Round
  imports Coordinator_Server Signing_Round
begin

text \<open>
  A broadcast of the coordinator joined with the nodes it names: the calls of \<open>SendToNode\<close> on the
  registered clients, each with the session of its own connection, and the decision over all of
  them.
\<close>

lemma signing_success_counts: "\<not> signing_failed (signing_success p now req)"
  by (simp add: signing_failed_def signing_success_def)


definition demo_pair :: "unit coordinator" where
  "demo_pair = (CoordinatorServer_new 0)\<lparr>co_nodes := [(''n1'', round_client), (''n2'', round_client), (''n3'', round_client)]\<rparr>"


end
