(* ===== verification/Node_Shutdown.thy ===== *)
theory Node_Shutdown
  imports Node_Main
begin

text \<open>
  The end of a node: the termination of \<open>NodeTcpServer::Stop\<close> with all its threads, from
  whatever the server was doing when it was called, and the signal handler of the program with
  the wait of its main thread.
\<close>

section \<open>Stop and the threads of the server\<close>

text \<open>
  What is left to do: the stages of \<open>Stop\<close>, the tasks of the pool, and the steps that each
  thread can still make when the server does not run. A read that is under way may still bring
  one task.
\<close>

fun conn_work :: "conn_pc \<Rightarrow> nat" where
  "conn_work C_serving = 2" | "conn_work C_accepting = 1" | "conn_work C_exited = 0" | "conn_work C_off = 0"

fun receive_work :: "loop_pc \<Rightarrow> nat" where
  "receive_work L_io = 3" | "receive_work L_check = 1" | "receive_work pc = 0"

fun send_work :: "loop_pc \<Rightarrow> nat" where
  "send_work L_io = 2" | "send_work L_check = 1" | "send_work pc = 0"

definition stop_work :: "node_server \<Rightarrow> nat" where
  "stop_work s = (5 - ts_stop_stage s) + size (ts_tasks s) + conn_work (ts_conn_pc s)
     + receive_work (ts_recv_pc s) + send_work (ts_send_pc s)"

text \<open>How the stages of \<open>Stop\<close> and the places of the threads hang together.\<close>

definition threads_placed :: "node_server \<Rightarrow> bool" where
  "threads_placed s \<longleftrightarrow> ts_conn_pc s \<noteq> C_off
     \<and> (if ts_conn_pc s = C_serving then ts_recv_pc s \<noteq> L_off \<and> ts_send_pc s \<noteq> L_off
        else ts_recv_pc s = L_off \<and> ts_send_pc s = L_off)"

definition stages_kept :: "node_server \<Rightarrow> bool" where
  "stages_kept s \<longleftrightarrow> ts_stop_stage s \<le> 5 \<and> (ts_running s \<longleftrightarrow> ts_stop_stage s = 0)
     \<and> (1 \<le> ts_stop_stage s \<longrightarrow> ts_server_socket s = INVALID_SOCKET_VALUE)
     \<and> (2 \<le> ts_stop_stage s \<longrightarrow> ts_conn s = None)
     \<and> (3 \<le> ts_stop_stage s \<longrightarrow> ts_pool_stopped s = Some True)
     \<and> (4 \<le> ts_stop_stage s \<longrightarrow> ts_tasks s = {#} \<and> (\<exists>q. ts_queue s = Some q \<and> q_shutdown q))
     \<and> (5 \<le> ts_stop_stage s \<longrightarrow> ts_conn_pc s = C_exited)
     \<and> (ts_conn_pc s = C_exited \<longrightarrow> 1 \<le> ts_stop_stage s)"

definition stop_inv :: "node_server \<Rightarrow> bool" where
  "stop_inv s \<longleftrightarrow> threads_placed s \<and> stages_kept s"

lemmas stop_inv_defs = stop_inv_def threads_placed_def stages_kept_def

lemma tcp_started_stop_inv: "tcp_started ip s \<Longrightarrow> stop_inv s"
  by (erule tcp_started.cases)
    (auto simp: NodeTcpServer_new_def Tcp_Initialize_def Tcp_Start_def SetMessageHandler_def
      SetTrustedCoordinator_def EnableKernelFirewall_def Let_def stop_inv_defs
      ThreadSafeQueue_def split: if_splits sum.splits)

text \<open>The stop-related part of the state, which most of the operations leave alone.\<close>

definition stop_view where
  "stop_view s = (ts_stop_stage s, ts_running s, ts_server_socket s, ts_pool_stopped s, ts_tasks s,
     ts_conn_pc s, ts_recv_pc s, ts_send_pc s)"

lemma TryPush_shutdown: "TryPush x q = (r, q') \<Longrightarrow> q_shutdown q' = q_shutdown q"
  by (cases rule: TryPush_cases [of x q]) auto

lemma push_response_view:
  "stop_view (push_response i m s) = stop_view s" "ts_conn (push_response i m s) = ts_conn s"
  "ts_queue s = Some q \<Longrightarrow> \<exists>q'. ts_queue (push_response i m s) = Some q' \<and> q_shutdown q' = q_shutdown q"
  by (auto simp: push_response_def stop_view_def dest: TryPush_shutdown split: option.splits prod.splits)

lemma submit_request_view:
  assumes "ts_queue s = Some q"
  shows "ts_stop_stage (submit_request r m s) = ts_stop_stage s \<and> ts_running (submit_request r m s) = ts_running s
    \<and> ts_server_socket (submit_request r m s) = ts_server_socket s
    \<and> ts_pool_stopped (submit_request r m s) = ts_pool_stopped s \<and> ts_conn_pc (submit_request r m s) = ts_conn_pc s
    \<and> ts_send_pc (submit_request r m s) = ts_send_pc s \<and> ts_conn (submit_request r m s) = ts_conn s
    \<and> ts_recv_pc (submit_request r m s) \<in> {L_check, L_done}
    \<and> size (ts_tasks (submit_request r m s)) \<le> Suc (size (ts_tasks s))
    \<and> (\<exists>q'. ts_queue (submit_request r m s) = Some q' \<and> q_shutdown q' = q_shutdown q)"
  using assms
  by (auto simp: submit_request_def Let_def push_response_def dest: TryPush_shutdown
      split: sum.splits exn.splits option.splits prod.splits)

lemma touch_view [simp]:
  "stop_view (touch_request now s) = stop_view s" "stop_view (touch_response now s) = stop_view s"
  "ts_queue (touch_request now s) = ts_queue s" "ts_queue (touch_response now s) = ts_queue s"
  "ts_conn (touch_request now s) = None \<longleftrightarrow> ts_conn s = None"
  "ts_conn (touch_response now s) = None \<longleftrightarrow> ts_conn s = None"
  by (simp_all add: touch_request_def touch_response_def stop_view_def)

lemma messages_view:
  "Node_ReceiveMessage s = Some (x, s') \<Longrightarrow> stop_view s' = stop_view s \<and> ts_queue s' = ts_queue s
     \<and> (ts_conn s' = None \<longleftrightarrow> ts_conn s = None) \<and> (ts_conn s = None \<longrightarrow> x = Inr None)"
  "Node_SendMessage m s = Some (y, s') \<Longrightarrow> stop_view s' = stop_view s \<and> ts_queue s' = ts_queue s
     \<and> (ts_conn s' = None \<longleftrightarrow> ts_conn s = None)"
  by (auto simp: Node_ReceiveMessage_def Node_SendMessage_def put_tls_def stop_view_def
      split: option.splits sum.splits)

text \<open>What a step of each thread does to the places of the threads.\<close>

lemma ReceiveLoop_step_view:
  assumes "ReceiveLoop_step now r s = Some s'" and "guarded s"
  shows "ts_recv_pc s \<in> {L_check, L_io} \<and> ts_recv_pc s' \<in> {L_check, L_io, L_done}
    \<and> ts_stop_stage s' = ts_stop_stage s \<and> ts_running s' = ts_running s \<and> ts_server_socket s' = ts_server_socket s
    \<and> ts_pool_stopped s' = ts_pool_stopped s \<and> ts_conn_pc s' = ts_conn_pc s \<and> ts_send_pc s' = ts_send_pc s
    \<and> (ts_conn s = None \<longrightarrow> ts_conn s' = None \<and> ts_tasks s' = ts_tasks s)
    \<and> (\<forall>q. ts_queue s = Some q \<longrightarrow> (\<exists>q'. ts_queue s' = Some q' \<and> q_shutdown q' = q_shutdown q))
    \<and> (\<not> ts_running s \<longrightarrow> size (ts_tasks s') + receive_work (ts_recv_pc s') < size (ts_tasks s) + receive_work (ts_recv_pc s))"
proof (cases "ts_recv_pc s")
  case L_check
  with assms(1) show ?thesis by (auto simp: ReceiveLoop_step_def split: if_splits)
next
  case L_io
  with assms(1) obtain x s1 where rc: "Node_ReceiveMessage s = Some (x, s1)"
    by (auto simp: ReceiveLoop_step_def split: option.splits)
  from Node_ReceiveMessage_keeps [OF this assms(2)] obtain m where x: "x = Inr m" by blast
  note v = messages_view(1) [OF rc, unfolded x]
  show ?thesis
  proof (cases m)
    case None
    with assms(1) L_io rc x have "s' = s1\<lparr>ts_recv_pc := L_done\<rparr>" by (simp add: ReceiveLoop_step_def)
    with v L_io show ?thesis by (simp add: stop_view_def)
  next
    case (Some msg)
    with assms(1) L_io rc x have s': "s' = submit_request r msg (touch_request now s1)"
      by (auto simp: ReceiveLoop_step_def split: if_splits)
    obtain q where q: "ts_queue s = Some q" using assms(2) by (auto simp: guarded_def)
    then have "ts_queue (touch_request now s1) = Some q" using v by simp
    note sub = submit_request_view [OF this, of r msg, folded s']
    have "stop_view (touch_request now s1) = stop_view s" "ts_conn s \<noteq> None" using v Some by auto
    with sub q L_io show ?thesis by (auto simp: stop_view_def)
  qed
qed (use assms(1) in \<open>simp_all add: ReceiveLoop_step_def\<close>)

lemma SendLoop_step_view:
  assumes "SendLoop_step now s = Some s'" and "guarded s"
  shows "ts_send_pc s \<in> {L_check, L_io} \<and> ts_send_pc s' \<in> {L_check, L_io, L_done}
    \<and> ts_stop_stage s' = ts_stop_stage s \<and> ts_running s' = ts_running s \<and> ts_server_socket s' = ts_server_socket s
    \<and> ts_pool_stopped s' = ts_pool_stopped s \<and> ts_conn_pc s' = ts_conn_pc s \<and> ts_recv_pc s' = ts_recv_pc s
    \<and> ts_tasks s' = ts_tasks s \<and> (ts_conn s = None \<longrightarrow> ts_conn s' = None)
    \<and> (\<forall>q. ts_queue s = Some q \<longrightarrow> (\<exists>q'. ts_queue s' = Some q' \<and> q_shutdown q' = q_shutdown q))
    \<and> (\<not> ts_running s \<longrightarrow> send_work (ts_send_pc s') < send_work (ts_send_pc s))"
proof (cases "ts_send_pc s")
  case L_check
  with assms(1) show ?thesis by (auto simp: SendLoop_step_def split: if_splits)
next
  case L_io
  with assms(1) obtain q r item q' where q: "ts_queue s = Some q" and pop: "Pop q = Some (r, item, q')"
    by (auto simp: SendLoop_step_def split: option.splits)
  have shut: "q_shutdown q' = q_shutdown q"
    using pop by (auto simp: Pop_def pop_locked_def split: if_splits list.splits)
  show ?thesis
  proof (cases "\<exists>m. r = SUCCESS \<and> item = Some m")
    case False
    with assms(1) L_io q pop have "s' = s\<lparr>ts_send_pc := L_check\<rparr>"
      by (auto simp: SendLoop_step_def split: QueueResult.splits option.splits)
    with L_io show ?thesis by simp
  next
    case True
    then obtain m where m: "r = SUCCESS" "item = Some m" by blast
    let ?t = "s\<lparr>ts_queue := Some q'\<rparr>"
    from assms(1) L_io q pop m obtain x s1 where sd: "Node_SendMessage m ?t = Some (x, s1)"
      by (auto simp: SendLoop_step_def Let_def split: option.splits)
    have "guarded ?t" using assms(2) by (simp add: guarded_def)
    from Node_SendMessage_keeps [OF sd this] obtain ok where x: "x = Inr ok" by blast
    note v = messages_view(2) [OF sd]
    show ?thesis
    proof (cases ok)
      case False
      with assms(1) L_io q pop m sd x
      have "s' = s1\<lparr>ts_send_pc := L_done, ts_dropped := ts_dropped s1 @ [mh_request_id (nm_header m)]\<rparr>"
        by (simp add: SendLoop_step_def Let_def)
      with v L_io q shut show ?thesis by (simp add: stop_view_def)
    next
      case True
      with assms(1) L_io q pop m sd x
      have "s' = (touch_response now s1)\<lparr>ts_send_pc := L_check, ts_sent := ts_sent s1 @ [mh_request_id (nm_header m)]\<rparr>"
        by (simp add: SendLoop_step_def Let_def)
      moreover have "stop_view (touch_response now s1) = stop_view ?t" using v by simp
      ultimately show ?thesis using v L_io q shut by (simp add: stop_view_def)
    qed
  qed
qed (use assms(1) in \<open>simp_all add: SendLoop_step_def\<close>)

lemma HandleCoordinatorConnection_start_view:
  assumes "HandleCoordinatorConnection_start sock ip port created fd_ok err_text now s = Some s'"
  obtains (failed) cl e where "s' = s\<lparr>ts_closed := cl, ts_env := e\<rparr>"
  | (serving) nc e p where "s' = s\<lparr>ts_conn := Some nc, ts_env := e, ts_conn_pc := C_serving, ts_recv_pc := p, ts_send_pc := L_check\<rparr>"
      "p \<in> {L_done, L_check}"
proof -
  let ?cfg = "TlsConnectionConfig_default\<lparr>cc_handshake_timeout_ms := 10000\<rparr>"
  obtain ok c e where a: "AcceptServer created fd_ok True sock ?cfg TlsConnection_default (ts_env s) = Some (ok, c, e)"
    using assms by (auto simp: HandleCoordinatorConnection_start_def Let_def split: option.splits)
  show thesis
  proof (cases ok)
    case False
    with assms a show thesis by (intro failed) (auto simp: HandleCoordinatorConnection_start_def Let_def)
  next
    case True
    with assms a obtain ok' c' e' where h: "DoHandshake err_text c e = Some (ok', c', e')"
      by (auto simp: HandleCoordinatorConnection_start_def Let_def split: option.splits)
    show thesis
    proof (cases ok')
      case False
      with assms a True h show thesis
        by (intro failed) (auto simp: HandleCoordinatorConnection_start_def Let_def)
    next
      case True
      with assms a \<open>ok\<close> h have
        "s' = s\<lparr>ts_conn := Some (InitializeWithTls ip port (Some c') now NodeConnectionInfo_default), ts_env := e',
          ts_conn_pc := C_serving, ts_recv_pc := (if ts_handler s = None then L_done else L_check), ts_send_pc := L_check\<rparr>"
        by (simp add: HandleCoordinatorConnection_start_def Let_def)
      then show thesis by (rule serving) simp
    qed
  qed
qed

lemma ForceClose_view:
  "\<exists>e. ForceCloseExistingConnection s = s\<lparr>ts_conn := None, ts_env := e\<rparr>"
  by (cases "ts_conn s")
    (auto simp: ForceCloseExistingConnection_def intro: exI [of _ "ts_env s"])

lemma ConnectionLoop_step_view:
  assumes "ConnectionLoop_step sock ip port created fd_ok err_text now s = Some s'" and "stop_inv s"
  shows "stop_inv s' \<and> (\<not> ts_running s \<longrightarrow> stop_work s' < stop_work s)"
proof (cases "ts_running s")
  case False
  with assms(1) have "ts_conn_pc s = C_accepting" "s' = s\<lparr>ts_conn_pc := C_exited\<rparr>"
    by (auto simp: ConnectionLoop_step_def split: if_splits)
  with assms(2) False show ?thesis by (auto simp: stop_inv_defs stop_work_def)
next
  case True
  let ?f = "ForceCloseExistingConnection s"
  obtain e where f: "?f = s\<lparr>ts_conn := None, ts_env := e\<rparr>" using ForceClose_view by blast
  from assms(1) True have pc: "ts_conn_pc s = C_accepting" by (auto simp: ConnectionLoop_step_def split: if_splits)
  have "s' = s \<or> s' = s\<lparr>ts_closed := ts_closed s @ [sock]\<rparr>
      \<or> HandleCoordinatorConnection_start sock ip port created fd_ok err_text now ?f = Some s'"
    using assms(1) True by (simp add: ConnectionLoop_step_def split: if_split_asm)
  then consider (same) "s' = s" | (closed) "s' = s\<lparr>ts_closed := ts_closed s @ [sock]\<rparr>"
    | (start) "HandleCoordinatorConnection_start sock ip port created fd_ok err_text now ?f = Some s'" by blast
  then show ?thesis
  proof cases
    case start
    then show ?thesis
      by (cases rule: HandleCoordinatorConnection_start_view) (use assms(2) True pc f in \<open>auto simp: stop_inv_defs\<close>)
  qed (use assms(2) True in \<open>auto simp: stop_inv_defs\<close>)
qed

text \<open>The loops move no stage and add no task once the connection is gone.\<close>

lemma stop_inv_loops:
  assumes "stop_inv s" and "ts_queue s \<noteq> None"
    and "ts_stop_stage s' = ts_stop_stage s \<and> ts_running s' = ts_running s \<and> ts_server_socket s' = ts_server_socket s
      \<and> ts_pool_stopped s' = ts_pool_stopped s \<and> ts_conn_pc s' = ts_conn_pc s"
    and "(ts_recv_pc s' = L_off \<longleftrightarrow> ts_recv_pc s = L_off) \<and> (ts_send_pc s' = L_off \<longleftrightarrow> ts_send_pc s = L_off)"
    and "ts_conn s = None \<longrightarrow> ts_conn s' = None \<and> ts_tasks s' = ts_tasks s"
    and "\<forall>q. ts_queue s = Some q \<longrightarrow> (\<exists>q'. ts_queue s' = Some q' \<and> q_shutdown q' = q_shutdown q)"
  shows "stop_inv s'"
proof -
  have "threads_placed s'" using assms(1,3,4) by (simp add: stop_inv_def threads_placed_def)
  moreover have "stages_kept s'"
  proof -
    have k: "stages_kept s" using assms(1) by (simp add: stop_inv_def)
    then have c: "ts_conn s = None" if "2 \<le> ts_stop_stage s" using that by (simp add: stages_kept_def)
    from k assms(3,5) c have "4 \<le> ts_stop_stage s \<Longrightarrow> ts_tasks s' = {#}" by (simp add: stages_kept_def)
    moreover from k assms(6) have "4 \<le> ts_stop_stage s \<Longrightarrow> \<exists>q. ts_queue s' = Some q \<and> q_shutdown q"
      by (auto simp: stages_kept_def)
    ultimately show ?thesis using k assms(3,5) c by (simp add: stages_kept_def)
  qed
  ultimately show ?thesis by (simp add: stop_inv_def)
qed

lemma Stop_step_cases:
  assumes "Stop_step s = Some s'" and "ts_queue s = Some q" and "ts_pool_stopped s \<noteq> None"
  obtains (running) cl where "ts_stop_stage s = 0" "s' = s\<lparr>ts_running := False, ts_stop_stage := 1, ts_closed := cl,
        ts_server_socket := INVALID_SOCKET_VALUE\<rparr>"
    | (connection) e where "ts_stop_stage s = 1" "s' = s\<lparr>ts_conn := None, ts_env := e, ts_stop_stage := 2\<rparr>"
    | (pool) "ts_stop_stage s = 2" "s' = s\<lparr>ts_pool_stopped := Some True, ts_stop_stage := 3\<rparr>"
    | (queue) "ts_stop_stage s = 3" "ts_tasks s = {#}" "s' = s\<lparr>ts_queue := Some (Shutdown q), ts_stop_stage := 4\<rparr>"
    | (joined) "ts_stop_stage s = 4" "ts_conn_pc s = C_exited" "s' = s\<lparr>ts_stop_stage := 5\<rparr>"
proof -
  obtain e where f: "ForceCloseExistingConnection s = s\<lparr>ts_conn := None, ts_env := e\<rparr>" using ForceClose_view by blast
  have eqs: "map_option (\<lambda>_. True) (ts_pool_stopped s) = Some True" "map_option Shutdown (ts_queue s) = Some (Shutdown q)"
    using assms(2,3) by auto
  have stages: "ts_stop_stage s \<le> 4" using assms(1) by (simp add: Stop_step_def split: if_split_asm)
  consider "ts_stop_stage s = 0" | "ts_stop_stage s = 1" | "ts_stop_stage s = 2" | "ts_stop_stage s = 3" | "ts_stop_stage s = 4"
    using stages by linarith
  then show thesis
  proof cases
    case 1
    with assms(1) have "s' = s\<lparr>ts_running := False, ts_stop_stage := 1,
        ts_closed := (if ts_server_socket s \<noteq> INVALID_SOCKET_VALUE then ts_closed s @ [ts_server_socket s] else ts_closed s),
        ts_server_socket := INVALID_SOCKET_VALUE\<rparr>"
      by (simp add: Stop_step_def split: if_split_asm)
    with 1 show thesis by (rule running)
  next
    case 2
    with assms(1) f show thesis by (intro connection [of e]) (simp_all add: Stop_step_def)
  next
    case 3
    with assms(1) eqs(1) show thesis by (intro pool) (simp_all add: Stop_step_def)
  next
    case 4
    with assms(1) eqs(2) show thesis by (intro queue) (simp_all add: Stop_step_def split: if_split_asm)
  next
    case 5
    with assms(1) show thesis by (intro joined) (simp_all add: Stop_step_def split: if_split_asm)
  qed
qed

lemma Stop_step_view:
  assumes "Stop_step s = Some s'" and "stop_inv s" and "guarded s"
  shows "stop_inv s' \<and> stop_work s' < stop_work s"
proof -
  obtain q where q: "ts_queue s = Some q" using assms(3) by (auto simp: guarded_def)
  have "ts_pool_stopped s \<noteq> None" using assms(3) by (simp add: guarded_def)
  from assms(1) q this show ?thesis
    by (cases rule: Stop_step_cases) (use assms(2) q in \<open>simp_all add: stop_inv_defs stop_work_def Shutdown_def\<close>)
qed

lemma node_step_stop:
  assumes "node_step s s'" and "stop_inv s" and "guarded s"
  shows "stop_inv s' \<and> (\<not> ts_running s \<longrightarrow> s' = StopAcceptingConnections s \<or> stop_work s' < stop_work s)"
  using assms(1)
proof (cases rule: node_step.cases)
  case (ns_connection sock ip port created fd_ok err_text now)
  from ConnectionLoop_step_view [OF this assms(2)] show ?thesis by blast
next
  case ns_end
  then have pcs: "ts_conn_pc s = C_serving" "ts_recv_pc s = L_done" "ts_send_pc s = L_done"
    and s': "Some s' = Some (s\<lparr>ts_conn := None, ts_conn_pc := C_accepting, ts_recv_pc := L_off, ts_send_pc := L_off,
      ts_env := (case ts_conn s of None \<Rightarrow> ts_env s | Some nc \<Rightarrow> snd (nc_Disconnect nc (ts_env s)))\<rparr>)"
    by (simp_all only: HandleCoordinatorConnection_end_def option.distinct split: if_split_asm)
  then show ?thesis using assms(2) by (simp add: stop_inv_defs stop_work_def)
next
  case (ns_receive now r)
  note v = ReceiveLoop_step_view [OF this assms(3)]
  have "stop_inv s'" by (rule stop_inv_loops [OF assms(2)]) (use v assms(3) in \<open>auto simp: guarded_def\<close>)
  with v show ?thesis by (simp add: stop_work_def)
next
  case (ns_send now)
  note v = SendLoop_step_view [OF this assms(3)]
  have "stop_inv s'" by (rule stop_inv_loops [OF assms(2)]) (use v assms(3) in \<open>auto simp: guarded_def\<close>)
  with v show ?thesis by (simp add: stop_work_def)
next
  case (ns_task m)
  let ?t = "s\<lparr>ts_tasks := ts_tasks s - {#m#}\<rparr>"
  have v: "stop_view s' = stop_view ?t" "ts_conn s' = ts_conn s" and "ts_tasks s \<noteq> {#}"
    using ns_task push_response_view(1,2) by (auto simp: finish_task_def)
  then have "\<not> 4 \<le> ts_stop_stage s" using assms(2) by (simp add: stop_inv_def stages_kept_def)
  with v have "stop_inv s'" using assms(2) by (simp add: stop_inv_defs stop_view_def)
  moreover have "size (ts_tasks s - {#m#}) < size (ts_tasks s)" using ns_task by (simp add: size_Diff1_less)
  then have "stop_work s' < stop_work s" using v(1) by (simp add: stop_work_def stop_view_def)
  ultimately show ?thesis by blast
next
  case (ns_drop m)
  have less: "size (ts_tasks s - {#m#}) < size (ts_tasks s)" using ns_drop by (simp add: size_Diff1_less)
  have "ts_tasks s \<noteq> {#}" using ns_drop by auto
  then have "\<not> 4 \<le> ts_stop_stage s" using assms(2) by (simp add: stop_inv_def stages_kept_def)
  moreover have s': "s' = s\<lparr>ts_tasks := ts_tasks s - {#m#}, ts_dropped := ts_dropped s @ [mh_request_id (nm_header m)]\<rparr>"
    using ns_drop(1) by (simp add: drop_task_def)
  ultimately have "stop_inv s'" using assms(2) by (simp add: stop_inv_defs)
  moreover have "stop_work s' < stop_work s" using less by (simp add: s' stop_work_def)
  ultimately show ?thesis by blast
next
  case ns_stop_accepting
  then show ?thesis using assms(2) by (simp add: StopAcceptingConnections_def stop_inv_defs)
next
  case ns_stop
  from Stop_step_view [OF this assms(2,3)] show ?thesis by blast
qed

lemma node_step_stopped:
  assumes "node_step s s'" and "guarded s" and "\<not> ts_running s"
  shows "\<not> ts_running s'"
  using assms(1)
proof (cases rule: node_step.cases)
  case (ns_connection sock ip port created fd_ok err_text now)
  then show ?thesis using assms(3) by (auto simp: ConnectionLoop_step_def split: if_split_asm)
next
  case ns_end
  then show ?thesis using assms(3) by (auto simp: HandleCoordinatorConnection_end_def split: if_split_asm)
next
  case (ns_receive now r)
  from ReceiveLoop_step_view [OF this assms(2)] assms(3) show ?thesis by simp
next
  case (ns_send now)
  from SendLoop_step_view [OF this assms(2)] assms(3) show ?thesis by simp
next
  case (ns_task m)
  then show ?thesis
    using assms(3) push_response_view(1) [of "mh_request_id (nm_header m)" "response_for (ts_handler s) m" "s\<lparr>ts_tasks := ts_tasks s - {#m#}\<rparr>"]
    by (simp add: finish_task_def stop_view_def)
next
  case ns_stop
  obtain q where q: "ts_queue s = Some q" using assms(2) by (auto simp: guarded_def)
  have "ts_pool_stopped s \<noteq> None" using assms(2) by (simp add: guarded_def)
  from ns_stop q this show ?thesis by (cases rule: Stop_step_cases) (use assms(3) in simp_all)
qed (use assms(3) in \<open>simp_all add: drop_task_def StopAcceptingConnections_def\<close>)

text \<open>Until \<open>Stop\<close> has returned some thread can move, whatever the network does.\<close>

definition stop_place where
  "stop_place s = (ts_stop_stage s, ts_conn_pc s, ts_recv_pc s, ts_send_pc s, ts_tasks s)"

lemma stop_working:
  assumes "stop_inv s" and "guarded s" and "1 \<le> ts_stop_stage s" and "node_step s s'" and "stop_place s' \<noteq> stop_place s"
  shows "stop_work s' < stop_work s"
proof -
  have "stop_place (StopAcceptingConnections s) = stop_place s" by (simp add: stop_place_def StopAcceptingConnections_def)
  then have "s' \<noteq> StopAcceptingConnections s" using assms(5) by metis
  moreover have "\<not> ts_running s" using assms(1,3) by (simp add: stop_inv_defs)
  ultimately show ?thesis using node_step_stop [OF assms(4,1,2)] by blast
qed

lemma loops_end:
  assumes "\<not> ts_running s" and "ts_conn s = None" and "ts_queue s = Some q" and "q_shutdown q"
  shows "ts_recv_pc s \<in> {L_check, L_io} \<Longrightarrow> \<exists>s'. ReceiveLoop_step 0 (Inr ()) s = Some s' \<and> ts_recv_pc s' = L_done"
    and "ts_send_pc s \<in> {L_check, L_io} \<Longrightarrow> \<exists>s'. SendLoop_step 0 s = Some s' \<and> ts_send_pc s' \<noteq> ts_send_pc s"
proof -
  assume "ts_recv_pc s \<in> {L_check, L_io}"
  then have "ReceiveLoop_step 0 (Inr ()) s = Some (s\<lparr>ts_recv_pc := L_done\<rparr>)"
    using assms(1,2) by (auto simp: ReceiveLoop_step_def Node_ReceiveMessage_def)
  then show "\<exists>s'. ReceiveLoop_step 0 (Inr ()) s = Some s' \<and> ts_recv_pc s' = L_done" by simp
next
  assume "ts_send_pc s \<in> {L_check, L_io}"
  then consider "ts_send_pc s = L_check" | "ts_send_pc s = L_io" "q_items q = []"
    | m ms where "ts_send_pc s = L_io" "q_items q = m # ms" by (cases "q_items q") auto
  then show "\<exists>s'. SendLoop_step 0 s = Some s' \<and> ts_send_pc s' \<noteq> ts_send_pc s"
    by cases (use assms in \<open>simp_all add: SendLoop_step_def Pop_def pop_locked_def not_empty_or_shutdown_def
        Node_SendMessage_def Let_def\<close>)
qed

lemma stop_moves:
  assumes inv: "stop_inv s" "guarded s" and "1 \<le> ts_stop_stage s" and "ts_stop_stage s < 5"
  shows "\<exists>s'. node_step s s' \<and> stop_work s' < stop_work s"
proof -
  note working = stop_working [OF assms(1-3)]
  have run: "\<not> ts_running s" using assms(1,3) by (simp add: stop_inv_defs)
  consider (early) "ts_stop_stage s = 1 \<or> ts_stop_stage s = 2 \<or> ts_stop_stage s = 3 \<and> ts_tasks s = {#}"
    | (tasks) "ts_stop_stage s = 3" "ts_tasks s \<noteq> {#}"
    | (exited) "ts_stop_stage s = 4" "ts_conn_pc s = C_exited" | (waiting) "ts_stop_stage s = 4" "ts_conn_pc s \<noteq> C_exited"
    using assms(3,4) by linarith
  then show ?thesis
  proof cases
    case early
    then have "Stop_step s \<noteq> None" by (auto simp: Stop_step_def)
    then obtain s' where "Stop_step s = Some s'" by blast
    from ns_stop [OF this] Stop_step_view [OF this inv] show ?thesis by blast
  next
    case exited
    then have "Stop_step s \<noteq> None" by (simp add: Stop_step_def)
    then obtain s' where "Stop_step s = Some s'" by blast
    from ns_stop [OF this] Stop_step_view [OF this inv] show ?thesis by blast
  next
    case tasks
    then obtain m where m: "m \<in># ts_tasks s" by blast
    have "size (ts_tasks (drop_task m s)) < size (ts_tasks s)" using m by (simp add: drop_task_def size_Diff1_less)
    then have "stop_place (drop_task m s) \<noteq> stop_place s" unfolding stop_place_def by auto
    moreover have "ts_pool_stopped s = Some True" using inv(1) tasks by (simp add: stop_inv_defs)
    ultimately show ?thesis using working ns_drop [OF m] by blast
  next
    case waiting
    have c: "ts_conn s = None" and "\<exists>q. ts_queue s = Some q \<and> q_shutdown q" and on: "ts_conn_pc s \<noteq> C_off"
      using inv(1) waiting by (simp_all add: stop_inv_defs)
    then obtain q where q: "ts_queue s = Some q" "q_shutdown q" by blast
    note ends = loops_end [OF run c q]
    have placed: "ts_recv_pc s \<in> {L_check, L_io, L_done} \<and> ts_send_pc s \<in> {L_check, L_io, L_done}"
      if "ts_conn_pc s = C_serving"
      using inv that by (cases "ts_recv_pc s"; cases "ts_send_pc s") (simp_all add: stop_inv_def threads_placed_def guarded_def)
    consider (accepting) "ts_conn_pc s = C_accepting" | (reading) "ts_recv_pc s \<in> {L_check, L_io}"
      | (writing) "ts_send_pc s \<in> {L_check, L_io}"
      | (joined) "ts_conn_pc s = C_serving" "ts_recv_pc s = L_done" "ts_send_pc s = L_done"
      using waiting(2) on placed by (cases "ts_conn_pc s") auto
    then show ?thesis
    proof cases
      case accepting
      have "ConnectionLoop_step 0 [] 0 None True (\<lambda>_. []) 0 s = Some (s\<lparr>ts_conn_pc := C_exited\<rparr>)"
        using accepting run by (simp add: ConnectionLoop_step_def)
      from ns_connection [OF this] working [OF ns_connection [OF this]] show ?thesis using accepting by (auto simp: stop_place_def)
    next
      case reading
      from ends(1) [OF this] obtain s' where "ReceiveLoop_step 0 (Inr ()) s = Some s'" "ts_recv_pc s' = L_done" by blast
      from ns_receive [OF this(1)] working [OF ns_receive [OF this(1)]] this(2) reading show ?thesis
        by (auto simp: stop_place_def)
    next
      case writing
      from ends(2) [OF this] obtain s' where "SendLoop_step 0 s = Some s'" "ts_send_pc s' \<noteq> ts_send_pc s" by blast
      from ns_send [OF this(1)] working [OF ns_send [OF this(1)]] this(2) show ?thesis by (auto simp: stop_place_def)
    next
      case joined
      then obtain s' where "HandleCoordinatorConnection_end s = Some s'" "ts_conn_pc s' = C_accepting"
        by (simp add: HandleCoordinatorConnection_end_def)
      from ns_end [OF this(1)] working [OF ns_end [OF this(1)]] this(2) joined show ?thesis
        by (auto simp: stop_place_def)
    qed
  qed
qed

lemma stop_reachable:
  assumes "tcp_started ip s0" and "node_step\<^sup>*\<^sup>* s0 s"
  shows "stop_inv s \<and> guarded s"
  using assms(2)
proof (induction rule: rtranclp_induct)
  case base
  from tcp_started_stop_inv [OF assms(1)] node_reachable [OF assms(1)] show ?case by (simp add: node_inv_def)
next
  case (step s s')
  have "node_inv s'" using node_reachable [OF assms(1) rtranclp.rtrancl_into_rtrancl [OF step(1,2)]] by simp
  with node_step_stop [OF step(2)] step(3) show ?case by (simp add: node_inv_def)
qed

lemma stop_ends:
  assumes "stop_inv s" and "guarded s" and "1 \<le> ts_stop_stage s"
    and "\<And>t. node_step\<^sup>*\<^sup>* s t \<Longrightarrow> stop_inv t \<and> guarded t"
  shows "\<exists>s'. node_step\<^sup>*\<^sup>* s s' \<and> ts_stop_stage s' = 5"
  using assms
proof (induction "stop_work s" arbitrary: s rule: less_induct)
  case less
  show ?case
  proof (cases "ts_stop_stage s = 5")
    case False
    have "ts_stop_stage s < 5" using less(2) False by (simp add: stop_inv_defs)
    from stop_moves [OF less(2-4) this] obtain t where t: "node_step s t" "stop_work t < stop_work s" by blast
    note t_inv = less(5) [OF r_into_rtranclp [of node_step, OF t(1)]]
    have "\<not> ts_running s" using less(2,4) by (simp add: stop_inv_defs)
    with node_step_stopped [OF t(1) less(3)] t_inv have "1 \<le> ts_stop_stage t" by (simp add: stop_inv_defs)
    with less(1) [OF t(2)] t_inv less(5) converse_rtranclp_into_rtranclp [of node_step, OF t(1)]
    show ?thesis by blast
  qed blast
qed




end
