(* ===== verification/Signal_Wait.thy ===== *)
theory Signal_Wait
  imports Node_Shutdown Coordinator_Main
begin

text \<open>
  The end of the two programs: the main thread waits on a condition variable, and the handler of
  a signal stops the server, takes the mutex of the wait, sets the flag and notifies. The signal
  is one that is delivered to the main thread, as a process-directed signal usually is; the
  server exists from before the wait on, so the null check of the handlers passes.
\<close>

text \<open>
  Where the main thread is: before the wait takes the mutex, with the mutex while the condition
  is tested, asleep without the mutex, past the wait, or blocked for ever.
\<close>

datatype wait_pc = Before_wait | Testing | Asleep | Past_wait | Deadlocked

record 's waiting =
  wt_pc :: wait_pc
  wt_requested :: bool
  wt_server :: 's

definition wait_step :: "('s \<Rightarrow> bool) \<Rightarrow> 's waiting \<Rightarrow> 's waiting option" where
  "wait_step ended w =
     (case wt_pc w of
        Before_wait \<Rightarrow> Some (w\<lparr>wt_pc := Testing\<rparr>)
      | Testing \<Rightarrow> Some (w\<lparr>wt_pc := if wt_requested w \<or> ended (wt_server w) then Past_wait else Asleep\<rparr>)
      | Asleep \<Rightarrow> Some (w\<lparr>wt_pc := Testing\<rparr>)
      | _ \<Rightarrow> None)"

text \<open>
  The handler, with the \<open>Stop\<close> of the server. The mutex is not recursive, so a handler that
  interrupted the test of the condition waits for its own thread. A sleeping thread may wake
  without a notification and tests the condition again.
\<close>

definition handle_signal :: "('s \<Rightarrow> 's option) \<Rightarrow> 's waiting \<Rightarrow> 's waiting option" where
  "handle_signal stop w =
     (if wt_pc w = Deadlocked then None
      else case stop (wt_server w) of
        None \<Rightarrow> None
      | Some s \<Rightarrow>
          Some (if wt_pc w = Testing then w\<lparr>wt_server := s, wt_pc := Deadlocked\<rparr>
                else w\<lparr>wt_server := s, wt_requested := True\<rparr>))"

definition node_wait_step :: "NodeServer waiting \<Rightarrow> NodeServer waiting option" where
  "node_wait_step = wait_step (\<lambda>s. \<not> nv_running s)"

definition node_SignalHandler ::
  "(u32 \<times> nat) list \<Rightarrow> (node_server \<Rightarrow> node_server) \<Rightarrow> NodeServer waiting \<Rightarrow> NodeServer waiting option" where
  "node_SignalHandler readings tcp_stop = handle_signal (NodeServer_Stop readings tcp_stop)"

definition coordinator_wait_step :: "'f coordinator waiting \<Rightarrow> 'f coordinator waiting option" where
  "coordinator_wait_step = wait_step (\<lambda>_. False)"

definition coordinator_SignalHandler :: "u64 \<Rightarrow> 'f coordinator waiting \<Rightarrow> 'f coordinator waiting option" where
  "coordinator_SignalHandler now = handle_signal (Coordinator_Stop now)"

lemmas wait_defs = wait_step_def handle_signal_def node_wait_step_def node_SignalHandler_def
  coordinator_wait_step_def coordinator_SignalHandler_def

lemma signal_ends_wait:
  assumes "handle_signal stop w = Some w'"
  shows "(wt_pc w \<in> {Before_wait, Asleep} \<longrightarrow>
        (\<exists>w1 w2. wait_step ended w' = Some w1 \<and> wait_step ended w1 = Some w2 \<and> wt_pc w2 = Past_wait
           \<and> stop (wt_server w) = Some (wt_server w2)))
    \<and> (wt_pc w = Testing \<longrightarrow> wait_step ended w' = None \<and> handle_signal stop w' = None \<and> wt_pc w' \<noteq> Past_wait)"
  using assms
  by (cases "wt_pc w") (auto simp: wait_step_def handle_signal_def split: option.splits if_splits)

text \<open>
  A signal that comes before the wait or during the sleep ends the program's wait in two steps,
  with the server stopped; a signal that comes while the main thread tests the condition makes
  the handler wait for a mutex of its own thread, and the program never ends.
\<close>

theorem node_signal:
  assumes "node_SignalHandler readings tcp_stop w = Some w'"
  shows "(wt_pc w \<in> {Before_wait, Asleep} \<longrightarrow>
        (\<exists>w1 w2. node_wait_step w' = Some w1 \<and> node_wait_step w1 = Some w2 \<and> wt_pc w2 = Past_wait
           \<and> \<not> nv_running (wt_server w2)))
    \<and> (wt_pc w = Testing \<longrightarrow> node_wait_step w' = None \<and> node_SignalHandler readings tcp_stop w' = None
         \<and> wt_pc w' \<noteq> Past_wait)"
proof -
  have stopped: "\<not> nv_running t" if "NodeServer_Stop readings tcp_stop s = Some t" for s t
    using that by (auto simp: NodeServer_Stop_def split: if_splits option.splits)
  show ?thesis
    using signal_ends_wait [OF assms [unfolded node_SignalHandler_def], of "\<lambda>s. \<not> nv_running s"] stopped
    unfolding node_wait_step_def node_SignalHandler_def by blast
qed

theorem coordinator_signal:
  assumes "coordinator_SignalHandler now w = Some w'"
  shows "(wt_pc w \<in> {Before_wait, Asleep} \<longrightarrow>
        (\<exists>w1 w2. coordinator_wait_step w' = Some w1 \<and> coordinator_wait_step w1 = Some w2 \<and> wt_pc w2 = Past_wait
           \<and> Coordinator_Stop now (wt_server w) = Some (wt_server w2)))
    \<and> (wt_pc w = Testing \<longrightarrow> coordinator_wait_step w' = None \<and> coordinator_SignalHandler now w' = None
         \<and> wt_pc w' \<noteq> Past_wait)"
  using signal_ends_wait [OF assms [unfolded coordinator_SignalHandler_def], of "\<lambda>_. False"]
  unfolding coordinator_wait_step_def coordinator_SignalHandler_def .

end
