(* ===== verification/Std_Map.thy ===== *)
theory Std_Map
  imports Prelude
begin

text \<open>
  \<open>std::map<uint64_t, T>\<close> as the code iterates over it: the list of its entries with ascending
  keys. \<open>std_put\<close> is \<open>m[k] = v\<close>; the loops \<open>for (const auto& [k, v] : m) out[k] = f(v);\<close> are
  \<open>std_transform\<close>, which stops with \<open>None\<close> where \<open>f\<close> does.
\<close>

fun std_put :: "'k::linorder \<Rightarrow> 'v \<Rightarrow> ('k \<times> 'v) list \<Rightarrow> ('k \<times> 'v) list" where
  "std_put k v [] = [(k, v)]"
| "std_put k v ((a, b) # m) =
     (if k < a then (k, v) # (a, b) # m else if k = a then (k, v) # m else (a, b) # std_put k v m)"

definition std_ok :: "('k::linorder \<times> 'v) list \<Rightarrow> bool" where
  "std_ok m \<longleftrightarrow> sorted_wrt (<) (map fst m)"

fun std_transform :: "('a \<Rightarrow> 'b option) \<Rightarrow> ('k::linorder \<times> 'a) list \<Rightarrow> ('k \<times> 'b) list \<Rightarrow> ('k \<times> 'b) list option" where
  "std_transform f [] out = Some out"
| "std_transform f ((k, x) # m) out =
     (case f x of None \<Rightarrow> None | Some y \<Rightarrow> std_transform f m (std_put k y out))"

lemma std_ok_Nil [simp]: "std_ok []"
  by (simp add: std_ok_def)

lemma std_ok_Cons [simp]: "std_ok ((k, v) # m) \<longleftrightarrow> (\<forall>a\<in>fst ` set m. k < a) \<and> std_ok m"
  by (auto simp: std_ok_def)

lemma std_ok_append:
  "std_ok (m @ n) \<longleftrightarrow> std_ok m \<and> std_ok n \<and> (\<forall>a\<in>fst ` set m. \<forall>b\<in>fst ` set n. a < b)"
  by (auto simp: std_ok_def sorted_wrt_append)

lemma std_ok_distinct: "std_ok m \<Longrightarrow> distinct (map fst m)"
  by (simp add: std_ok_def strict_sorted_iff)

lemma map_of_std_put [simp]: "map_of (std_put k v m) = (map_of m)(k \<mapsto> v)"
  by (induction k v m rule: std_put.induct) auto

lemma fst_set_std_put: "fst ` set (std_put k v m) = insert k (fst ` set m)"
  by (induction k v m rule: std_put.induct) auto

lemma std_ok_std_put [simp]: "std_ok m \<Longrightarrow> std_ok (std_put k v m)"
  by (induction k v m rule: std_put.induct) (auto simp: fst_set_std_put)

lemma std_put_last: "\<forall>a\<in>fst ` set m. a < k \<Longrightarrow> std_put k v m = m @ [(k, v)]"
  by (induction k v m rule: std_put.induct) auto

text \<open>A loop over a map that is in order makes a map with the same keys in the same order.\<close>

lemma std_transform_append:
  assumes "std_ok m" and "\<forall>a\<in>fst ` set out. \<forall>b\<in>fst ` set m. a < b"
  shows "std_transform f m out =
    (if \<forall>x\<in>snd ` set m. f x \<noteq> None then Some (out @ map (\<lambda>(k, x). (k, the (f x))) m) else None)"
  using assms
proof (induction f m out rule: std_transform.induct)
  case (2 f k x m out)
  then have l: "std_put k y out = out @ [(k, y)]" for y by (simp add: std_put_last)
  show ?case using 2 by (cases "f x") (auto simp: l)
qed simp

lemma std_transform_all:
  "std_ok m \<Longrightarrow> (\<And>k x. (k, x) \<in> set m \<Longrightarrow> f x = Some (g k)) \<Longrightarrow>
     std_transform f m [] = Some (map (\<lambda>(k, x). (k, g k)) m)"
  by (subst std_transform_append) force+

lemma std_transform_None:
  "std_ok m \<Longrightarrow> std_transform f m [] = None \<longleftrightarrow> (\<exists>x\<in>snd ` set m. f x = None)"
  by (subst std_transform_append) auto

text \<open>Storing entries of a map one by one, in any order of distinct keys, gives the map.\<close>

definition std_map :: "('k::linorder \<times> 'v) list \<Rightarrow> ('k \<times> 'v) list" where
  "std_map xs = foldl (\<lambda>m (k, v). std_put k v m) [] xs"

lemma foldl_std_put_ok: "std_ok m \<Longrightarrow> std_ok (foldl (\<lambda>m (k, v). std_put k v m) m xs)"
  by (induction xs arbitrary: m) auto

lemma foldl_std_put_map_of:
  "map_of (foldl (\<lambda>m (k, v). std_put k v m) m xs) = map_of m ++ map_of (rev xs)"
  by (induction xs arbitrary: m) (auto simp: map_add_def fun_eq_iff split: option.splits)

lemma std_map_ok [simp]: "std_ok (std_map xs)"
  by (simp add: std_map_def foldl_std_put_ok)

lemma map_of_std_map: "map_of (std_map xs) = map_of (rev xs)"
  by (simp add: std_map_def foldl_std_put_map_of)

lemma foldl_std_put_append:
  assumes "std_ok xs" and "\<forall>a\<in>fst ` set m. \<forall>b\<in>fst ` set xs. a < b"
  shows "foldl (\<lambda>m (k, v). std_put k v m) m xs = m @ xs"
  using assms by (induction xs arbitrary: m) (auto simp: std_put_last)

lemma std_map_id [simp]: "std_ok xs \<Longrightarrow> std_map xs = xs"
  by (simp add: std_map_def foldl_std_put_append)

end
