(* ===== verification/Keygen_Codec.thy ===== *)
theory Keygen_Codec
  imports Byte_Codec Std_Map "HOL-Library.Monad_Syntax"
begin

text \<open>
  The wire formats of the key-generation rounds: the helpers at the top of
  \<open>mpc-sdk/providers/fireblocks/FireblocksKeyGenerator.cpp\<close> and the loops of its phases 4 and 5.
  A structure of the library is a record of byte strings; its fixed-size members (arrays and
  plain objects, copied byte by byte) have the sizes that the library gives them, which are the
  parameter \<open>object_sizes\<close>. A reader that would pass the end of its input is \<open>None\<close>.
\<close>

section \<open>The structures of the library\<close>

record object_sizes =
  sz_commitment :: nat
  sz_ack :: nat
  sz_seed :: nat
  sz_share :: nat
  sz_scalar :: nat

record setup_decommitment =
  sd_ack :: bytes
  sd_seed :: bytes
  sd_share :: bytes
  sd_paillier_public_key :: bytes
  sd_ring_pedersen_public_key :: bytes

record setup_zk_proofs =
  zp_schnorr_s :: bytes
  zp_paillier_blum_zkp :: bytes
  zp_ring_pedersen_param_zkp :: bytes

text \<open>
  The values that the types of the library allow, with the two byte vectors below 4 GB: their
  lengths are written as 32-bit numbers.
\<close>

definition decommitment_ok :: "object_sizes \<Rightarrow> setup_decommitment \<Rightarrow> bool" where
  "decommitment_ok z d \<longleftrightarrow>
     length (sd_ack d) = sz_ack z \<and> length (sd_seed d) = sz_seed z \<and> length (sd_share d) = sz_share z \<and>
     length (sd_paillier_public_key d) < 2 ^ 32 \<and> length (sd_ring_pedersen_public_key d) < 2 ^ 32"

definition zk_proofs_ok :: "object_sizes \<Rightarrow> setup_zk_proofs \<Rightarrow> bool" where
  "zk_proofs_ok z p \<longleftrightarrow>
     length (zp_schnorr_s p) = sz_scalar z \<and>
     length (zp_paillier_blum_zkp p) < 2 ^ 32 \<and> length (zp_ring_pedersen_param_zkp p) < 2 ^ 32"

section \<open>Decommitments\<close>

definition SerializeDecommitment :: "setup_decommitment \<Rightarrow> bytes" where
  "SerializeDecommitment d =
     sd_ack d @ sd_seed d @ sd_share d @
     enc_u32 (word_of_nat (length (sd_paillier_public_key d))) @ sd_paillier_public_key d @
     enc_u32 (word_of_nat (length (sd_ring_pedersen_public_key d))) @ sd_ring_pedersen_public_key d"

definition read_decommitment :: "object_sizes \<Rightarrow> bytes \<Rightarrow> (setup_decommitment \<times> bytes) option" where
  "read_decommitment z data =
     do {
       (ack, data) \<leftarrow> take_bytes (sz_ack z) data;
       (seed, data) \<leftarrow> take_bytes (sz_seed z) data;
       (share, data) \<leftarrow> take_bytes (sz_share z) data;
       (paillier_size, data) \<leftarrow> dec_u32 data;
       (paillier, data) \<leftarrow> take_bytes (unat paillier_size) data;
       (ring_size, data) \<leftarrow> dec_u32 data;
       (ring, data) \<leftarrow> take_bytes (unat ring_size) data;
       Some (\<lparr>sd_ack = ack, sd_seed = seed, sd_share = share, sd_paillier_public_key = paillier,
               sd_ring_pedersen_public_key = ring\<rparr>, data)
     }"

definition DeserializeDecommitment :: "object_sizes \<Rightarrow> bytes \<Rightarrow> setup_decommitment option" where
  "DeserializeDecommitment z data = map_option fst (read_decommitment z data)"

section \<open>Zero-knowledge proofs\<close>

definition SerializeZKProofs :: "setup_zk_proofs \<Rightarrow> bytes" where
  "SerializeZKProofs p =
     zp_schnorr_s p @
     enc_u32 (word_of_nat (length (zp_paillier_blum_zkp p))) @ zp_paillier_blum_zkp p @
     enc_u32 (word_of_nat (length (zp_ring_pedersen_param_zkp p))) @ zp_ring_pedersen_param_zkp p"

definition read_zk_proofs :: "object_sizes \<Rightarrow> bytes \<Rightarrow> (setup_zk_proofs \<times> bytes) option" where
  "read_zk_proofs z data =
     do {
       (schnorr_s, data) \<leftarrow> take_bytes (sz_scalar z) data;
       (paillier_size, data) \<leftarrow> dec_u32 data;
       (paillier, data) \<leftarrow> take_bytes (unat paillier_size) data;
       (ring_size, data) \<leftarrow> dec_u32 data;
       (ring, data) \<leftarrow> take_bytes (unat ring_size) data;
       Some (\<lparr>zp_schnorr_s = schnorr_s, zp_paillier_blum_zkp = paillier, zp_ring_pedersen_param_zkp = ring\<rparr>, data)
     }"

definition DeserializeZKProofs :: "object_sizes \<Rightarrow> bytes \<Rightarrow> setup_zk_proofs option" where
  "DeserializeZKProofs z data = map_option fst (read_zk_proofs z data)"

section \<open>The map of Paillier proofs\<close>

text \<open>
  Phase 4 writes the number of entries and the entries, each its player, its size and its bytes.
  Phase 5 reads them back one by one into a map: of two entries for one player the later stays.
\<close>

fun write_entries :: "bytes \<Rightarrow> (u64 \<times> bytes) list \<Rightarrow> bytes" where
  "write_entries data [] = data"
| "write_entries data ((target_pid, proof_data) # m) =
     write_entries
       (data @ enc_u64 target_pid @ enc_u32 (word_of_nat (length proof_data)) @ proof_data) m"

definition SerializePaillierProofs :: "(u64 \<times> bytes) list \<Rightarrow> bytes" where
  "SerializePaillierProofs m = write_entries (enc_u32 (word_of_nat (length m))) m"

fun read_entries :: "nat \<Rightarrow> bytes \<Rightarrow> (u64 \<times> bytes) list \<Rightarrow> ((u64 \<times> bytes) list \<times> bytes) option" where
  "read_entries 0 data m = Some (m, data)"
| "read_entries (Suc n) data m =
     do {
       (target_pid, data) \<leftarrow> dec_u64 data;
       (proof_size, data) \<leftarrow> dec_u32 data;
       (proof_data, data) \<leftarrow> take_bytes (unat proof_size) data;
       read_entries n data (std_put target_pid proof_data m)
     }"

definition DeserializePaillierProofs :: "bytes \<Rightarrow> (u64 \<times> bytes) list option" where
  "DeserializePaillierProofs data =
     do {
       (map_size, data) \<leftarrow> dec_u32 data;
       (m, _) \<leftarrow> read_entries (unat map_size) data [];
       Some m
     }"

definition paillier_proofs_ok :: "(u64 \<times> bytes) list \<Rightarrow> bool" where
  "paillier_proofs_ok m \<longleftrightarrow> std_ok m \<and> length m < 2 ^ 32 \<and> (\<forall>(k, b)\<in>set m. length b < 2 ^ 32)"

section \<open>The formats are codecs\<close>

lemma unat_length: "length (b :: bytes) < 2 ^ 32 \<Longrightarrow> unat (word_of_nat (length b) :: u32) = length b"
  by (simp add: unsigned_of_nat take_bit_nat_eq_self)

lemma unat_u32_less: "unat (n :: u32) < 4294967296"
  using unsigned_less [of n] by simp

lemmas bind_Some_iff = Option.bind_eq_Some_conv

interpretation decommitment: exact_codec SerializeDecommitment "read_decommitment z" "decommitment_ok z" for z
proof
  show "read_decommitment z (SerializeDecommitment d @ r) = Some (d, r)" if "decommitment_ok z d" for d r
    using that by (simp add: decommitment_ok_def read_decommitment_def SerializeDecommitment_def word_codec_simps unat_length)
next
  fix bs d r
  assume "read_decommitment z bs = Some (d, r)"
  then show "decommitment_ok z d \<and> bs = SerializeDecommitment d @ r"
    by (auto simp: read_decommitment_def bind_Some_iff decommitment_ok_def SerializeDecommitment_def unat_length unat_u32_less
        dest!: raw.dec_wf u32.dec_wf)
qed

interpretation zk_proofs: exact_codec SerializeZKProofs "read_zk_proofs z" "zk_proofs_ok z" for z
proof
  show "read_zk_proofs z (SerializeZKProofs p @ r) = Some (p, r)" if "zk_proofs_ok z p" for p r
    using that by (simp add: zk_proofs_ok_def read_zk_proofs_def SerializeZKProofs_def word_codec_simps unat_length)
next
  fix bs p r
  assume "read_zk_proofs z bs = Some (p, r)"
  then show "zk_proofs_ok z p \<and> bs = SerializeZKProofs p @ r"
    by (auto simp: read_zk_proofs_def bind_Some_iff zk_proofs_ok_def SerializeZKProofs_def unat_length unat_u32_less
        dest!: raw.dec_wf u32.dec_wf)
qed

text \<open>An entry is a number and a block; the loops are the sequences of entries.\<close>

interpretation entry: exact_codec "enc_pair enc_u64 enc_blob" "dec_pair dec_u64 dec_blob" "\<lambda>(k, b). length b < 2 ^ 32"
  using exact_codec_pair [OF u64.exact_codec_axioms blob.exact_codec_axioms] by (simp add: case_prod_unfold)

lemma write_entries_seq: "write_entries data m = data @ concat (map (enc_pair enc_u64 enc_blob) m)"
  by (induction data m rule: write_entries.induct) (simp_all add: enc_pair_def enc_blob_def)

lemma read_entries_seq:
  "read_entries n data m =
     map_option (\<lambda>(es, r). (foldl (\<lambda>m (k, v). std_put k v m) m es, r)) (dec_seq (dec_pair dec_u64 dec_blob) n data)"
proof (induction n arbitrary: data m)
  case (Suc n)
  have "read_entries (Suc n) data m =
      (case dec_pair dec_u64 dec_blob data of
         None \<Rightarrow> None
       | Some ((k, b), r) \<Rightarrow> read_entries n r (std_put k b m))"
    by (simp add: dec_pair_def dec_blob_def Option.bind_def split: option.split prod.split del: take_bytes_None_iff)
  then show ?case by (auto simp: Suc split: option.split)
qed simp

lemma DeserializePaillierProofs_seq:
  "DeserializePaillierProofs data =
     (case dec_u32 data of
        None \<Rightarrow> None
      | Some (n, r) \<Rightarrow> map_option (std_map \<circ> fst) (dec_seq (dec_pair dec_u64 dec_blob) (unat n) r))"
  by (auto simp: DeserializePaillierProofs_def read_entries_seq std_map_def option.map_comp o_def
      split: option.splits bind_splits)

lemma paillier_proofs_roundtrip:
  assumes "paillier_proofs_ok m"
  shows "DeserializePaillierProofs (SerializePaillierProofs m @ r) = Some m"
proof -
  from assms have n: "unat (word_of_nat (length m) :: u32) = length m" and ok: "std_ok m"
    and e: "\<And>x. x \<in> set m \<Longrightarrow> case x of (k, b) \<Rightarrow> length b < 2 ^ 32"
    by (auto simp: paillier_proofs_ok_def unsigned_of_nat take_bit_nat_eq_self)
  show ?thesis
    unfolding DeserializePaillierProofs_seq SerializePaillierProofs_def write_entries_seq
    by (simp add: word_codec_simps n entry.dec_seq_enc [OF e] ok)
qed

lemma paillier_proofs_truncated:
  assumes ok: "paillier_proofs_ok m" and cut: "SerializePaillierProofs m = bs @ cs" and cs: "cs \<noteq> []"
  shows "DeserializePaillierProofs bs = None"
proof (rule ccontr)
  assume "DeserializePaillierProofs bs \<noteq> None"
  then obtain n q es r where d: "dec_u32 bs = Some (n, q)"
    and s: "dec_seq (dec_pair dec_u64 dec_blob) (unat n) q = Some (es, r)"
    by (auto simp: DeserializePaillierProofs_seq split: option.splits)
  let ?enc = "\<lambda>xs. concat (map (enc_pair enc_u64 enc_blob) xs)"
  from s have es: "\<forall>x\<in>set es. case x of (k, b) \<Rightarrow> length b < 2 ^ 32" "length es = unat n" "q = ?enc es @ r"
    using entry.dec_seq_wf by blast+
  have "enc_u32 (word_of_nat (length m)) @ (?enc m @ []) = enc_u32 n @ (?enc es @ (r @ cs))"
    using cut u32.dec_wf [OF d] es(3) by (simp add: SerializePaillierProofs_def write_entries_seq)
  then have n: "word_of_nat (length m) = n" and eq: "?enc m @ [] = ?enc es @ (r @ cs)"
    by (metis u32.enc_prefix_free)+
  have "length m = length es"
    using es(2) n ok by (auto simp: paillier_proofs_ok_def unsigned_of_nat take_bit_nat_eq_self)
  moreover have "dec_seq (dec_pair dec_u64 dec_blob) (length m) (?enc m @ []) = Some (m, [])"
    by (rule entry.dec_seq_enc) (use ok in \<open>auto simp: paillier_proofs_ok_def\<close>)
  moreover have "dec_seq (dec_pair dec_u64 dec_blob) (length es) (?enc es @ (r @ cs)) = Some (es, r @ cs)"
    by (rule entry.dec_seq_enc) (use es in auto)
  ultimately show False using eq cs by simp
qed

text \<open>
  C27. The messages of the key generation carry what was put into them. A decommitment, a set of
  zero-knowledge proofs and a map of Paillier proofs whose parts have the sizes of their types
  and whose byte vectors stay below 4 GB are read back unchanged, whatever bytes follow them in
  the message; cut short anywhere, a message makes its reader pass the end of the data.
\<close>

theorem keygen_formats_roundtrip:
  assumes "decommitment_ok z d" and "zk_proofs_ok z p" and "paillier_proofs_ok m"
  shows "DeserializeDecommitment z (SerializeDecommitment d @ r) = Some d
    \<and> DeserializeZKProofs z (SerializeZKProofs p @ r) = Some p
    \<and> DeserializePaillierProofs (SerializePaillierProofs m @ r) = Some m
    \<and> (cs \<noteq> [] \<longrightarrow>
        (SerializeDecommitment d = bs @ cs \<longrightarrow> DeserializeDecommitment z bs = None) \<and>
        (SerializeZKProofs p = bs @ cs \<longrightarrow> DeserializeZKProofs z bs = None) \<and>
        (SerializePaillierProofs m = bs @ cs \<longrightarrow> DeserializePaillierProofs bs = None))"
  using assms paillier_proofs_roundtrip paillier_proofs_truncated
    decommitment.dec_truncated [OF assms(1)] zk_proofs.dec_truncated [OF assms(2)]
  by (auto simp: DeserializeDecommitment_def DeserializeZKProofs_def decommitment.dec_enc zk_proofs.dec_enc)

text \<open>The sizes of the comments in the source, with a commitment of 32 bytes.\<close>

definition comment_sizes :: object_sizes where
  "comment_sizes = \<lparr>sz_commitment = 32, sz_ack = 32, sz_seed = 32, sz_share = 65, sz_scalar = 32\<rparr>"

definition demo_decommitment :: "u8 \<Rightarrow> setup_decommitment" where
  "demo_decommitment b = \<lparr>sd_ack = replicate 32 b, sd_seed = replicate 32 1, sd_share = replicate 65 2,
     sd_paillier_public_key = [b, 7], sd_ring_pedersen_public_key = []\<rparr>"

definition demo_zk_proofs :: "u8 \<Rightarrow> setup_zk_proofs" where
  "demo_zk_proofs b = \<lparr>zp_schnorr_s = replicate 32 b, zp_paillier_blum_zkp = [b], zp_ring_pedersen_param_zkp = [3, b]\<rparr>"

lemma demo_formats_ok:
  "decommitment_ok comment_sizes (demo_decommitment b)" "zk_proofs_ok comment_sizes (demo_zk_proofs b)"
  by (simp_all add: decommitment_ok_def zk_proofs_ok_def comment_sizes_def demo_decommitment_def demo_zk_proofs_def)

theorem keygen_formats_roundtrip_witness:
  "DeserializeDecommitment comment_sizes (SerializeDecommitment (demo_decommitment 9) @ [5, 5]) = Some (demo_decommitment 9)
   \<and> DeserializePaillierProofs (SerializePaillierProofs [(1, [4]), (3, [])] @ [5, 5]) = Some [(1, [4]), (3, [])]
   \<and> DeserializeZKProofs comment_sizes (butlast (SerializeZKProofs (demo_zk_proofs 9))) = None"
proof -
  have m: "paillier_proofs_ok [(1, [4]), (3, [])]" by (simp add: paillier_proofs_ok_def)
  have ne: "SerializeZKProofs (demo_zk_proofs 9) \<noteq> []" by (simp add: SerializeZKProofs_def demo_zk_proofs_def)
  show ?thesis
    using keygen_formats_roundtrip [OF demo_formats_ok(1) [of 9] demo_formats_ok(2) [of 9] m,
        of "[5, 5]" "[last (SerializeZKProofs (demo_zk_proofs 9))]" "butlast (SerializeZKProofs (demo_zk_proofs 9))"]
      append_butlast_last_id [OF ne] by simp
qed

end
