(* ===== verification/Fireblocks_Persistency.thy ===== *)
theory Fireblocks_Persistency
  imports Prelude
begin

text \<open>
  \<open>FireblocksPersistency\<close> (\<open>mpc-sdk/providers/fireblocks/FireblocksPersistency.cpp\<close>): the store in
  which the key-generation service of the Fireblocks library keeps its keys, set-up data and
  commitments, and the first interface that the provider implements for that library. The types
  of the library are parameters: \<open>'m\<close> is \<open>cmp_key_metadata\<close>, \<open>'a\<close> is \<open>auxiliary_keys\<close>, \<open>'s\<close> is
  \<open>setup_data\<close> and \<open>'c\<close> is \<open>commitment\<close>.
\<close>

section \<open>Errors and algorithms of the library\<close>

text \<open>
  The codes of \<open>cosigner_exception\<close> that the provider throws, and any other; the algorithms that
  it names, and any other.
\<close>

datatype cosigner_error = BAD_KEY | INTERNAL_ERROR | Other_error int

datatype sign_algorithm = FB_ECDSA_SECP256K1 | FB_ECDSA_SECP256R1 | FB_ECDSA_STARK | FB_EDDSA_ED25519 | FB_other int

section \<open>The store\<close>

record ('m, 'a) KeyInfo =
  ki_algorithm :: sign_algorithm
  ki_private_key :: bytes
  ki_metadata :: "'m option"
  ki_aux_keys :: 'a

text \<open>
  \<open>keys_[key_id]\<close> of a key that is not there makes a value-initialised entry: the algorithm with
  the number 0, a private key of zero bytes, no metadata, and \<open>auxiliary_keys{}\<close>. These values
  belong to the library.
\<close>

record 'a key_defaults =
  kd_algorithm :: sign_algorithm
  kd_scalar_size :: nat
  kd_aux :: 'a

definition KeyInfo_new :: "'a key_defaults \<Rightarrow> ('m, 'a) KeyInfo" where
  "KeyInfo_new z = \<lparr>ki_algorithm = kd_algorithm z, ki_private_key = replicate (kd_scalar_size z) 0,
     ki_metadata = None, ki_aux_keys = kd_aux z\<rparr>"

record ('m, 'a, 's, 'c) persistency =
  fp_keys :: "string \<rightharpoonup> ('m, 'a) KeyInfo"
  fp_setup_data :: "string \<rightharpoonup> 's"
  fp_commitments :: "string \<rightharpoonup> (u64 \<times> 'c) list"
  fp_keyid_to_tenantid :: "string \<rightharpoonup> string"

definition FireblocksPersistency :: "('m, 'a, 's, 'c) persistency" where
  "FireblocksPersistency = \<lparr>fp_keys = Map.empty, fp_setup_data = Map.empty, fp_commitments = Map.empty,
     fp_keyid_to_tenantid = Map.empty\<rparr>"

text \<open>The entry that \<open>keys_[key_id]\<close> refers to.\<close>

definition key_entry :: "'a key_defaults \<Rightarrow> string \<Rightarrow> ('m, 'a, 's, 'c) persistency \<Rightarrow> ('m, 'a) KeyInfo" where
  "key_entry z key_id p = (case fp_keys p key_id of None \<Rightarrow> KeyInfo_new z | Some info \<Rightarrow> info)"

section \<open>Reading\<close>

definition key_exist :: "string \<Rightarrow> ('m, 'a, 's, 'c) persistency \<Rightarrow> bool" where
  "key_exist key_id p \<longleftrightarrow> fp_keys p key_id \<noteq> None"

definition load_key ::
  "string \<Rightarrow> ('m, 'a, 's, 'c) persistency \<Rightarrow> cosigner_error + sign_algorithm \<times> bytes" where
  "load_key key_id p =
     (case fp_keys p key_id of
        None \<Rightarrow> Inl BAD_KEY
      | Some info \<Rightarrow> Inr (ki_algorithm info, ki_private_key info))"

definition get_tenantid_from_keyid :: "string \<Rightarrow> ('m, 'a, 's, 'c) persistency \<Rightarrow> string" where
  "get_tenantid_from_keyid key_id p =
     (case fp_keyid_to_tenantid p key_id of Some t \<Rightarrow> t | None \<Rightarrow> ''default-tenant'')"

definition load_key_metadata :: "string \<Rightarrow> ('m, 'a, 's, 'c) persistency \<Rightarrow> cosigner_error + 'm" where
  "load_key_metadata key_id p =
     (case fp_keys p key_id of
        None \<Rightarrow> Inl BAD_KEY
      | Some info \<Rightarrow> (case ki_metadata info of None \<Rightarrow> Inl BAD_KEY | Some m \<Rightarrow> Inr m))"

definition load_auxiliary_keys :: "string \<Rightarrow> ('m, 'a, 's, 'c) persistency \<Rightarrow> cosigner_error + 'a" where
  "load_auxiliary_keys key_id p =
     (case fp_keys p key_id of None \<Rightarrow> Inl BAD_KEY | Some info \<Rightarrow> Inr (ki_aux_keys info))"

definition load_setup_data :: "string \<Rightarrow> ('m, 'a, 's, 'c) persistency \<Rightarrow> cosigner_error + 's" where
  "load_setup_data key_id p =
     (case fp_setup_data p key_id of None \<Rightarrow> Inl BAD_KEY | Some d \<Rightarrow> Inr d)"

definition load_setup_commitments ::
  "string \<Rightarrow> ('m, 'a, 's, 'c) persistency \<Rightarrow> cosigner_error + (u64 \<times> 'c) list" where
  "load_setup_commitments key_id p =
     (case fp_commitments p key_id of None \<Rightarrow> Inl BAD_KEY | Some c \<Rightarrow> Inr c)"

definition get_key :: "string \<Rightarrow> ('m, 'a, 's, 'c) persistency \<Rightarrow> ('m, 'a) KeyInfo option" where
  "get_key key_id p = fp_keys p key_id"

text \<open>Two lower-case hexadecimal digits per byte.\<close>

definition hex_digit :: "nat \<Rightarrow> char" where
  "hex_digit n = (''0123456789abcdef'' ! n)"

definition HexStr :: "bytes \<Rightarrow> string" where
  "HexStr bs = concat (map (\<lambda>b. [hex_digit (unat b div 16), hex_digit (unat b mod 16)]) bs)"

definition dump_key :: "string \<Rightarrow> ('m, 'a, 's, 'c) persistency \<Rightarrow> cosigner_error + string" where
  "dump_key key_id p =
     (case fp_keys p key_id of None \<Rightarrow> Inl BAD_KEY | Some info \<Rightarrow> Inr (HexStr (ki_private_key info)))"

section \<open>Writing\<close>

definition store_key ::
  "'a key_defaults \<Rightarrow> string \<Rightarrow> sign_algorithm \<Rightarrow> bytes \<Rightarrow> ('m, 'a, 's, 'c) persistency
     \<Rightarrow> ('m, 'a, 's, 'c) persistency" where
  "store_key z key_id algorithm private_key p =
     (let info = key_entry z key_id p
      in p\<lparr>fp_keys := (fp_keys p)(key_id \<mapsto> info\<lparr>ki_private_key := private_key, ki_algorithm := algorithm\<rparr>)\<rparr>)"

text \<open>The entry is made before the check; it has no metadata then, so the check passes.\<close>

definition store_key_metadata ::
  "'a key_defaults \<Rightarrow> string \<Rightarrow> 'm \<Rightarrow> bool \<Rightarrow> ('m, 'a, 's, 'c) persistency
     \<Rightarrow> (cosigner_error + unit) \<times> ('m, 'a, 's, 'c) persistency" where
  "store_key_metadata z key_id metadata allow_override p =
     (let info = key_entry z key_id p;
          p = p\<lparr>fp_keys := (fp_keys p)(key_id \<mapsto> info)\<rparr>
      in if \<not> allow_override \<and> ki_metadata info \<noteq> None then (Inl INTERNAL_ERROR, p)
         else (Inr (), p\<lparr>fp_keys := (fp_keys p)(key_id \<mapsto> info\<lparr>ki_metadata := Some metadata\<rparr>)\<rparr>))"

definition store_auxiliary_keys ::
  "'a key_defaults \<Rightarrow> string \<Rightarrow> 'a \<Rightarrow> ('m, 'a, 's, 'c) persistency \<Rightarrow> ('m, 'a, 's, 'c) persistency" where
  "store_auxiliary_keys z key_id aux p =
     (let info = key_entry z key_id p
      in p\<lparr>fp_keys := (fp_keys p)(key_id \<mapsto> info\<lparr>ki_aux_keys := aux\<rparr>)\<rparr>)"

definition store_keyid_tenant_id ::
  "string \<Rightarrow> string \<Rightarrow> ('m, 'a, 's, 'c) persistency \<Rightarrow> ('m, 'a, 's, 'c) persistency" where
  "store_keyid_tenant_id key_id tenant_id p =
     p\<lparr>fp_keyid_to_tenantid := (fp_keyid_to_tenantid p)(key_id \<mapsto> tenant_id)\<rparr>"

definition store_setup_data ::
  "string \<Rightarrow> 's \<Rightarrow> ('m, 'a, 's, 'c) persistency \<Rightarrow> ('m, 'a, 's, 'c) persistency" where
  "store_setup_data key_id d p = p\<lparr>fp_setup_data := (fp_setup_data p)(key_id \<mapsto> d)\<rparr>"

definition store_setup_commitments ::
  "string \<Rightarrow> (u64 \<times> 'c) list \<Rightarrow> ('m, 'a, 's, 'c) persistency
     \<Rightarrow> (cosigner_error + unit) \<times> ('m, 'a, 's, 'c) persistency" where
  "store_setup_commitments key_id commitments p =
     (if fp_commitments p key_id \<noteq> None then (Inl INTERNAL_ERROR, p)
      else (Inr (), p\<lparr>fp_commitments := (fp_commitments p)(key_id \<mapsto> commitments)\<rparr>))"

definition delete_temporary_key_data ::
  "string \<Rightarrow> bool \<Rightarrow> ('m, 'a, 's, 'c) persistency \<Rightarrow> ('m, 'a, 's, 'c) persistency" where
  "delete_temporary_key_data key_id delete_key p =
     (let p = p\<lparr>fp_setup_data := (fp_setup_data p)(key_id := None),
               fp_commitments := (fp_commitments p)(key_id := None)\<rparr>
      in if delete_key then p\<lparr>fp_keys := (fp_keys p)(key_id := None)\<rparr> else p)"

section \<open>Histories\<close>

text \<open>
  The calls by which the library changes the store. A run keeps the calls that were not refused,
  in order.
\<close>

datatype ('m, 'a, 's, 'c) store_call =
    Store_key string sign_algorithm bytes
  | Store_key_metadata string 'm bool
  | Store_auxiliary_keys string 'a
  | Store_keyid_tenant_id string string
  | Store_setup_data string 's
  | Store_setup_commitments string "(u64 \<times> 'c) list"
  | Delete_temporary_key_data string bool

fun perform_call ::
  "'a key_defaults \<Rightarrow> ('m, 'a, 's, 'c) store_call \<Rightarrow> ('m, 'a, 's, 'c) persistency
     \<Rightarrow> (cosigner_error + unit) \<times> ('m, 'a, 's, 'c) persistency" where
  "perform_call z (Store_key k alg key) p = (Inr (), store_key z k alg key p)"
| "perform_call z (Store_key_metadata k m override) p = store_key_metadata z k m override p"
| "perform_call z (Store_auxiliary_keys k aux) p = (Inr (), store_auxiliary_keys z k aux p)"
| "perform_call z (Store_keyid_tenant_id k t) p = (Inr (), store_keyid_tenant_id k t p)"
| "perform_call z (Store_setup_data k d) p = (Inr (), store_setup_data k d p)"
| "perform_call z (Store_setup_commitments k c) p = store_setup_commitments k c p"
| "perform_call z (Delete_temporary_key_data k delete_key) p = (Inr (), delete_temporary_key_data k delete_key p)"

fun perform_calls ::
  "'a key_defaults \<Rightarrow> ('m, 'a, 's, 'c) store_call list
     \<Rightarrow> ('m, 'a, 's, 'c) persistency \<times> ('m, 'a, 's, 'c) store_call list
     \<Rightarrow> ('m, 'a, 's, 'c) persistency \<times> ('m, 'a, 's, 'c) store_call list" where
  "perform_calls z [] w = w"
| "perform_calls z (op # ops) (p, accepted) =
     (case perform_call z op p of
        (Inl _, p') \<Rightarrow> perform_calls z ops (p', accepted)
      | (Inr _, p') \<Rightarrow> perform_calls z ops (p', accepted @ [op]))"

text \<open>
  A call is in force in a history when every later call keeps it. \<open>ends_setup\<close> and the like are
  the calls after which an earlier one is no longer what is read.
\<close>

definition in_force :: "('op \<Rightarrow> bool) \<Rightarrow> 'op \<Rightarrow> 'op list \<Rightarrow> bool" where
  "in_force ends op h \<longleftrightarrow> (\<exists>before after. h = before @ op # after \<and> (\<forall>x\<in>set after. \<not> ends x))"

fun ends_setup :: "string \<Rightarrow> ('m, 'a, 's, 'c) store_call \<Rightarrow> bool" where
  "ends_setup k (Store_setup_data k' d) \<longleftrightarrow> k' = k"
| "ends_setup k (Delete_temporary_key_data k' delete_key) \<longleftrightarrow> k' = k"
| "ends_setup k op \<longleftrightarrow> False"

fun ends_commitments :: "string \<Rightarrow> ('m, 'a, 's, 'c) store_call \<Rightarrow> bool" where
  "ends_commitments k (Delete_temporary_key_data k' delete_key) \<longleftrightarrow> k' = k"
| "ends_commitments k op \<longleftrightarrow> False"

fun ends_tenant :: "string \<Rightarrow> ('m, 'a, 's, 'c) store_call \<Rightarrow> bool" where
  "ends_tenant k (Store_keyid_tenant_id k' t) \<longleftrightarrow> k' = k"
| "ends_tenant k op \<longleftrightarrow> False"

fun ends_key :: "string \<Rightarrow> ('m, 'a, 's, 'c) store_call \<Rightarrow> bool" where
  "ends_key k (Store_key k' alg key) \<longleftrightarrow> k' = k"
| "ends_key k (Delete_temporary_key_data k' delete_key) \<longleftrightarrow> delete_key \<and> k' = k"
| "ends_key k op \<longleftrightarrow> False"

fun ends_metadata :: "string \<Rightarrow> ('m, 'a, 's, 'c) store_call \<Rightarrow> bool" where
  "ends_metadata k (Store_key_metadata k' m override) \<longleftrightarrow> k' = k"
| "ends_metadata k (Delete_temporary_key_data k' delete_key) \<longleftrightarrow> delete_key \<and> k' = k"
| "ends_metadata k op \<longleftrightarrow> False"

fun ends_aux :: "string \<Rightarrow> ('m, 'a, 's, 'c) store_call \<Rightarrow> bool" where
  "ends_aux k (Store_auxiliary_keys k' aux) \<longleftrightarrow> k' = k"
| "ends_aux k (Delete_temporary_key_data k' delete_key) \<longleftrightarrow> delete_key \<and> k' = k"
| "ends_aux k op \<longleftrightarrow> False"

text \<open>The calls that make an entry for a key, and those that remove it.\<close>

fun makes_entry :: "string \<Rightarrow> ('m, 'a, 's, 'c) store_call \<Rightarrow> bool" where
  "makes_entry k (Store_key k' alg key) \<longleftrightarrow> k' = k"
| "makes_entry k (Store_key_metadata k' m override) \<longleftrightarrow> k' = k"
| "makes_entry k (Store_auxiliary_keys k' aux) \<longleftrightarrow> k' = k"
| "makes_entry k op \<longleftrightarrow> False"

definition removes_entry :: "string \<Rightarrow> ('m, 'a, 's, 'c) store_call \<Rightarrow> bool" where
  "removes_entry k op \<longleftrightarrow> op = Delete_temporary_key_data k True"

lemma in_force_Nil [simp]: "\<not> in_force ends op []"
  by (simp add: in_force_def)

lemma in_force_snoc [simp]: "in_force ends op (h @ [x]) \<longleftrightarrow> x = op \<or> \<not> ends x \<and> in_force ends op h"
  (is "?l \<longleftrightarrow> ?r")
proof
  assume ?l
  then obtain before after where h: "h @ [x] = before @ op # after" and k: "\<forall>x\<in>set after. \<not> ends x"
    by (auto simp: in_force_def)
  show ?r
  proof (cases after rule: rev_cases)
    case (snoc after' y)
    with h have "h = before @ op # after'" "y = x" by simp_all
    with k snoc show ?thesis by (auto simp: in_force_def)
  qed (use h in simp)
next
  assume r: ?r
  show ?l
  proof (cases "x = op")
    case True
    have "h @ [x] = h @ op # []" using True by simp
    then show ?thesis unfolding in_force_def by (metis empty_iff list.set(1))
  next
    case False
    with r obtain before after where "h = before @ op # after" "\<forall>x\<in>set after. \<not> ends x" "\<not> ends x"
      by (auto simp: in_force_def)
    then have "h @ [x] = before @ op # (after @ [x])" "\<forall>y\<in>set (after @ [x]). \<not> ends y" by auto
    then show ?thesis unfolding in_force_def by blast
  qed
qed

text \<open>
  The store against the history of the calls that were accepted.
\<close>

definition reads_history ::
  "'a key_defaults \<Rightarrow> ('m, 'a, 's, 'c) persistency \<Rightarrow> ('m, 'a, 's, 'c) store_call list \<Rightarrow> string \<Rightarrow> bool" where
  "reads_history z p h k \<longleftrightarrow>
     (\<forall>d. load_setup_data k p = Inr d \<longleftrightarrow> in_force (ends_setup k) (Store_setup_data k d) h)
   \<and> (\<forall>c. load_setup_commitments k p = Inr c \<longleftrightarrow> in_force (ends_commitments k) (Store_setup_commitments k c) h)
   \<and> (\<forall>t. fp_keyid_to_tenantid p k = Some t \<longleftrightarrow> in_force (ends_tenant k) (Store_keyid_tenant_id k t) h)
   \<and> (\<forall>m. load_key_metadata k p = Inr m \<longleftrightarrow> (\<exists>ov. in_force (ends_metadata k) (Store_key_metadata k m ov) h))
   \<and> (key_exist k p \<longleftrightarrow> (\<exists>op. makes_entry k op \<and> in_force (removes_entry k) op h))
   \<and> (\<forall>alg key. load_key k p = Inr (alg, key) \<longleftrightarrow>
        in_force (ends_key k) (Store_key k alg key) h
      \<or> key_exist k p \<and> alg = kd_algorithm z \<and> key = replicate (kd_scalar_size z) 0 \<and>
        (\<forall>alg' key'. \<not> in_force (ends_key k) (Store_key k alg' key') h))
   \<and> (\<forall>aux. load_auxiliary_keys k p = Inr aux \<longleftrightarrow>
        in_force (ends_aux k) (Store_auxiliary_keys k aux) h
      \<or> key_exist k p \<and> aux = kd_aux z \<and> (\<forall>aux'. \<not> in_force (ends_aux k) (Store_auxiliary_keys k aux') h))"

lemmas load_defs = load_setup_data_def load_setup_commitments_def load_key_metadata_def key_exist_def
  load_key_def load_auxiliary_keys_def

lemmas store_defs = store_key_def store_key_metadata_def store_auxiliary_keys_def store_keyid_tenant_id_def
  store_setup_data_def store_setup_commitments_def delete_temporary_key_data_def key_entry_def KeyInfo_new_def

lemma refused_unchanged: "perform_call z op p = (Inl e, p') \<Longrightarrow> p' = p"
  by (cases op) (auto simp: store_defs Let_def map_upd_triv split: if_splits option.splits)

lemma reads_history_start: "reads_history z FireblocksPersistency [] k"
  by (simp add: reads_history_def FireblocksPersistency_def load_defs)

text \<open>One lemma per kind of data: the call that is accepted last decides.\<close>

lemma setup_step:
  assumes "perform_call z op p = (Inr u, p')"
  shows "load_setup_data k p' = Inr d \<longleftrightarrow>
    op = Store_setup_data k d \<or> \<not> ends_setup k op \<and> load_setup_data k p = Inr d"
  using assms by (cases op) (auto simp: load_setup_data_def store_defs Let_def split: option.splits if_splits)

lemma commitments_step:
  assumes "perform_call z op p = (Inr u, p')"
  shows "load_setup_commitments k p' = Inr c \<longleftrightarrow>
    op = Store_setup_commitments k c \<or> \<not> ends_commitments k op \<and> load_setup_commitments k p = Inr c"
  using assms by (cases op) (auto simp: load_setup_commitments_def store_defs Let_def split: option.splits if_splits)

lemma tenant_step:
  assumes "perform_call z op p = (Inr u, p')"
  shows "fp_keyid_to_tenantid p' k = Some t \<longleftrightarrow>
    op = Store_keyid_tenant_id k t \<or> \<not> ends_tenant k op \<and> fp_keyid_to_tenantid p k = Some t"
  using assms by (cases op) (auto simp: store_defs Let_def split: if_splits)

lemma metadata_step:
  assumes "perform_call z op p = (Inr u, p')"
  shows "load_key_metadata k p' = Inr m \<longleftrightarrow>
    (\<exists>ov. op = Store_key_metadata k m ov) \<or> \<not> ends_metadata k op \<and> load_key_metadata k p = Inr m"
  using assms by (cases op) (auto simp: load_key_metadata_def store_defs Let_def split: option.splits if_splits)

lemma exist_step:
  assumes "perform_call z op p = (Inr u, p')"
  shows "key_exist k p' \<longleftrightarrow> makes_entry k op \<or> \<not> removes_entry k op \<and> key_exist k p"
  using assms by (cases op) (auto simp: key_exist_def removes_entry_def store_defs Let_def split: if_splits)

lemma key_step:
  assumes "perform_call z op p = (Inr u, p')"
  shows "load_key k p' = Inr (alg, key) \<longleftrightarrow>
    op = Store_key k alg key \<or> \<not> ends_key k op \<and> load_key k p = Inr (alg, key)
    \<or> makes_entry k op \<and> \<not> ends_key k op \<and> \<not> key_exist k p \<and>
      alg = kd_algorithm z \<and> key = replicate (kd_scalar_size z) 0"
  using assms by (cases op) (auto simp: load_key_def key_exist_def store_defs Let_def split: option.splits if_splits)

lemma aux_step:
  assumes "perform_call z op p = (Inr u, p')"
  shows "load_auxiliary_keys k p' = Inr aux \<longleftrightarrow>
    op = Store_auxiliary_keys k aux \<or> \<not> ends_aux k op \<and> load_auxiliary_keys k p = Inr aux
    \<or> makes_entry k op \<and> \<not> ends_aux k op \<and> \<not> key_exist k p \<and> aux = kd_aux z"
  using assms by (cases op) (auto simp: load_auxiliary_keys_def key_exist_def store_defs Let_def split: option.splits if_splits)

lemma makes_entry_iff:
  "makes_entry k op \<longleftrightarrow> (\<exists>alg key. op = Store_key k alg key) \<or> (\<exists>m ov. op = Store_key_metadata k m ov) \<or>
     (\<exists>aux. op = Store_auxiliary_keys k aux)"
  by (cases op) auto

lemma load_key_iff: "load_key k p = Inr x \<Longrightarrow> key_exist k p"
  by (auto simp: load_key_def key_exist_def split: option.splits)

lemma load_aux_iff: "load_auxiliary_keys k p = Inr x \<Longrightarrow> key_exist k p"
  by (auto simp: load_auxiliary_keys_def key_exist_def split: option.splits)

lemma ends_key_iff: "ends_key k op \<longleftrightarrow> (\<exists>alg key. op = Store_key k alg key) \<or> removes_entry k op"
  by (cases op) (auto simp: removes_entry_def)

lemma ends_aux_iff: "ends_aux k op \<longleftrightarrow> (\<exists>aux. op = Store_auxiliary_keys k aux) \<or> removes_entry k op"
  by (cases op) (auto simp: removes_entry_def)

lemma removes_makes: "removes_entry k op \<Longrightarrow> \<not> makes_entry k op"
  by (auto simp: removes_entry_def)

lemma reads_history_step:
  assumes h: "reads_history z p h k" and s: "perform_call z op p = (Inr u, p')"
  shows "reads_history z p' (h @ [op]) k"
  unfolding reads_history_def
proof (intro conjI allI)
  fix d c t m alg key aux
  show "load_setup_data k p' = Inr d \<longleftrightarrow> in_force (ends_setup k) (Store_setup_data k d) (h @ [op])"
    using h setup_step [OF s] by (simp add: reads_history_def)
  show "load_setup_commitments k p' = Inr c \<longleftrightarrow> in_force (ends_commitments k) (Store_setup_commitments k c) (h @ [op])"
    using h commitments_step [OF s] by (simp add: reads_history_def)
  show "fp_keyid_to_tenantid p' k = Some t \<longleftrightarrow> in_force (ends_tenant k) (Store_keyid_tenant_id k t) (h @ [op])"
    using h tenant_step [OF s] by (simp add: reads_history_def)
  show "load_key_metadata k p' = Inr m \<longleftrightarrow> (\<exists>ov. in_force (ends_metadata k) (Store_key_metadata k m ov) (h @ [op]))"
    using h metadata_step [OF s, of k m] by (auto simp: reads_history_def)
  show e: "key_exist k p' \<longleftrightarrow> (\<exists>x. makes_entry k x \<and> in_force (removes_entry k) x (h @ [op]))"
    using h exist_step [OF s, of k] by (auto simp: reads_history_def)
  show "load_key k p' = Inr (alg, key) \<longleftrightarrow>
        in_force (ends_key k) (Store_key k alg key) (h @ [op])
      \<or> key_exist k p' \<and> alg = kd_algorithm z \<and> key = replicate (kd_scalar_size z) 0 \<and>
        (\<forall>alg' key'. \<not> in_force (ends_key k) (Store_key k alg' key') (h @ [op]))"
    using h key_step [OF s, of k alg key] exist_step [OF s, of k] load_key_iff [of k p] removes_makes [of k op]
    by (cases "\<exists>alg key. op = Store_key k alg key"; cases "removes_entry k op"; cases "key_exist k p")
      (auto simp: reads_history_def ends_key_iff)
  show "load_auxiliary_keys k p' = Inr aux \<longleftrightarrow>
        in_force (ends_aux k) (Store_auxiliary_keys k aux) (h @ [op])
      \<or> key_exist k p' \<and> aux = kd_aux z \<and> (\<forall>aux'. \<not> in_force (ends_aux k) (Store_auxiliary_keys k aux') (h @ [op]))"
    using h aux_step [OF s, of k aux] exist_step [OF s, of k] load_aux_iff [of k p] removes_makes [of k op]
    by (cases "\<exists>aux. op = Store_auxiliary_keys k aux"; cases "removes_entry k op"; cases "key_exist k p")
      (auto simp: reads_history_def ends_aux_iff)
qed

section \<open>The store as a whole\<close>

text \<open>The two calls that the store refuses: what they would overwrite is still in force.\<close>

fun blocked :: "('m, 'a, 's, 'c) store_call \<Rightarrow> ('m, 'a, 's, 'c) store_call list \<Rightarrow> bool" where
  "blocked (Store_setup_commitments k c) h \<longleftrightarrow> (\<exists>c'. in_force (ends_commitments k) (Store_setup_commitments k c') h)"
| "blocked (Store_key_metadata k m override) h \<longleftrightarrow>
     \<not> override \<and> (\<exists>m' ov. in_force (ends_metadata k) (Store_key_metadata k m' ov) h)"
| "blocked op h \<longleftrightarrow> False"

lemma reads_history_run:
  assumes "\<forall>k. reads_history z (fst w) (snd w) k" and "perform_calls z ops w = (p, h)"
  shows "\<forall>k. reads_history z p h k"
  using assms
proof (induction z ops w rule: perform_calls.induct)
  case (2 z op ops q accepted)
  obtain r q' where r: "perform_call z op q = (r, q')" by fastforce
  show ?case
  proof (cases r)
    case (Inl e)
    with r refused_unchanged have "q' = q" by blast
    with 2 r Inl show ?thesis by simp
  next
    case (Inr u)
    have "\<forall>k. reads_history z q' (accepted @ [op]) k"
      using reads_history_step [OF _ r [unfolded Inr]] 2(3) by simp
    with 2 r Inr show ?thesis by simp
  qed
qed simp

lemma refused_iff:
  assumes "\<forall>k. reads_history z p h k"
  shows "case perform_call z op p of
           (Inl e, p') \<Rightarrow> e = INTERNAL_ERROR \<and> p' = p \<and> blocked op h
         | (Inr _, _) \<Rightarrow> \<not> blocked op h"
proof -
  have m: "load_key_metadata k p = Inr m \<longleftrightarrow> (\<exists>ov. in_force (ends_metadata k) (Store_key_metadata k m ov) h)"
    and l: "load_setup_commitments k p = Inr c \<longleftrightarrow> in_force (ends_commitments k) (Store_setup_commitments k c) h" for k c m
    using assms by (simp_all add: reads_history_def)
  have c: "fp_commitments p k = Some c \<longleftrightarrow> in_force (ends_commitments k) (Store_setup_commitments k c) h" for k c
    unfolding l [symmetric] by (simp add: load_setup_commitments_def split: option.splits)
  show ?thesis
  proof (cases op)
    case (Store_setup_commitments k x)
    then show ?thesis by (auto simp: store_setup_commitments_def c [symmetric])
  next
    case (Store_key_metadata k x ov)
    have "(\<exists>m' ov. in_force (ends_metadata k) (Store_key_metadata k m' ov) h) \<longleftrightarrow>
        ki_metadata (key_entry z k p) \<noteq> None"
      unfolding m [symmetric] by (auto simp: load_key_metadata_def key_entry_def KeyInfo_new_def split: option.splits)
    moreover have "p\<lparr>fp_keys := (fp_keys p)(k \<mapsto> key_entry z k p)\<rparr> = p" if "ki_metadata (key_entry z k p) \<noteq> None"
      using that by (auto simp: key_entry_def KeyInfo_new_def map_upd_triv split: option.splits)
    ultimately show ?thesis
      using Store_key_metadata by (auto simp: store_key_metadata_def Let_def)
  qed (auto)
qed

text \<open>
  C15. The store is a log read backwards. After any sequence of calls on an empty store, each
  kind of data is what the last accepted call that concerns it says: set-up data, commitments,
  tenant and metadata are found exactly when a store of them is still in force, a key exists
  exactly when some store made its entry and no deletion of the key came after, and a key or
  auxiliary key that was never stored in an existing entry reads as zero or as the default,
  not as an error. A call is refused, without effect and with \<open>INTERNAL_ERROR\<close>, exactly when it
  would replace commitments, or metadata without permission, that are in force.
\<close>

theorem persistency_reads_history:
  "case perform_calls z ops (FireblocksPersistency, []) of
     (p, h) \<Rightarrow> (\<forall>k. reads_history z p h k) \<and>
       (\<forall>op. case perform_call z op p of
          (Inl e, p') \<Rightarrow> e = INTERNAL_ERROR \<and> p' = p \<and> blocked op h
        | (Inr _, _) \<Rightarrow> \<not> blocked op h)"
proof -
  obtain p h where r: "perform_calls z ops (FireblocksPersistency, []) = (p, h)" by fastforce
  have "\<forall>k. reads_history z p h k"
    by (rule reads_history_run [OF _ r]) (simp add: reads_history_start)
  with refused_iff [OF this] r show ?thesis by simp
qed

text \<open>
  An entry made by its metadata alone: the key exists and loads, with a private key of zeros.
\<close>

lemma metadata_makes_zero_key:
  "load_key k (snd (store_key_metadata z k m ov FireblocksPersistency)) =
     Inr (kd_algorithm z, replicate (kd_scalar_size z) 0)"
  by (simp add: store_defs load_key_def FireblocksPersistency_def Let_def)

text \<open>The dump of a key can be read back.\<close>

lemma hex_digit_inject: "m < 16 \<Longrightarrow> n < 16 \<Longrightarrow> hex_digit m = hex_digit n \<longleftrightarrow> m = n"
  unfolding hex_digit_def by (subst nth_eq_iff_index_eq) simp_all

lemma length_HexStr: "length (HexStr bs) = 2 * length bs"
  by (induction bs) (simp_all add: HexStr_def)

lemma HexStr_inject: "HexStr a = HexStr b \<longleftrightarrow> a = b"
proof (induction a arbitrary: b)
  case Nil
  then show ?case using length_HexStr [of b] by (cases b) (auto simp: HexStr_def)
next
  case (Cons x xs)
  show ?case
  proof (cases b)
    case Nil
    then show ?thesis by (simp add: HexStr_def)
  next
    case (Cons y ys)
    have lt: "unat (v :: u8) < 256" for v using unsigned_less [of v] by simp
    have d: "unat (v :: u8) div 16 < 16" for v using lt [of v] by simp
    have "hex_digit (unat x div 16) = hex_digit (unat y div 16) \<and> hex_digit (unat x mod 16) = hex_digit (unat y mod 16)
        \<longleftrightarrow> x = y"
      by (auto simp: hex_digit_inject d word_unat_eq_iff) (metis div_mult_mod_eq)
    then show ?thesis using Cons Cons.IH by (auto simp: HexStr_def)
  qed
qed

end
