(* ===== verification/Fireblocks_Platform.thy ===== *)
theory Fireblocks_Platform
  imports Fireblocks_Persistency
begin

text \<open>
  \<open>FireblocksPlatformService\<close> (\<open>mpc-sdk/providers/fireblocks/FireblocksPlatformService.cpp\<close>): the
  services of the operating system that the Fireblocks library asks for. The random generator of
  OpenSSL and the clock are parameters. A failed assertion is \<open>None\<close>.
\<close>

record platform_service =
  pf_player_id :: u64
  pf_tenant_id :: string

definition FireblocksPlatformService :: "u64 \<Rightarrow> string \<Rightarrow> platform_service" where
  "FireblocksPlatformService player_id tenant_id = \<lparr>pf_player_id = player_id, pf_tenant_id = tenant_id\<rparr>"

text \<open>\<open>rand n\<close> is what \<open>RAND_bytes\<close> writes for a length \<open>n\<close>, \<open>None\<close> when it does not return 1.\<close>

definition gen_random :: "(int \<Rightarrow> bytes option) \<Rightarrow> u64 \<Rightarrow> exn + bytes" where
  "gen_random rand len =
     (case rand (sint (ucast len :: u32)) of
        None \<Rightarrow> Inl (Runtime_error ''Failed to generate random bytes'')
      | Some bs \<Rightarrow> Inr bs)"

definition now_msec :: "int \<Rightarrow> u64" where
  "now_msec clock_ns = word_of_int (clock_ns div 1000000)"

definition get_current_tenantid :: "platform_service \<Rightarrow> string" where
  "get_current_tenantid pf = pf_tenant_id pf"

definition get_id_from_keyid :: "string \<Rightarrow> platform_service \<Rightarrow> u64" where
  "get_id_from_keyid key_id pf = pf_player_id pf"

text \<open>Without assertions the share is left as it was.\<close>

definition derive_initial_share :: "bool \<Rightarrow> bytes \<Rightarrow> bytes option" where
  "derive_initial_share assertions key = (if assertions then None else Some key)"

definition encrypt_for_player :: "u64 \<Rightarrow> bytes \<Rightarrow> bytes" where
  "encrypt_for_player player data = data"

definition decrypt_message :: "bytes \<Rightarrow> bytes" where
  "decrypt_message encrypted_data = encrypted_data"

definition backup_key :: "string \<Rightarrow> sign_algorithm \<Rightarrow> bytes \<Rightarrow> 'm \<Rightarrow> 'a \<Rightarrow> bool" where
  "backup_key key_id algorithm private_key metadata aux = True"

definition on_start_signing :: "string \<Rightarrow> string \<Rightarrow> 'd \<Rightarrow> string \<Rightarrow> string set \<Rightarrow> 't \<Rightarrow> unit" where
  "on_start_signing key_id txid data metadata_json players signature_type = ()"

definition fill_signing_info_from_metadata :: "string \<Rightarrow> u32 list \<Rightarrow> u32 list" where
  "fill_signing_info_from_metadata metadata flags = flags"

definition is_client_id :: "u64 \<Rightarrow> bool" where
  "is_client_id player_id = False"

text \<open>
  The library's contract for the two operations, that a message encrypted for a player is
  decrypted to itself, holds because nothing is encrypted: the message is the plain text.
\<close>

lemma encryption_contract: "decrypt_message (encrypt_for_player player data) = data"
  by (simp add: encrypt_for_player_def decrypt_message_def)

lemma messages_in_the_clear: "encrypt_for_player player data = encrypt_for_player player' data' \<longleftrightarrow> data = data'"
  by (simp add: encrypt_for_player_def)

end
