(* ===== verification/Keygen.thy ===== *)
theory Keygen
  imports Keygen_Codec Fireblocks_Platform
begin

text \<open>
  \<open>FireblocksKeyGenerator\<close> (\<open>mpc-sdk/providers/fireblocks/FireblocksKeyGenerator.cpp\<close>): the five
  phases of the distributed key generation, and a run of all players as
  \<open>mpc-sdk/tests/fireblocks_keygen_test.cpp\<close> does it. The cryptography is the service
  \<open>cmp_setup_service\<close> of the Fireblocks library, a submodule that is not part of the repository:
  it is the parameter \<open>setup_service\<close>, whose operations work on the platform, on the store of
  \<open>Fireblocks_Persistency\<close> and on a state of its own (\<open>'w\<close>, its randomness).
\<close>

section \<open>Algorithms and results\<close>

datatype CryptoAlgorithm = ECDSA_SECP256K1 | ECDSA_SECP256R1 | ECDSA_STARK | EDDSA_ED25519 | ALGORITHM_UNKNOWN

fun CryptoAlgorithmToString :: "CryptoAlgorithm \<Rightarrow> string" where
  "CryptoAlgorithmToString ECDSA_SECP256K1 = ''ECDSA_SECP256K1''"
| "CryptoAlgorithmToString ECDSA_SECP256R1 = ''ECDSA_SECP256R1''"
| "CryptoAlgorithmToString ECDSA_STARK = ''ECDSA_STARK''"
| "CryptoAlgorithmToString EDDSA_ED25519 = ''EDDSA_ED25519''"
| "CryptoAlgorithmToString ALGORITHM_UNKNOWN = ''UNKNOWN''"

definition StringToCryptoAlgorithm :: "string \<Rightarrow> CryptoAlgorithm" where
  "StringToCryptoAlgorithm str =
     (if str = ''ECDSA_SECP256K1'' then ECDSA_SECP256K1
      else if str = ''ECDSA_SECP256R1'' then ECDSA_SECP256R1
      else if str = ''ECDSA_STARK'' then ECDSA_STARK
      else if str = ''EDDSA_ED25519'' then EDDSA_ED25519
      else ALGORITHM_UNKNOWN)"

lemma CryptoAlgorithm_roundtrip: "StringToCryptoAlgorithm (CryptoAlgorithmToString a) = a"
  by (cases a) (simp_all add: StringToCryptoAlgorithm_def)

text \<open>The messages of the first four phases are structures with the one field \<open>data\<close>.\<close>

type_synonym KeyGenCommitment = bytes
type_synonym KeyGenDecommitment = bytes
type_synonym KeyGenZKProof = bytes
type_synonym KeyGenPaillierProof = bytes

text \<open>The result of phase 5. A member that is never assigned is \<open>None\<close>.\<close>

record KeyGenResult =
  kr_public_key :: string
  kr_algorithm :: CryptoAlgorithm
  kr_player_id :: "u64 option"

section \<open>Exceptions\<close>

datatype MPCErrorCode = INVALID_ALGORITHM | KEY_GENERATION_FAILED | INVALID_INPUT

datatype keygen_exn =
    MPCException MPCErrorCode string
  | Cosigner_exception cosigner_error
  | Std_exception exn

definition int_to_string :: "int \<Rightarrow> string" where
  "int_to_string i = (if i < 0 then CHR ''-'' # to_string (nat (- i)) else to_string (nat i))"

text \<open>
  The handler of phase \<open>n\<close>: an exception of the library is replaced, any other passes.
  \<open>error_code\<close> gives the number of an error, which the library defines.
\<close>

definition catch_cosigner :: "(cosigner_error \<Rightarrow> int) \<Rightarrow> char \<Rightarrow> keygen_exn + 'r \<Rightarrow> keygen_exn + 'r" where
  "catch_cosigner error_code n r =
     (case r of
        Inl (Cosigner_exception e) \<Rightarrow>
          Inl (MPCException KEY_GENERATION_FAILED (''Phase'' @ n # '' failed: '' @ int_to_string (error_code e)))
      | _ \<Rightarrow> r)"

section \<open>The service and the generator\<close>

type_synonym ('w, 'm, 'a, 's) service_state = "'w \<times> ('m, 'a, 's, bytes) persistency"

type_synonym ('w, 'm, 'a, 's, 'r) service_call =
  "platform_service \<Rightarrow> ('w, 'm, 'a, 's) service_state \<Rightarrow> (keygen_exn + 'r) \<times> ('w, 'm, 'a, 's) service_state"

record ('w, 'm, 'a, 's) setup_service =
  sv_error_code :: "cosigner_error \<Rightarrow> int"
  sv_generate_setup_commitments ::
    "string \<Rightarrow> string \<Rightarrow> sign_algorithm \<Rightarrow> u64 list \<Rightarrow> u32 \<Rightarrow> ('w, 'm, 'a, 's, bytes) service_call"
  sv_store_setup_commitments ::
    "string \<Rightarrow> (u64 \<times> bytes) list \<Rightarrow> ('w, 'm, 'a, 's, setup_decommitment) service_call"
  sv_generate_setup_proofs ::
    "string \<Rightarrow> (u64 \<times> setup_decommitment) list \<Rightarrow> ('w, 'm, 'a, 's, setup_zk_proofs) service_call"
  sv_verify_setup_proofs ::
    "string \<Rightarrow> (u64 \<times> setup_zk_proofs) list \<Rightarrow> ('w, 'm, 'a, 's, (u64 \<times> bytes) list) service_call"
  sv_create_secret ::
    "string \<Rightarrow> (u64 \<times> (u64 \<times> bytes) list) list \<Rightarrow> ('w, 'm, 'a, 's, string \<times> sign_algorithm) service_call"

record ('w, 'm, 'a, 's) key_generator =
  kg_player_id :: u64
  kg_platform :: platform_service
  kg_state :: "('w, 'm, 'a, 's) service_state"

definition FireblocksKeyGenerator :: "u64 \<Rightarrow> string \<Rightarrow> 'w \<Rightarrow> ('w, 'm, 'a, 's) key_generator" where
  "FireblocksKeyGenerator player_id tenant_id w =
     \<lparr>kg_player_id = player_id, kg_platform = FireblocksPlatformService player_id tenant_id,
      kg_state = (w, FireblocksPersistency)\<rparr>"

text \<open>A call of the service: the generator keeps the state it leaves.\<close>

definition call_service ::
  "('w, 'm, 'a, 's, 'r) service_call \<Rightarrow> ('w, 'm, 'a, 's) key_generator
     \<Rightarrow> (keygen_exn + 'r) \<times> ('w, 'm, 'a, 's) key_generator" where
  "call_service f g = (case f (kg_platform g) (kg_state g) of (r, st) \<Rightarrow> (r, g\<lparr>kg_state := st\<rparr>))"

definition ToFireblocksAlgorithm :: "CryptoAlgorithm \<Rightarrow> keygen_exn + sign_algorithm" where
  "ToFireblocksAlgorithm algo =
     (case algo of
        ECDSA_SECP256K1 \<Rightarrow> Inr FB_ECDSA_SECP256K1
      | ECDSA_SECP256R1 \<Rightarrow> Inr FB_ECDSA_SECP256R1
      | ECDSA_STARK \<Rightarrow> Inr FB_ECDSA_STARK
      | EDDSA_ED25519 \<Rightarrow> Inr FB_EDDSA_ED25519
      | ALGORITHM_UNKNOWN \<Rightarrow> Inl (MPCException INVALID_ALGORITHM ''Unsupported algorithm''))"

fun FromFireblocksAlgorithm :: "sign_algorithm \<Rightarrow> CryptoAlgorithm" where
  "FromFireblocksAlgorithm FB_ECDSA_SECP256K1 = ECDSA_SECP256K1"
| "FromFireblocksAlgorithm FB_ECDSA_SECP256R1 = ECDSA_SECP256R1"
| "FromFireblocksAlgorithm FB_ECDSA_STARK = ECDSA_STARK"
| "FromFireblocksAlgorithm FB_EDDSA_ED25519 = EDDSA_ED25519"
| "FromFireblocksAlgorithm (FB_other n) = ECDSA_SECP256K1"

section \<open>The phases\<close>

definition Phase1_GenerateCommitment ::
  "('w, 'm, 'a, 's) setup_service \<Rightarrow> string \<Rightarrow> string \<Rightarrow> CryptoAlgorithm \<Rightarrow> u64 list \<Rightarrow> u32
     \<Rightarrow> ('w, 'm, 'a, 's) key_generator
     \<Rightarrow> ((keygen_exn + KeyGenCommitment) \<times> ('w, 'm, 'a, 's) key_generator) behaviour" where
  "Phase1_GenerateCommitment sv key_id tenant_id algorithm player_ids threshold g =
     Returns (case ToFireblocksAlgorithm algorithm of
       Inl e \<Rightarrow> (catch_cosigner (sv_error_code sv) CHR ''1'' (Inl e), g)
     | Inr fb_algo \<Rightarrow>
         (case call_service (sv_generate_setup_commitments sv key_id tenant_id fb_algo player_ids threshold) g of
            (r, g') \<Rightarrow> (catch_cosigner (sv_error_code sv) CHR ''1'' r, g')))"

text \<open>The loop over the commitments: a wrong size is an exception before the service is called.\<close>

definition Phase2_GenerateDecommitment ::
  "('w, 'm, 'a, 's) setup_service \<Rightarrow> object_sizes \<Rightarrow> string \<Rightarrow> (u64 \<times> KeyGenCommitment) list
     \<Rightarrow> ('w, 'm, 'a, 's) key_generator
     \<Rightarrow> ((keygen_exn + KeyGenDecommitment) \<times> ('w, 'm, 'a, 's) key_generator) behaviour" where
  "Phase2_GenerateDecommitment sv z key_id all_commitments g =
     Returns (case std_transform (\<lambda>data. if length data \<noteq> sz_commitment z then None else Some data) all_commitments [] of
       None \<Rightarrow> (Inl (MPCException INVALID_INPUT ''Invalid commitment data size''), g)
     | Some fb_commits \<Rightarrow>
         (case call_service (sv_store_setup_commitments sv key_id fb_commits) g of
            (r, g') \<Rightarrow> (catch_cosigner (sv_error_code sv) CHR ''2'' (map_sum id SerializeDecommitment r), g')))"

definition Phase3_GenerateZKProof ::
  "('w, 'm, 'a, 's) setup_service \<Rightarrow> object_sizes \<Rightarrow> string \<Rightarrow> (u64 \<times> KeyGenDecommitment) list
     \<Rightarrow> ('w, 'm, 'a, 's) key_generator
     \<Rightarrow> ((keygen_exn + KeyGenZKProof) \<times> ('w, 'm, 'a, 's) key_generator) behaviour" where
  "Phase3_GenerateZKProof sv z key_id all_decommitments g =
     (case std_transform (DeserializeDecommitment z) all_decommitments [] of
        None \<Rightarrow> Undefined
      | Some fb_decommits \<Rightarrow>
          (case call_service (sv_generate_setup_proofs sv key_id fb_decommits) g of
             (r, g') \<Rightarrow> Returns (catch_cosigner (sv_error_code sv) CHR ''3'' (map_sum id SerializeZKProofs r), g')))"

definition Phase4_VerifyAndGeneratePaillierProof ::
  "('w, 'm, 'a, 's) setup_service \<Rightarrow> object_sizes \<Rightarrow> string \<Rightarrow> (u64 \<times> KeyGenZKProof) list
     \<Rightarrow> ('w, 'm, 'a, 's) key_generator
     \<Rightarrow> ((keygen_exn + KeyGenPaillierProof) \<times> ('w, 'm, 'a, 's) key_generator) behaviour" where
  "Phase4_VerifyAndGeneratePaillierProof sv z key_id all_zk_proofs g =
     (case std_transform (DeserializeZKProofs z) all_zk_proofs [] of
        None \<Rightarrow> Undefined
      | Some fb_proofs \<Rightarrow>
          (case call_service (sv_verify_setup_proofs sv key_id fb_proofs) g of
             (r, g') \<Rightarrow> Returns (catch_cosigner (sv_error_code sv) CHR ''4'' (map_sum id SerializePaillierProofs r), g')))"

text \<open>
  The loop of phase 5: \<open>fb_proofs[from_pid][target_pid] = proof_data\<close> makes the entry of a sender
  with its first proof, so that a sender without proofs has none.
\<close>

fun read_all_proofs ::
  "(u64 \<times> KeyGenPaillierProof) list \<Rightarrow> (u64 \<times> (u64 \<times> bytes) list) list \<Rightarrow> (u64 \<times> (u64 \<times> bytes) list) list option" where
  "read_all_proofs [] fb_proofs = Some fb_proofs"
| "read_all_proofs ((from_pid, data) # m) fb_proofs =
     (case DeserializePaillierProofs data of
        None \<Rightarrow> None
      | Some [] \<Rightarrow> read_all_proofs m fb_proofs
      | Some (p # ps) \<Rightarrow> read_all_proofs m (std_put from_pid (p # ps) fb_proofs))"

definition Phase5_CreatePublicKey ::
  "('w, 'm, 'a, 's) setup_service \<Rightarrow> string \<Rightarrow> (u64 \<times> KeyGenPaillierProof) list
     \<Rightarrow> ('w, 'm, 'a, 's) key_generator
     \<Rightarrow> ((keygen_exn + KeyGenResult) \<times> ('w, 'm, 'a, 's) key_generator) behaviour" where
  "Phase5_CreatePublicKey sv key_id all_paillier_proofs g =
     (case read_all_proofs all_paillier_proofs [] of
        None \<Rightarrow> Undefined
      | Some fb_proofs \<Rightarrow>
          (case call_service (sv_create_secret sv key_id fb_proofs) g of
             (r, g') \<Rightarrow> Returns (catch_cosigner (sv_error_code sv) CHR ''5''
               (map_sum id (\<lambda>(public_key, algorithm).
                  \<lparr>kr_public_key = public_key, kr_algorithm = FromFireblocksAlgorithm algorithm,
                   kr_player_id = None\<rparr>) r), g')))"

definition GetGeneratedKey :: "string \<Rightarrow> ('w, 'm, 'a, 's) key_generator \<Rightarrow> ('m, 'a) KeyInfo option" where
  "GetGeneratedKey key_id g = get_key key_id (snd (kg_state g))"

section \<open>A run of all players\<close>

text \<open>
  One phase of every player in turn, collecting the results by player; the first exception ends
  it. The generators are listed by player.
\<close>

fun each_player ::
  "('g \<Rightarrow> ((keygen_exn + 'r) \<times> 'g) behaviour) \<Rightarrow> (u64 \<times> 'g) list
     \<Rightarrow> ((keygen_exn + (u64 \<times> 'r) list) \<times> (u64 \<times> 'g) list) behaviour" where
  "each_player f [] = Returns (Inr [], [])"
| "each_player f ((pid, g) # gs) =
     (case f g of
        Undefined \<Rightarrow> Undefined
      | Returns (Inl e, g') \<Rightarrow> Returns (Inl e, (pid, g') # gs)
      | Returns (Inr r, g') \<Rightarrow>
          (case each_player f gs of
             Undefined \<Rightarrow> Undefined
           | Returns (Inl e, gs') \<Rightarrow> Returns (Inl e, (pid, g') # gs')
           | Returns (Inr rs, gs') \<Rightarrow> Returns (Inr ((pid, r) # rs), (pid, g') # gs')))"

definition then_phase ::
  "((keygen_exn + 'r) \<times> 'gs) behaviour \<Rightarrow> ('r \<Rightarrow> 'gs \<Rightarrow> ((keygen_exn + 'q) \<times> 'gs) behaviour)
     \<Rightarrow> ((keygen_exn + 'q) \<times> 'gs) behaviour" where
  "then_phase b k =
     (case b of
        Undefined \<Rightarrow> Undefined
      | Returns (Inl e, gs) \<Rightarrow> Returns (Inl e, gs)
      | Returns (Inr r, gs) \<Rightarrow> k r gs)"

definition generate_key ::
  "('w, 'm, 'a, 's) setup_service \<Rightarrow> object_sizes \<Rightarrow> string \<Rightarrow> string \<Rightarrow> CryptoAlgorithm \<Rightarrow> u64 list \<Rightarrow> u32
     \<Rightarrow> (u64 \<times> ('w, 'm, 'a, 's) key_generator) list
     \<Rightarrow> ((keygen_exn + (u64 \<times> KeyGenResult) list) \<times> (u64 \<times> ('w, 'm, 'a, 's) key_generator) list) behaviour" where
  "generate_key sv z key_id tenant_id algorithm player_ids threshold gs =
     then_phase (each_player (Phase1_GenerateCommitment sv key_id tenant_id algorithm player_ids threshold) gs)
       (\<lambda>commitments gs. then_phase (each_player (Phase2_GenerateDecommitment sv z key_id commitments) gs)
       (\<lambda>decommitments gs. then_phase (each_player (Phase3_GenerateZKProof sv z key_id decommitments) gs)
       (\<lambda>zk_proofs gs. then_phase (each_player (Phase4_VerifyAndGeneratePaillierProof sv z key_id zk_proofs) gs)
       (\<lambda>paillier_proofs gs. each_player (Phase5_CreatePublicKey sv key_id paillier_proofs) gs))))"

section \<open>The protocol without messages\<close>

text \<open>
  The same run when the services hand their structures to each other as they are: what the
  messages are to achieve.
\<close>

definition service_phase ::
  "(cosigner_error \<Rightarrow> int) \<Rightarrow> char \<Rightarrow> ('w, 'm, 'a, 's, 'r) service_call \<Rightarrow> ('w, 'm, 'a, 's) key_generator
     \<Rightarrow> ((keygen_exn + 'r) \<times> ('w, 'm, 'a, 's) key_generator) behaviour" where
  "service_phase error_code n f g =
     Returns (case call_service f g of (r, g') \<Rightarrow> (catch_cosigner error_code n r, g'))"

definition recode :: "('r \<Rightarrow> 'q) \<Rightarrow> ((keygen_exn + 'r) \<times> 'g) behaviour \<Rightarrow> ((keygen_exn + 'q) \<times> 'g) behaviour" where
  "recode h b = (case b of Undefined \<Rightarrow> Undefined | Returns (r, g) \<Rightarrow> Returns (map_sum id h r, g))"

definition key_result :: "string \<times> sign_algorithm \<Rightarrow> KeyGenResult" where
  "key_result r = \<lparr>kr_public_key = fst r, kr_algorithm = FromFireblocksAlgorithm (snd r), kr_player_id = None\<rparr>"

definition exchange_structures ::
  "('w, 'm, 'a, 's) setup_service \<Rightarrow> string \<Rightarrow> string \<Rightarrow> CryptoAlgorithm \<Rightarrow> u64 list \<Rightarrow> u32
     \<Rightarrow> (u64 \<times> ('w, 'm, 'a, 's) key_generator) list
     \<Rightarrow> ((keygen_exn + (u64 \<times> KeyGenResult) list) \<times> (u64 \<times> ('w, 'm, 'a, 's) key_generator) list) behaviour" where
  "exchange_structures sv key_id tenant_id algorithm player_ids threshold gs =
     then_phase (each_player (Phase1_GenerateCommitment sv key_id tenant_id algorithm player_ids threshold) gs)
       (\<lambda>commitments gs. then_phase (each_player (service_phase (sv_error_code sv) CHR ''2''
            (sv_store_setup_commitments sv key_id commitments)) gs)
       (\<lambda>decommitments gs. then_phase (each_player (service_phase (sv_error_code sv) CHR ''3''
            (sv_generate_setup_proofs sv key_id decommitments)) gs)
       (\<lambda>zk_proofs gs. then_phase (each_player (service_phase (sv_error_code sv) CHR ''4''
            (sv_verify_setup_proofs sv key_id zk_proofs)) gs)
       (\<lambda>paillier_proofs gs. recode (map (\<lambda>(k, r). (k, key_result r)))
          (each_player (service_phase (sv_error_code sv) CHR ''5''
            (sv_create_secret sv key_id (filter (\<lambda>(k, ps). ps \<noteq> []) paillier_proofs))) gs)))))"

text \<open>What the types of the library promise of the structures a service returns.\<close>

definition returns_ok :: "('r \<Rightarrow> bool) \<Rightarrow> ('w, 'm, 'a, 's, 'r) service_call \<Rightarrow> bool" where
  "returns_ok P f \<longleftrightarrow> (\<forall>pf st r st'. f pf st = (Inr r, st') \<longrightarrow> P r)"

definition service_ok :: "object_sizes \<Rightarrow> ('w, 'm, 'a, 's) setup_service \<Rightarrow> bool" where
  "service_ok z sv \<longleftrightarrow>
     (\<forall>key tenant alg ids t. returns_ok (\<lambda>c. length c = sz_commitment z) (sv_generate_setup_commitments sv key tenant alg ids t)) \<and>
     (\<forall>key cs. returns_ok (decommitment_ok z) (sv_store_setup_commitments sv key cs)) \<and>
     (\<forall>key ds. returns_ok (zk_proofs_ok z) (sv_generate_setup_proofs sv key ds)) \<and>
     (\<forall>key ps. returns_ok paillier_proofs_ok (sv_verify_setup_proofs sv key ps))"

section \<open>Lemmas on the rounds\<close>

lemma catch_cosigner_map [simp]: "catch_cosigner ec n (map_sum id h r) = map_sum id h (catch_cosigner ec n r)"
  by (simp add: catch_cosigner_def split: sum.split keygen_exn.split)

lemma catch_cosigner_Inr [simp]: "catch_cosigner ec n r = Inr x \<longleftrightarrow> r = Inr x"
  by (simp add: catch_cosigner_def split: sum.split keygen_exn.split)

lemma recode_service_phase:
  "recode h (service_phase ec n f g) =
     Returns (case call_service f g of (r, g') \<Rightarrow> (catch_cosigner ec n (map_sum id h r), g'))"
  by (simp add: recode_def service_phase_def split: prod.split)

lemma each_player_ok:
  assumes "\<And>g r g'. f g = Returns (Inr r, g') \<Longrightarrow> P r"
  shows "each_player f gs = Returns (Inr rs, gs') \<Longrightarrow>
    map fst rs = map fst gs \<and> map fst gs' = map fst gs \<and> (\<forall>x\<in>snd ` set rs. P x)"
proof (induction gs arbitrary: rs gs')
  case (Cons pg gs)
  then obtain r g' rs2 gs2 where "f (snd pg) = Returns (Inr r, g')" "each_player f gs = Returns (Inr rs2, gs2)"
    "rs = (fst pg, r) # rs2" "gs' = (fst pg, g') # gs2"
    by (cases pg) (auto split: behaviour.splits sum.splits)
  with Cons.IH assms show ?case by auto
qed simp

lemma recode_simps [simp]:
  "recode h Undefined = Undefined"
  "recode h (Returns (r, g)) = Returns (map_sum id h r, g)"
  by (simp_all add: recode_def)

lemma each_player_recode:
  assumes "f = (\<lambda>g. recode h (d g))"
  shows "each_player f gs = recode (map (\<lambda>(k, r). (k, h r))) (each_player d gs)"
  unfolding assms
proof (induction gs)
  case (Cons pg gs)
  obtain pid g where pg: "pg = (pid, g)" by fastforce
  show ?case
    by (cases "d g"; cases "each_player d gs") (auto simp: pg Cons split: sum.split)
qed simp

lemma then_phase_recode [simp]: "then_phase (recode h b) k = then_phase b (\<lambda>r. k (h r))"
  by (simp add: then_phase_def recode_def split: behaviour.split sum.split)

lemma then_phase_cong:
  "(\<And>r gs. b = Returns (Inr r, gs) \<Longrightarrow> k r gs = k' r gs) \<Longrightarrow> then_phase b k = then_phase b k'"
  by (simp add: then_phase_def split: behaviour.split sum.split)

text \<open>What one round reads is what the round before it returned.\<close>

lemma transform_encoded:
  assumes "std_ok m" and "\<forall>x\<in>snd ` set m. dec (enc x) = Some x"
  shows "std_transform dec (map (\<lambda>(k, x). (k, enc x)) m) [] = Some m"
proof -
  have ok: "std_ok (map (\<lambda>(k, x). (k, enc x)) m)" using assms(1) by (induction m) force+
  let ?M = "map (\<lambda>(k, x). (k, enc x)) m"
  have all: "\<forall>x\<in>snd ` set ?M. dec x \<noteq> None" using assms(2) by force
  have "map (\<lambda>(k, x). (k, the (dec x))) ?M = m"
    using assms(2) by (induction m) auto
  moreover have "std_transform dec ?M [] =
      (if \<forall>x\<in>snd ` set ?M. dec x \<noteq> None then Some ([] @ map (\<lambda>(k, x). (k, the (dec x))) ?M) else None)"
    by (rule std_transform_append [OF ok]) simp
  ultimately show ?thesis by (simp only: if_P [OF all] append_Nil)
qed

lemma read_all_proofs_encoded:
  assumes "std_ok m" and "\<forall>x\<in>snd ` set m. paillier_proofs_ok x"
    and "\<forall>a\<in>fst ` set out. \<forall>b\<in>fst ` set m. a < b"
  shows "read_all_proofs (map (\<lambda>(k, x). (k, SerializePaillierProofs x)) m) out =
    Some (out @ filter (\<lambda>(k, ps). ps \<noteq> []) m)"
  using assms
proof (induction m arbitrary: out)
  case (Cons e m)
  obtain k x where e: "e = (k, x)" by fastforce
  have d: "DeserializePaillierProofs (SerializePaillierProofs x) = Some x"
    using paillier_proofs_roundtrip [of x "[]"] Cons.prems(2) e by simp
  show ?case
  proof (cases x)
    case Nil
    with Cons e d show ?thesis by simp
  next
    case (Cons p ps)
    have "std_put k (p # ps) out = out @ [(k, p # ps)]"
      using Cons.prems(3) e by (intro std_put_last) auto
    moreover have "read_all_proofs (map (\<lambda>(k, x). (k, SerializePaillierProofs x)) m) (out @ [(k, p # ps)]) =
        Some ((out @ [(k, p # ps)]) @ filter (\<lambda>(k, ps). ps \<noteq> []) m)"
      by (rule Cons.IH) (use Cons.prems e in auto)
    ultimately show ?thesis using Cons e d by simp
  qed
qed simp

lemma call_service_ok:
  assumes "returns_ok P f" and "call_service f g = (Inr r, g')"
  shows "P r"
proof -
  obtain st where "f (kg_platform g) (kg_state g) = (Inr r, st)"
    using assms(2) by (cases "f (kg_platform g) (kg_state g)") (simp add: call_service_def)
  with assms(1) show ?thesis unfolding returns_ok_def by blast
qed

lemma service_phase_ok:
  "returns_ok P f \<Longrightarrow> service_phase ec n f g = Returns (Inr r, g') \<Longrightarrow> P r"
  by (auto simp: service_phase_def split: prod.splits dest: call_service_ok)

lemma std_ok_keys: "std_ok m \<Longrightarrow> map fst n = map fst m \<Longrightarrow> std_ok n"
  by (simp add: std_ok_def)

text \<open>One lemma per phase: on the messages of the phase before it is the service's phase, recoded.\<close>

lemma Phase1_ok:
  assumes "service_ok z sv" and "Phase1_GenerateCommitment sv key tenant alg ids t g = Returns (Inr r, g')"
  shows "length r = sz_commitment z"
proof -
  have "returns_ok (\<lambda>c. length c = sz_commitment z) (sv_generate_setup_commitments sv key tenant a ids t)" for a
    using assms(1) by (simp add: service_ok_def)
  with assms(2) show ?thesis
    by (auto simp: Phase1_GenerateCommitment_def catch_cosigner_def split: sum.splits prod.splits keygen_exn.splits
        dest: call_service_ok)
qed

lemma Phase2_encoded:
  assumes "std_ok cs" and "\<forall>x\<in>snd ` set cs. length x = sz_commitment z"
  shows "Phase2_GenerateDecommitment sv z key cs =
    (\<lambda>g. recode SerializeDecommitment (service_phase (sv_error_code sv) CHR ''2'' (sv_store_setup_commitments sv key cs) g))"
proof -
  have "std_transform (\<lambda>d. if length d \<noteq> sz_commitment z then None else Some d) (map (\<lambda>(k, x). (k, x)) cs) [] = Some cs"
    by (rule transform_encoded [OF assms(1), of _ "\<lambda>x. x"]) (use assms(2) in auto)
  then show ?thesis
    by (auto simp: Phase2_GenerateDecommitment_def recode_service_phase split: prod.split)
qed

lemma Phase3_encoded:
  assumes "std_ok ds" and "\<forall>x\<in>snd ` set ds. decommitment_ok z x"
  shows "Phase3_GenerateZKProof sv z key (map (\<lambda>(k, x). (k, SerializeDecommitment x)) ds) =
    (\<lambda>g. recode SerializeZKProofs (service_phase (sv_error_code sv) CHR ''3'' (sv_generate_setup_proofs sv key ds) g))"
proof -
  have "std_transform (DeserializeDecommitment z) (map (\<lambda>(k, x). (k, SerializeDecommitment x)) ds) [] = Some ds"
    by (rule transform_encoded [OF assms(1)])
      (use assms(2) decommitment.dec_enc_all in \<open>auto simp: DeserializeDecommitment_def\<close>)
  then show ?thesis
    by (auto simp: Phase3_GenerateZKProof_def recode_service_phase split: prod.split)
qed

lemma Phase4_encoded:
  assumes "std_ok ps" and "\<forall>x\<in>snd ` set ps. zk_proofs_ok z x"
  shows "Phase4_VerifyAndGeneratePaillierProof sv z key (map (\<lambda>(k, x). (k, SerializeZKProofs x)) ps) =
    (\<lambda>g. recode SerializePaillierProofs (service_phase (sv_error_code sv) CHR ''4'' (sv_verify_setup_proofs sv key ps) g))"
proof -
  have "std_transform (DeserializeZKProofs z) (map (\<lambda>(k, x). (k, SerializeZKProofs x)) ps) [] = Some ps"
    by (rule transform_encoded [OF assms(1)])
      (use assms(2) zk_proofs.dec_enc_all in \<open>auto simp: DeserializeZKProofs_def\<close>)
  then show ?thesis
    by (auto simp: Phase4_VerifyAndGeneratePaillierProof_def recode_service_phase split: prod.split)
qed

lemma Phase5_encoded:
  assumes "std_ok ps" and "\<forall>x\<in>snd ` set ps. paillier_proofs_ok x"
  shows "Phase5_CreatePublicKey sv key (map (\<lambda>(k, x). (k, SerializePaillierProofs x)) ps) =
    (\<lambda>g. recode key_result (service_phase (sv_error_code sv) CHR ''5''
       (sv_create_secret sv key (filter (\<lambda>(k, ps). ps \<noteq> []) ps)) g))"
proof -
  have "(\<lambda>(public_key, algorithm). \<lparr>kr_public_key = public_key, kr_algorithm = FromFireblocksAlgorithm algorithm,
      kr_player_id = None\<rparr>) = key_result"
    by (auto simp: key_result_def)
  then show ?thesis
    using read_all_proofs_encoded [OF assms, of "[]"]
    by (auto simp: Phase5_CreatePublicKey_def recode_service_phase split: prod.split)
qed

lemma then_phase_Inr:
  "then_phase b k = Returns (Inr q, gs') \<longleftrightarrow> (\<exists>r gs. b = Returns (Inr r, gs) \<and> k r gs = Returns (Inr q, gs'))"
  by (auto simp: then_phase_def split: behaviour.splits sum.splits)

lemma map_sum_same: "map_sum id (\<lambda>c. c) r = r"
  by (cases r) simp_all

lemma recode_id: "recode (\<lambda>c. c) b = b"
  by (auto simp: recode_def map_sum_same split: behaviour.split)

lemma map_id_pair: "map (\<lambda>(i, r). (i, r)) xs = xs"
  by (induction xs) auto

text \<open>A round whose phase is a recoded one, followed by rounds that agree on what it returns.\<close>

lemma round_cong:
  assumes "f = (\<lambda>g. recode h (d g))" and "\<And>g r g'. d g = Returns (Inr r, g') \<Longrightarrow> P r" and "std_ok gs"
    and "\<And>rs gs'. std_ok rs \<Longrightarrow> std_ok gs' \<Longrightarrow> \<forall>x\<in>snd ` set rs. P x \<Longrightarrow>
      k (map (\<lambda>(i, r). (i, h r)) rs) gs' = k' rs gs'"
  shows "then_phase (each_player f gs) k = then_phase (each_player d gs) k'"
  unfolding each_player_recode [OF assms(1)] then_phase_recode
proof (rule then_phase_cong)
  fix rs gs'
  assume "each_player d gs = Returns (Inr rs, gs')"
  with each_player_ok [of d P] assms(2) have "map fst rs = map fst gs" "map fst gs' = map fst gs" "\<forall>x\<in>snd ` set rs. P x"
    by blast+
  with assms(3) show "k (map (\<lambda>(i, r). (i, h r)) rs) gs' = k' rs gs'"
    by (intro assms(4)) (auto intro: std_ok_keys)
qed

lemma generate_key_exchange:
  assumes ok: "service_ok z sv" and gs: "std_ok gs"
  shows "generate_key sv z key tenant alg ids t gs = exchange_structures sv key tenant alg ids t gs"
proof -
  have ok2: "returns_ok (decommitment_ok z) (sv_store_setup_commitments sv key cs)"
    and ok3: "returns_ok (zk_proofs_ok z) (sv_generate_setup_proofs sv key ds)"
    and ok4: "returns_ok paillier_proofs_ok (sv_verify_setup_proofs sv key ps)" for cs ds ps
    using ok by (simp_all add: service_ok_def)
  have p1: "Phase1_GenerateCommitment sv key tenant alg ids t =
      (\<lambda>g. recode (\<lambda>c. c) (Phase1_GenerateCommitment sv key tenant alg ids t g))"
    by (simp add: recode_id)
  show ?thesis
    unfolding generate_key_def exchange_structures_def
    apply (rule round_cong [OF p1 _ gs], erule Phase1_ok [OF ok], unfold map_id_pair)
    apply (rule round_cong [OF Phase2_encoded], assumption, assumption, erule service_phase_ok [OF ok2], assumption)
    apply (rule round_cong [OF Phase3_encoded], assumption, assumption, erule service_phase_ok [OF ok3], assumption)
    apply (rule round_cong [OF Phase4_encoded], assumption, assumption, erule service_phase_ok [OF ok4], assumption)
    apply (rule each_player_recode [OF Phase5_encoded], assumption, assumption)
    done
qed

section \<open>Correctness\<close>

definition total_for :: "u64 list \<Rightarrow> ('rs \<Rightarrow> bool) \<Rightarrow> ((keygen_exn + 'rs) \<times> (u64 \<times> 'g) list) behaviour \<Rightarrow> bool" where
  "total_for ks Q b \<longleftrightarrow>
     (case b of
        Undefined \<Rightarrow> False
      | Returns (Inl e, gs) \<Rightarrow> map fst gs = ks
      | Returns (Inr rs, gs) \<Rightarrow> map fst gs = ks \<and> Q rs)"

lemma outcome_cases:
  obtains "b = Undefined" | e gs where "b = Returns (Inl e, gs)" | r gs where "b = Returns (Inr r, gs)"
  by (metis behaviour.exhaust obj_sumE surj_pair)

lemma total_for_each:
  assumes "\<And>g. f g \<noteq> Undefined" and "\<And>g r g'. f g = Returns (Inr r, g') \<Longrightarrow> P r"
  shows "total_for (map fst gs) (\<lambda>rs. map fst rs = map fst gs \<and> (\<forall>x\<in>snd ` set rs. P x)) (each_player f gs)"
proof (induction gs)
  case (Cons pg gs)
  obtain pid g where pg: "pg = (pid, g)" by fastforce
  obtain r g' where f: "f g = Returns (r, g')" using assms(1) [of g] by (cases "f g") auto
  show ?case
    using Cons f assms(2) [of g]
    by (cases r; cases "each_player f gs" rule: outcome_cases) (auto simp: pg total_for_def)
qed (simp add: total_for_def)

lemma total_for_then:
  assumes "total_for ks Q b" and "\<And>rs gs. Q rs \<Longrightarrow> map fst gs = ks \<Longrightarrow> total_for ks R (k rs gs)"
  shows "total_for ks R (then_phase b k)"
  using assms by (cases b rule: outcome_cases) (auto simp: total_for_def then_phase_def)

lemma total_for_recode:
  "total_for ks (\<lambda>rs. Q (h rs)) b \<Longrightarrow> total_for ks Q (recode h b)"
  by (cases b rule: outcome_cases) (auto simp: total_for_def)

lemma service_phase_defined: "service_phase ec n f g \<noteq> Undefined"
  by (simp add: service_phase_def)

lemma total_for_service:
  "map fst gs = ks \<Longrightarrow> total_for ks (\<lambda>rs. map fst rs = ks) (each_player (service_phase ec n f) gs)"
  using total_for_each [of "service_phase ec n f" "\<lambda>_. True"] by (auto simp: service_phase_defined)

lemma exchange_total:
  "total_for (map fst gs) (\<lambda>rs. map fst rs = map fst gs \<and> (\<forall>x\<in>snd ` set rs. kr_player_id x = None))
     (exchange_structures sv key tenant alg ids t gs)"
proof -
  have phase1: "total_for (map fst gs) (\<lambda>rs. map fst rs = map fst gs)
      (each_player (Phase1_GenerateCommitment sv key tenant alg ids t) gs)"
    using total_for_each [of "Phase1_GenerateCommitment sv key tenant alg ids t" "\<lambda>_. True" gs]
    by (simp add: Phase1_GenerateCommitment_def)
  have phase5: "total_for ks (\<lambda>rs. map fst rs = ks \<and> (\<forall>x\<in>snd ` set rs. kr_player_id x = None))
      (recode (map (\<lambda>(k, r). (k, key_result r))) (each_player (service_phase ec n f) gs'))"
    if "map fst gs' = ks" for ks ec n and f :: "('a, 'b, 'c, 'd, string \<times> sign_algorithm) service_call" and gs'
  proof (rule total_for_recode)
    have "(map fst (map (\<lambda>(k, r). (k, key_result r)) rs) = ks \<and>
        (\<forall>x\<in>snd ` set (map (\<lambda>(k, r). (k, key_result r)) rs). kr_player_id x = None)) \<longleftrightarrow> map fst rs = ks"
      for rs :: "(u64 \<times> _) list"
      by (induction rs arbitrary: ks) (auto simp: key_result_def)
    then show "total_for ks (\<lambda>rs. map fst (map (\<lambda>(k, r). (k, key_result r)) rs) = ks \<and>
        (\<forall>x\<in>snd ` set (map (\<lambda>(k, r). (k, key_result r)) rs). kr_player_id x = None)) (each_player (service_phase ec n f) gs')"
      unfolding total_for_def using total_for_service [OF that, of ec n f] by (simp only: total_for_def)
  qed
  show ?thesis
    unfolding exchange_structures_def
    apply (rule total_for_then [OF phase1])
    apply (rule total_for_then, rule total_for_service, assumption)
    apply (rule total_for_then, rule total_for_service, assumption)
    apply (rule total_for_then, rule total_for_service, assumption)
    apply (rule phase5, assumption)
    done
qed

text \<open>
  C8. Key generation over messages is key generation over structures. When the service returns
  structures of the sizes its types have, a run of the five phases by all players, in which every
  commitment, decommitment and proof travels as bytes, has the same outcome (results or exception,
  and the state of every generator) as the run in which each service receives what the others
  returned, except that a player without Paillier proofs has no entry in the last phase. The run
  never reads outside of a message, answers for exactly the players that took part, and leaves
  the \<open>player_id\<close> of every result unset.
\<close>

theorem key_generation_refines_exchange:
  assumes "service_ok z sv" and "std_ok gs"
  shows "generate_key sv z key_id tenant_id algorithm player_ids threshold gs =
      exchange_structures sv key_id tenant_id algorithm player_ids threshold gs
    \<and> (\<exists>r gs'. generate_key sv z key_id tenant_id algorithm player_ids threshold gs = Returns (r, gs') \<and>
        map fst gs' = map fst gs \<and>
        (case r of
           Inl e \<Rightarrow> True
         | Inr rs \<Rightarrow> map fst rs = map fst gs \<and> list_all (\<lambda>(k, x). kr_player_id x = None) rs))"
proof -
  have "(\<forall>x\<in>snd ` set rs. kr_player_id x = None) \<longleftrightarrow> list_all (\<lambda>(k, x). kr_player_id x = None) rs"
    for rs :: "(u64 \<times> KeyGenResult) list"
    by (auto simp: list_all_iff)
  then show ?thesis
    using generate_key_exchange [OF assms] exchange_total [of gs sv key_id tenant_id algorithm player_ids threshold]
    by (auto simp: total_for_def split: behaviour.splits sum.splits)
qed

section \<open>Errors\<close>

text \<open>\<open>answered\<close>: the phase comes back, and not with an exception of the library.\<close>

definition answered :: "((keygen_exn + 'r) \<times> 'g) behaviour \<Rightarrow> bool" where
  "answered b \<longleftrightarrow>
     (case b of Undefined \<Rightarrow> False | Returns (Inl (Cosigner_exception c), _) \<Rightarrow> False | Returns _ \<Rightarrow> True)"

lemma answered_catch [simp]: "answered (Returns (catch_cosigner ec n r, g))"
  by (simp add: answered_def catch_cosigner_def split: sum.split keygen_exn.split)

lemma answered_Undefined [simp]: "\<not> answered Undefined"
  by (simp add: answered_def)

lemma std_transform_None_iff: "std_transform f m out = None \<longleftrightarrow> \<not> list_all (\<lambda>(k, x). f x \<noteq> None) m"
  by (induction f m out rule: std_transform.induct) (auto split: option.splits)

lemma read_all_proofs_None_iff:
  "read_all_proofs m out = None \<longleftrightarrow> \<not> list_all (\<lambda>(k, x). DeserializePaillierProofs x \<noteq> None) m"
  by (induction m out rule: read_all_proofs.induct) (auto split: option.splits list.splits)

lemma answered_decoded:
  "answered (case x of None \<Rightarrow> Undefined | Some y \<Rightarrow> (case h y of (r, g') \<Rightarrow> Returns (catch_cosigner ec n (map_sum id e r), g')))
     \<longleftrightarrow> x \<noteq> None"
  by (simp split: option.split prod.split del: catch_cosigner_map)

text \<open>
  C28. Every phase answers, whatever the service does, unless a message that it reads is cut
  short: the phases 3, 4 and 5 come back exactly when every decommitment, proof and proof map
  they are given can be read to its end, the phases 1 and 2 always do, and no exception of the
  library leaves any of them. An unknown algorithm and a commitment of a wrong size are refused
  by exceptions of their own, before the service is called and without a change of the state.
\<close>

theorem phases_answer:
  "answered (Phase1_GenerateCommitment sv key_id tenant_id algorithm player_ids threshold g)
   \<and> Phase1_GenerateCommitment sv key_id tenant_id ALGORITHM_UNKNOWN player_ids threshold g =
       Returns (Inl (MPCException INVALID_ALGORITHM ''Unsupported algorithm''), g)
   \<and> answered (Phase2_GenerateDecommitment sv z key_id commitments g)
   \<and> (list_all (\<lambda>(k, x). length x = sz_commitment z) commitments \<or>
      Phase2_GenerateDecommitment sv z key_id commitments g =
        Returns (Inl (MPCException INVALID_INPUT ''Invalid commitment data size''), g))
   \<and> (answered (Phase3_GenerateZKProof sv z key_id decommitments g) \<longleftrightarrow>
        list_all (\<lambda>(k, x). DeserializeDecommitment z x \<noteq> None) decommitments)
   \<and> (answered (Phase4_VerifyAndGeneratePaillierProof sv z key_id zk_proofs g) \<longleftrightarrow>
        list_all (\<lambda>(k, x). DeserializeZKProofs z x \<noteq> None) zk_proofs)
   \<and> (answered (Phase5_CreatePublicKey sv key_id paillier_proofs g) \<longleftrightarrow>
        list_all (\<lambda>(k, x). DeserializePaillierProofs x \<noteq> None) paillier_proofs)"
proof (intro conjI)
  show "answered (Phase1_GenerateCommitment sv key_id tenant_id algorithm player_ids threshold g)"
    by (simp add: Phase1_GenerateCommitment_def split: sum.split prod.split)
  show "Phase1_GenerateCommitment sv key_id tenant_id ALGORITHM_UNKNOWN player_ids threshold g =
      Returns (Inl (MPCException INVALID_ALGORITHM ''Unsupported algorithm''), g)"
    by (simp add: Phase1_GenerateCommitment_def ToFireblocksAlgorithm_def catch_cosigner_def)
  show "answered (Phase2_GenerateDecommitment sv z key_id commitments g)"
    by (simp add: Phase2_GenerateDecommitment_def answered_def split: option.split prod.split)
      (auto simp: catch_cosigner_def split: sum.split keygen_exn.split)
  show "list_all (\<lambda>(k, x). length x = sz_commitment z) commitments \<or>
      Phase2_GenerateDecommitment sv z key_id commitments g =
        Returns (Inl (MPCException INVALID_INPUT ''Invalid commitment data size''), g)"
  proof (rule disjCI)
    assume sizes: "Phase2_GenerateDecommitment sv z key_id commitments g \<noteq>
        Returns (Inl (MPCException INVALID_INPUT ''Invalid commitment data size''), g)"
    have "std_transform (\<lambda>d. if length d \<noteq> sz_commitment z then None else Some d) commitments [] \<noteq> None"
      using sizes unfolding Phase2_GenerateDecommitment_def by (metis option.case(1))
    then show "list_all (\<lambda>(k, x). length x = sz_commitment z) commitments"
      unfolding std_transform_None_iff by (auto simp: list_all_iff split: if_splits)
  qed
  show "answered (Phase3_GenerateZKProof sv z key_id decommitments g) \<longleftrightarrow>
      list_all (\<lambda>(k, x). DeserializeDecommitment z x \<noteq> None) decommitments"
    unfolding Phase3_GenerateZKProof_def answered_decoded std_transform_None_iff by simp
  show "answered (Phase4_VerifyAndGeneratePaillierProof sv z key_id zk_proofs g) \<longleftrightarrow>
      list_all (\<lambda>(k, x). DeserializeZKProofs z x \<noteq> None) zk_proofs"
    unfolding Phase4_VerifyAndGeneratePaillierProof_def answered_decoded std_transform_None_iff by simp
  show "answered (Phase5_CreatePublicKey sv key_id paillier_proofs g) \<longleftrightarrow>
      list_all (\<lambda>(k, x). DeserializePaillierProofs x \<noteq> None) paillier_proofs"
    unfolding Phase5_CreatePublicKey_def answered_decoded read_all_proofs_None_iff by simp
qed

text \<open>
  A service that keeps its commitments and its key in the store: it commits to its own byte, and
  the public key has one letter for each player whose proofs arrived.
\<close>

definition demo_service :: "(u8, unit, unit, unit) setup_service" where
  "demo_service = \<lparr>sv_error_code = \<lambda>_. 1,
     sv_generate_setup_commitments = \<lambda>key tenant alg ids t pf (w, p).
       (Inr (replicate 32 w), (w, store_keyid_tenant_id key tenant p)),
     sv_store_setup_commitments = \<lambda>key cs pf (w, p).
       (case store_setup_commitments key cs p of
          (Inl e, p') \<Rightarrow> (Inl (Cosigner_exception e), (w, p'))
        | (Inr _, p') \<Rightarrow> (Inr (demo_decommitment w), (w, p'))),
     sv_generate_setup_proofs = \<lambda>key ds pf (w, p). (Inr (demo_zk_proofs w), (w, p)),
     sv_verify_setup_proofs = \<lambda>key ps pf (w, p). (Inr (if w = 2 then [] else [(1, [w])]), (w, p)),
     sv_create_secret = \<lambda>key ps pf (w, p).
       (Inr (replicate (length ps) CHR ''K'', FB_EDDSA_ED25519), (w, delete_temporary_key_data key False p))\<rparr>"

lemma demo_service_ok: "service_ok comment_sizes demo_service"
proof -
  have "sz_commitment comment_sizes = 32" by (simp add: comment_sizes_def)
  then show ?thesis
    by (auto simp: service_ok_def returns_ok_def demo_service_def demo_formats_ok paillier_proofs_ok_def
        store_setup_commitments_def split: if_splits)
qed

definition demo_players :: "(u64 \<times> (u8, unit, unit, unit) key_generator) list" where
  "demo_players = map (\<lambda>(k, w). (k, FireblocksKeyGenerator k ''t'' w)) [(1, 7), (2, 2), (5, 9)]"

theorem key_generation_refines_exchange_witness:
  "case generate_key demo_service comment_sizes ''k'' ''t'' EDDSA_ED25519 [1, 2, 5] 2 demo_players of
     Returns (Inr rs, gs) \<Rightarrow>
       map (\<lambda>(k, r). (k, kr_public_key r, kr_algorithm r)) rs =
         [(1, ''KK'', EDDSA_ED25519), (2, ''KK'', EDDSA_ED25519), (5, ''KK'', EDDSA_ED25519)] \<and>
       map (\<lambda>(k, g). get_tenantid_from_keyid ''k'' (snd (kg_state g))) gs = [''t'', ''t'', ''t'']
   | _ \<Rightarrow> False"
proof -
  have ok: "std_ok demo_players" by (simp add: demo_players_def)
  have "generate_key demo_service comment_sizes ''k'' ''t'' EDDSA_ED25519 [1, 2, 5] 2 demo_players =
      exchange_structures demo_service ''k'' ''t'' EDDSA_ED25519 [1, 2, 5] 2 demo_players"
    using key_generation_refines_exchange [OF demo_service_ok ok] by blast
  then show ?thesis
    by (simp add: exchange_structures_def demo_players_def Phase1_GenerateCommitment_def ToFireblocksAlgorithm_def
        call_service_def service_phase_def then_phase_def demo_service_def FireblocksKeyGenerator_def
        FireblocksPersistency_def store_setup_commitments_def store_keyid_tenant_id_def delete_temporary_key_data_def
        catch_cosigner_def key_result_def get_tenantid_from_keyid_def)
qed

end
