(* ===== verification/Crypto_Provider.thy ===== *)
theory Crypto_Provider
  imports Keygen
begin

text \<open>
  \<open>FireblocksCryptoProvider\<close> and the two signers it owns
  (\<open>FireblocksECDSASigner.cpp\<close>, \<open>FireblocksEdDSASigner.cpp\<close>). The signing phases are placeholders:
  they print and return fixed bytes. The structures with one field are the bytes themselves.
\<close>

section \<open>The ECDSA signer\<close>

type_synonym ECDSAMtaRequest = bytes
type_synonym ECDSAMtaResponse = bytes
type_synonym ECDSAMtaDelta = bytes
type_synonym ECDSAPartialSignature = bytes

record ECDSASignature =
  es_r :: bytes
  es_s :: bytes
  es_v :: u8

definition ECDSA_Phase1_StartSigning :: "string \<Rightarrow> string \<Rightarrow> bytes \<Rightarrow> u64 list \<Rightarrow> ECDSAMtaRequest" where
  "ECDSA_Phase1_StartSigning key_id tx_id message_hash player_ids = replicate 128 0x11"

definition ECDSA_Phase2_MtaResponse :: "string \<Rightarrow> (u64 \<times> ECDSAMtaRequest) list \<Rightarrow> ECDSAMtaResponse" where
  "ECDSA_Phase2_MtaResponse tx_id all_mta_requests = replicate 128 0x22"

definition ECDSA_Phase3_MtaVerify :: "string \<Rightarrow> (u64 \<times> ECDSAMtaResponse) list \<Rightarrow> ECDSAMtaDelta" where
  "ECDSA_Phase3_MtaVerify tx_id all_mta_responses = replicate 64 0x33"

definition ECDSA_Phase4_GetPartialSignature :: "string \<Rightarrow> (u64 \<times> ECDSAMtaDelta) list \<Rightarrow> ECDSAPartialSignature" where
  "ECDSA_Phase4_GetPartialSignature tx_id all_deltas = replicate 32 0x44"

definition ECDSA_Phase5_GetFinalSignature :: "string \<Rightarrow> (u64 \<times> ECDSAPartialSignature) list \<Rightarrow> ECDSASignature" where
  "ECDSA_Phase5_GetFinalSignature tx_id all_partial_sigs =
     \<lparr>es_r = replicate 32 0x55, es_s = replicate 32 0x66, es_v = 0x1b\<rparr>"

section \<open>The EdDSA signer\<close>

type_synonym EdDSACommitment = bytes
type_synonym EdDSAR = bytes
type_synonym EdDSAPartialSignature = bytes

record EdDSARsAndCommitments =
  rc_Rs :: "(u64 \<times> EdDSAR) list"
  rc_commitments :: "(u64 \<times> EdDSACommitment) list"

record EdDSASignature =
  ds_R :: bytes
  ds_s :: bytes

definition EdDSA_Phase1_StartSigning :: "string \<Rightarrow> string \<Rightarrow> bytes \<Rightarrow> u64 list \<Rightarrow> EdDSACommitment" where
  "EdDSA_Phase1_StartSigning key_id tx_id message player_ids = replicate 32 0xAA"

definition EdDSA_Phase2_DecommitR :: "string \<Rightarrow> (u64 \<times> EdDSACommitment) list \<Rightarrow> EdDSAR" where
  "EdDSA_Phase2_DecommitR tx_id all_commitments = replicate 32 0xBB"

definition EdDSA_Phase3_BroadcastR :: "string \<Rightarrow> (u64 \<times> EdDSAR) list \<Rightarrow> EdDSARsAndCommitments" where
  "EdDSA_Phase3_BroadcastR tx_id all_Rs = \<lparr>rc_Rs = all_Rs, rc_commitments = []\<rparr>"

definition EdDSA_Phase4_GetPartialSignature :: "string \<Rightarrow> EdDSARsAndCommitments \<Rightarrow> EdDSAPartialSignature" where
  "EdDSA_Phase4_GetPartialSignature tx_id Rs_and_commitments = replicate 32 0xCC"

definition EdDSA_Phase5_GetFinalSignature :: "string \<Rightarrow> (u64 \<times> EdDSAPartialSignature) list \<Rightarrow> EdDSASignature" where
  "EdDSA_Phase5_GetFinalSignature tx_id all_partial_sigs =
     \<lparr>ds_R = replicate 32 0xDD, ds_s = replicate 32 0xEE\<rparr>"

section \<open>The provider\<close>

text \<open>The signers have no state; the provider is its generator.\<close>

record ('w, 'm, 'a, 's) crypto_provider =
  cr_key_generator :: "('w, 'm, 'a, 's) key_generator"

definition FireblocksCryptoProvider :: "u64 \<Rightarrow> string \<Rightarrow> 'w \<Rightarrow> ('w, 'm, 'a, 's) crypto_provider" where
  "FireblocksCryptoProvider player_id tenant_id w =
     \<lparr>cr_key_generator = FireblocksKeyGenerator player_id tenant_id w\<rparr>"

definition GetKeyGenerator :: "('w, 'm, 'a, 's) crypto_provider \<Rightarrow> ('w, 'm, 'a, 's) key_generator" where
  "GetKeyGenerator p = cr_key_generator p"

definition GetProviderName :: "('w, 'm, 'a, 's) crypto_provider \<Rightarrow> string" where
  "GetProviderName p = ''Fireblocks''"

definition GetVersion :: "('w, 'm, 'a, 's) crypto_provider \<Rightarrow> string" where
  "GetVersion p = ''1.0.0''"

section \<open>What the placeholders give\<close>

text \<open>
  The signature of a whole ECDSA run depends neither on the key nor on the message nor on the
  other players, and its recovery id is not one of the two values that the interface allows.
\<close>

lemma ecdsa_signature_constant:
  "ECDSA_Phase5_GetFinalSignature tx ps = ECDSA_Phase5_GetFinalSignature tx' ps' \<and>
   es_v (ECDSA_Phase5_GetFinalSignature tx ps) \<notin> {0, 1} \<and>
   length (es_r (ECDSA_Phase5_GetFinalSignature tx ps)) = 32 \<and>
   length (es_s (ECDSA_Phase5_GetFinalSignature tx ps)) = 32"
  by (simp add: ECDSA_Phase5_GetFinalSignature_def)

text \<open>The values that phase 3 of EdDSA calls verified carry no commitment to verify them against.\<close>

lemma eddsa_broadcast_drops_commitments:
  "rc_Rs (EdDSA_Phase3_BroadcastR tx Rs) = Rs \<and> rc_commitments (EdDSA_Phase3_BroadcastR tx Rs) = []"
  by (simp add: EdDSA_Phase3_BroadcastR_def)

end
