(* ===== verification/Spec2Isabelle.thy ===== *)
theory Spec2Isabelle
  imports Http_Framing Thread_Pool Node_Server Coordinator_Server Tls_Context Socket_IO Logger Node_Main Coordinator_Main Correlation Broadcast_Round Signal_Wait Crypto_Provider
begin

text \<open>
  Verification of the MPC engine: a coordinator that wallets reach over HTTPS, nodes that it
  reaches over TLS with a framed binary protocol, and the provider library that generates keys
  among the players.

  The system. A wallet posts a protobuf message to the coordinator's HTTPS server
  (\<open>CoordinatorHttpsServer\<close>, one \<open>HttpsSession\<close> per connection), which runs the wallet router on
  a thread pool and writes the responses in the order of the requests. The coordinator keeps
  one \<open>NodeTcpClient\<close> per registered node; a request is given an id and a promise, framed,
  queued, written by the client's send loop, read by the node's receive loop, run on the node's
  pool by \<open>NodeServer::ProcessMessage\<close>, answered through the node's send queue and send loop,
  and completed by the client's receive loop. Both programs start in a \<open>main\<close> that reads the
  configuration, starts the key service and the resource loader and builds the servers. The
  provider under \<open>mpc-sdk\<close> implements the phases of the key generation over the Fireblocks
  library; neither server calls it yet.

  Foundations.
    \<^item> \<open>Prelude\<close>: words, bytes, text, exceptions (\<open>exn\<close>), outcomes with undefined behaviour
      (\<open>behaviour\<close>); \<open>Byte_Codec\<close>: encoders with their decoders as locales \<open>byte_codec\<close>,
      \<open>exact_codec\<close>, \<open>fixed_codec\<close>; \<open>Std_Map\<close>: \<open>std::map\<close> as a sorted association list.
    \<^item> \<open>Basic_Types\<close> (\<open>src/types\<close>), \<open>Framing\<close> and \<open>Http_Framing\<close> (\<open>src/common/network/framing\<close>):
      header images, checksum, validation, HTTP headers; round trips and what each check detects.
    \<^item> \<open>Thread_Safe_Queue\<close>, \<open>Thread_Pool\<close> (\<open>src/common/utils\<close>, with the timed joins): the queue as a
      locale of laws with its first-in-first-out history, the pool as a step relation with the
      ownership of its contexts and the end of its workers.
    \<^item> \<open>Env_Config\<close> (\<open>src/common/env\<close>), \<open>Logger\<close>, \<open>Socket_IO\<close> (\<open>SocketUtils.cpp\<close>), \<open>File_System\<close>,
      \<open>Kms\<close> (\<open>src/common/kms\<close>), \<open>Resource_Loader\<close> (\<open>src/common/resource\<close>), \<open>Kernel_Firewall\<close>.

  TLS. \<open>Tls_Context\<close> (\<open>TlsContext.cpp\<close>): ownership of OpenSSL contexts over programs of calls;
  \<open>Tls_Connection\<close> (\<open>TlsConnection.cpp\<close>): handshake, exact transfers and the state machine over
  an environment that scripts the outcome of every system call; \<open>Tls_Material\<close>: the set-up that
  both ends share. \<open>Message_Io\<close>: whole messages over a connection, as the locale
  \<open>framed_channel\<close> interpreted for both directions.

  The node. \<open>Proto_Messages\<close> (\<open>src/proto\<close>), \<open>Routers\<close> (the three routers and their signing
  handlers), \<open>Node_Tcp_Server\<close> (\<open>src/node/network\<close>: access control, the two loops, the connection
  thread, shutdown, as the step relation \<open>node_step\<close>), \<open>Node_Server\<close> (\<open>NodeServer.cpp\<close>),
  \<open>Node_Main\<close> (\<open>src/node/main.cpp\<close>), \<open>Node_Shutdown\<close> (\<open>Stop\<close> with all the threads of the
  server: a measure on what is left shows that it ends, from whatever they were doing).

  The coordinator. \<open>Node_Tcp_Client\<close> (\<open>node_client\<close>: promises, queue, loops, as \<open>client_step\<close>,
  the status callbacks, and \<open>SendRequest\<close> as a whole, over what happens during its wait),
  \<open>Client_Lifecycle\<close> (\<open>Disconnect\<close> to its end), \<open>Https_Session\<close> and \<open>Https_Server\<close>
  (\<open>wallet_server\<close>), \<open>Coordinator_Server\<close> (\<open>CoordinatorServer.cpp\<close>: the registry of nodes refines
  a finite map, broadcast, life cycle), \<open>Coordinator_Main\<close> (\<open>src/coordinator/main.cpp\<close>).
  \<open>Signal_Wait\<close> holds the wait of both main threads and the signal handlers that end it.

  Both together. \<open>Signing_Round\<close> joins a client and a node by a network that moves bytes in
  pieces (\<open>link_session\<close>) and follows a signing request to its answer; \<open>Broadcast_Round\<close> joins a
  broadcast of the coordinator with one such session per named node; \<open>Wire_Frames\<close> shows that
  every frame produced is well formed; \<open>Correlation\<close> shows that in every interleaving a reply
  belongs to its request, by an invariant on the byte streams (locale \<open>stream_channel\<close>, which
  extends \<open>framed_channel\<close>), on the client's books and on the node's work.

  The provider (\<open>mpc-sdk\<close>). \<open>Fireblocks_Persistency\<close>: the key store, which reads as the log of its
  accepted calls; \<open>Fireblocks_Platform\<close>; \<open>Keygen_Codec\<close>: the byte formats of the rounds;
  \<open>Keygen\<close>: the five phases, and a run of all players that refines the exchange of structures
  between the services of the library; \<open>Crypto_Provider\<close>: the signers, which are placeholders.

  Conventions. A class is a record and its members are functions on it; an exception is \<open>Inl\<close>
  of a sum, a \<open>false\<close> result a boolean; \<open>None\<close> of a call on a connection or a queue means that
  it does not return (a blocking wait that nothing ends, or an exhausted script). Integers keep
  their width as words; the clock, file system, sockets, OpenSSL, protobuf, Boost.Asio, \<open>iptables\<close>
  and the Fireblocks library are arguments. Threads are program counters, and a step of a
  thread is the code between two points at which another thread can be seen.

  Bounds and fuel. Loops recurse on what they use up: a transfer on the outcomes of the socket
  that are left, a parser on its text, a reader of entries on their number. Fuel occurs where the
  code itself counts: ten attempts to delete a firewall rule, the retries of a graceful shutdown
  by its readings of the clock, and two steps for each joined loop of \<open>Disconnect\<close>, which are
  shown to be enough. Completion is proved on healthy connections (\<open>healthy\<close>, \<open>open_link\<close>):
  every call makes progress or asks for a retry whose wait ends with the socket ready. Serving a
  session ends by a measure on its work, and so does the shutdown of a node; there the handlers
  are taken to return, and a thread inside a read or write to see the connection closed (the code
  destroys the connection under them, which is a finding).

  Not modelled. The generated protobuf classes (the wire format is a parameter with its
  documented round trip), the Fireblocks library (a submodule without files; its structures,
  sizes, error codes and set-up service are parameters of the key generation), the text written
  by \<open>std::cout\<close> and by the logging calls of the components, \<open>PrintUsage\<close>, floating-point
  success rates, certificate and configuration printing helpers, the handlers that only log, data races on unlocked fields (the findings
  name those that the code has), a failing allocation, tests, scripts, certificates and
  environment files. A session in \<open>Correlation\<close> covers one connection: after a lost connection the
  client must disconnect, and \<open>Node_Tcp_Client\<close> shows that it then refuses every request.
\<close>

end
